(* ===== verification/Prelude.thy ===== *)
theory Prelude
  imports Complex_Main "HOL-Library.AList"
begin

text \<open>
  Shared material of the development: the collections of facts the component theories feed
  and use, Python's insertion-ordered dictionaries as association lists, and the exceptions
  the modelled code raises.

  A Python \<open>dict\<close> keeps its keys in the order of their first insertion, and the code
  iterates over dictionaries where that order decides the result (the first resting order
  that matches a leg, the oldest cached signal). A dictionary is therefore an association
  list: assigning to a present key keeps its place, assigning to a new key appends.
\<close>

named_theorems dict_simps \<open>lookup laws of dictionaries\<close>
named_theorems dec_exact \<open>decimal operations that do not round\<close>

datatype py_error =
    InvalidStateTransition
  | OrderNotFound
  | ConfigError
  | ValueError
  | SequenceGap
  | Backpressure
  | BusStopped
  | DivisionByZero
  | KeyError
  | OrderError
  | TypeError
  | RuntimeError
  | InvalidOperation
  | AttributeError
  | FeedDisconnected

text \<open>Evaluation in sequence: the first exception ends it.\<close>

fun sum_bind :: "'e + 'a \<Rightarrow> ('a \<Rightarrow> 'e + 'b) \<Rightarrow> 'e + 'b" where
  "sum_bind (Inl e) f = Inl e"
| "sum_bind (Inr x) f = f x"

fun sum_map :: "('a \<Rightarrow> 'e + 'b) \<Rightarrow> 'a list \<Rightarrow> 'e + 'b list" where
  "sum_map f [] = Inr []"
| "sum_map f (x # xs) = sum_bind (f x) (\<lambda>y. sum_bind (sum_map f xs) (\<lambda>ys. Inr (y # ys)))"

text \<open>The rest of a stateful operation that may have raised: it runs on the state that was left.\<close>

definition and_then :: "'s \<times> ('e + 'a) \<Rightarrow> ('s \<Rightarrow> 'a \<Rightarrow> 's \<times> ('e + 'b)) \<Rightarrow> 's \<times> ('e + 'b)" where
  "and_then m k = (case m of (s, Inl e) \<Rightarrow> (s, Inl e) | (s, Inr x) \<Rightarrow> k s x)"

lemma and_then_simps [simp]: "and_then (s, Inl e) k = (s, Inl e)" "and_then (s, Inr x) k = k s x"
  by (simp_all add: and_then_def)

lemma and_then_Inr:
  "and_then m k = (s', Inr y) \<longleftrightarrow> (\<exists>s x. m = (s, Inr x) \<and> k s x = (s', Inr y))"
  by (cases m; cases "snd m") auto

lemma sum_bind_assoc: "sum_bind (sum_bind m f) g = sum_bind m (\<lambda>x. sum_bind (f x) g)"
  by (cases m) simp_all

lemma sum_bind_Inr: "sum_bind m f = Inr y \<longleftrightarrow> (\<exists>x. m = Inr x \<and> f x = Inr y)"
  by (cases m) auto

text \<open>Dictionary operations: \<open>d.get(k)\<close>, \<open>d[k] = v\<close>, \<open>d.pop(k, None)\<close>, in-place mutation of a value.\<close>

type_synonym ('k, 'v) dict = "('k \<times> 'v) list"

definition dget :: "('k, 'v) dict \<Rightarrow> 'k \<Rightarrow> 'v option" where
  "dget d k = map_of d k"

definition dset :: "'k \<Rightarrow> 'v \<Rightarrow> ('k, 'v) dict \<Rightarrow> ('k, 'v) dict" where
  "dset k v d = AList.update k v d"

definition dpop :: "'k \<Rightarrow> ('k, 'v) dict \<Rightarrow> ('k, 'v) dict" where
  "dpop k d = AList.delete k d"

definition dmod :: "'k \<Rightarrow> ('v \<Rightarrow> 'v) \<Rightarrow> ('k, 'v) dict \<Rightarrow> ('k, 'v) dict" where
  "dmod k f d = map (\<lambda>(j, v). if j = k then (j, f v) else (j, v)) d"

definition dkeys :: "('k, 'v) dict \<Rightarrow> 'k list" where
  "dkeys d = map fst d"

definition dvals :: "('k, 'v) dict \<Rightarrow> 'v list" where
  "dvals d = map snd d"

definition dict_ok :: "('k, 'v) dict \<Rightarrow> bool" where
  "dict_ok d \<longleftrightarrow> distinct (map fst d)"

lemma dmod_Nil [simp]: "dmod k f [] = []"
  by (simp add: dmod_def)

lemma dmod_Cons [simp]: "dmod k f ((j, v) # d) = (j, if j = k then f v else v) # dmod k f d"
  by (simp add: dmod_def)

lemma dget_Nil [simp]: "dget [] k = None"
  by (simp add: dget_def)

lemma dget_Cons [simp]: "dget ((j, v) # d) k = (if j = k then Some v else dget d k)"
  by (simp add: dget_def)

lemma dget_dset [simp, dict_simps]: "dget (dset k v d) j = (if j = k then Some v else dget d j)"
  by (simp add: dget_def dset_def update_conv)

lemma dget_dpop [simp, dict_simps]: "dget (dpop k d) j = (if j = k then None else dget d j)"
  by (simp add: dget_def dpop_def delete_conv)

lemma dget_dmod [simp, dict_simps]:
  "dget (dmod k f d) j = (if j = k then map_option f (dget d j) else dget d j)"
  by (induction d) auto

lemma dict_ok_Nil [simp]: "dict_ok []"
  by (simp add: dict_ok_def)

lemma dict_ok_dset [simp, intro]: "dict_ok d \<Longrightarrow> dict_ok (dset k v d)"
  by (simp add: dict_ok_def dset_def distinct_update)

lemma dict_ok_dpop [simp, intro]: "dict_ok d \<Longrightarrow> dict_ok (dpop k d)"
  by (simp add: dict_ok_def dpop_def distinct_delete)

lemma dkeys_dmod [simp]: "dkeys (dmod k f d) = dkeys d"
  by (induction d) (auto simp: dkeys_def)

lemma dict_ok_dmod [simp]: "dict_ok (dmod k f d) = dict_ok d"
  using dkeys_dmod [of k f d] by (simp add: dict_ok_def dkeys_def)

lemma dset_new: "dget d k = None \<Longrightarrow> dset k v d = d @ [(k, v)]"
  by (induction d) (auto simp: dset_def dget_def split: if_splits)

lemma dget_append: "dget (d @ e) k = (case dget d k of None \<Rightarrow> dget e k | Some v \<Rightarrow> Some v)"
  by (induction d) auto

lemma dget_Some_mem: "dget d k = Some v \<Longrightarrow> (k, v) \<in> set d"
  by (simp add: dget_def map_of_SomeD)

lemma dget_mem: "dict_ok d \<Longrightarrow> dget d k = Some v \<longleftrightarrow> (k, v) \<in> set d"
  by (simp add: dget_def dict_ok_def)

lemma dget_None: "dget d k = None \<longleftrightarrow> k \<notin> set (dkeys d)"
  by (auto simp: dget_def dkeys_def map_of_eq_None_iff)

lemma set_dkeys_dset [simp]: "set (dkeys (dset k v d)) = insert k (set (dkeys d))"
  by (induction d) (auto simp: dkeys_def dset_def)

lemma dset_mem: "(j, u) \<in> set (dset k v d) \<Longrightarrow> (j, u) = (k, v) \<or> (j, u) \<in> set d"
  by (induction d) (auto simp: dset_def split: if_splits)

lemma dvals_mem: "v \<in> set (dvals d) \<longleftrightarrow> (\<exists>k. (k, v) \<in> set d)"
  by (force simp: dvals_def)

lemma dpop_mem: "(j, u) \<in> set (dpop k d) \<longleftrightarrow> j \<noteq> k \<and> (j, u) \<in> set d"
  by (induction d) (auto simp: dpop_def)

lemma dmod_mem:
  "(j, u) \<in> set (dmod k f d) \<longleftrightarrow> (\<exists>v. (j, v) \<in> set d \<and> u = (if j = k then f v else v))"
  by (induction d) auto

lemma dmod_none: "dget d k = None \<Longrightarrow> dmod k f d = d"
  by (induction d) (auto split: if_splits)

text \<open>
  The interface the components rely on. A client that only looks up, stores and removes does
  not depend on the association list.
\<close>

locale ordered_dict =
  fixes get :: "'d \<Rightarrow> 'k \<Rightarrow> 'v option"
    and put :: "'k \<Rightarrow> 'v \<Rightarrow> 'd \<Rightarrow> 'd"
    and rem :: "'k \<Rightarrow> 'd \<Rightarrow> 'd"
    and wf :: "'d \<Rightarrow> bool"
  assumes get_put: "get (put k v d) j = (if j = k then Some v else get d j)"
    and get_rem: "get (rem k d) j = (if j = k then None else get d j)"
    and wf_put: "wf d \<Longrightarrow> wf (put k v d)"
    and wf_rem: "wf d \<Longrightarrow> wf (rem k d)"
begin

lemma rem_put: "get (rem k (put k v d)) j = get (rem k d) j"
  by (simp add: get_put get_rem)

lemma put_put: "get (put k v (put k w d)) j = get (put k v d) j"
  by (simp add: get_put)

lemma wf_fold_rem: "wf d \<Longrightarrow> wf (fold rem ks d)"
  by (induction ks arbitrary: d) (auto intro: wf_rem)

lemma get_fold_rem: "get (fold rem ks d) j = (if j \<in> set ks then None else get d j)"
  by (induction ks arbitrary: d) (auto simp: get_rem)

end

interpretation pydict: ordered_dict dget dset dpop dict_ok
  by unfold_locales auto

text \<open>Lists.\<close>

lemma sum_list_map_add: "(\<Sum>x\<leftarrow>xs. f x + g x) = (\<Sum>x\<leftarrow>xs. f x) + (\<Sum>x\<leftarrow>xs. (g x :: rat))"
  by (induction xs) auto

lemma find_Some_iff: "find P xs = Some x \<Longrightarrow> P x \<and> x \<in> set xs"
  by (induction xs) (auto split: if_splits)

lemma find_None_all: "find P xs = None \<longleftrightarrow> (\<forall>x \<in> set xs. \<not> P x)"
  by (induction xs) auto

lemma all_le_Suc_iff: "(\<forall>j \<le> Suc k. P j) \<longleftrightarrow> P 0 \<and> (\<forall>j \<le> k. P (Suc j))"
  by (metis Suc_le_mono le0 not0_implies_Suc)

end
