(* ===== verification/Decimals.thy ===== *)
theory Decimals
  imports Prelude
begin

text \<open>
  Python's \<open>decimal.Decimal\<close> under the default context: a value is a rational number, and
  every arithmetic operation computes the exact result and rounds it to 28 significant
  digits, half to even. Comparisons, \<open>min\<close> and \<open>max\<close> are exact. Infinities and NaNs do
  not occur (the event models refuse them), and the exponent range of the default context,
  ten to the power of a million, is not reached.

  \<open>rnd\<close> is the rounding. \<open>dec_exp\<close> finds the exponent of the last of the 28 digits by
  dividing or multiplying by ten, so it evaluates. The lemmas show that \<open>rnd\<close> is the
  identity on values of at most 28 digits, keeps signs, is monotone, and is off by at most
  half a unit of the last digit.
\<close>

type_synonym dec = rat

subsection \<open>Rounding to 28 significant digits\<close>

definition round_he :: "rat \<Rightarrow> int" where
  "round_he x = (let f = \<lfloor>x\<rfloor>; d = x - of_int f in
     if d < 1/2 then f else if d > 1/2 then f + 1 else if even f then f else f + 1)"

function ndiv :: "rat \<Rightarrow> nat" where
  "ndiv y = (if y < 10 ^ 28 then 0 else Suc (ndiv (y / 10)))"
  by pat_completeness auto
termination
proof (relation "measure (\<lambda>y. nat \<lfloor>y\<rfloor>)")
  fix y :: rat
  assume "\<not> y < 10 ^ 28"
  then have y: "10 ^ 28 \<le> y" by simp
  then have "y / 10 \<le> y - 1" by simp
  then have "\<lfloor>y / 10\<rfloor> \<le> \<lfloor>y\<rfloor> - 1" by linarith
  moreover have "0 < \<lfloor>y\<rfloor>" using y by simp
  ultimately show "(y / 10, y) \<in> measure (\<lambda>y. nat \<lfloor>y\<rfloor>)" by simp
qed simp

function nmul :: "rat \<Rightarrow> nat" where
  "nmul y = (if y \<le> 0 \<or> 10 ^ 27 \<le> y then 0 else Suc (nmul (y * 10)))"
  by pat_completeness auto
termination
proof (relation "measure (\<lambda>y. nat \<lfloor>10 ^ 28 / y\<rfloor>)")
  fix y :: rat
  assume "\<not> (y \<le> 0 \<or> 10 ^ 27 \<le> y)"
  then have y: "0 < y" "y < 10 ^ 27" by auto
  then have b: "10 < 10 ^ 28 / y" by (simp add: field_simps)
  have e: "10 ^ 28 / (y * 10) = (10 ^ 28 / y) / 10" by simp
  have "z / 10 \<le> z - 1" if "10 < z" for z :: rat using that by linarith
  from this [OF b] have "10 ^ 28 / (y * 10) \<le> 10 ^ 28 / y - 1" by (simp only: e)
  then have "\<lfloor>10 ^ 28 / (y * 10)\<rfloor> \<le> \<lfloor>10 ^ 28 / y\<rfloor> - 1" by linarith
  moreover have "0 < \<lfloor>10 ^ 28 / y\<rfloor>" using b by linarith
  ultimately show "(y * 10, y) \<in> measure (\<lambda>y. nat \<lfloor>10 ^ 28 / y\<rfloor>)" by simp
qed simp

declare ndiv.simps [simp del] nmul.simps [simp del]

definition dec_exp :: "rat \<Rightarrow> int" where
  "dec_exp x = int (ndiv x) - int (nmul x)"

definition rnd_pos :: "rat \<Rightarrow> rat" where
  "rnd_pos x = of_int (round_he (x / 10 powi dec_exp x)) * 10 powi dec_exp x"

definition rnd :: "rat \<Rightarrow> dec" where
  "rnd x = (if x = 0 then 0 else if x < 0 then - rnd_pos (- x) else rnd_pos x)"

definition dadd :: "dec \<Rightarrow> dec \<Rightarrow> dec" where "dadd a b = rnd (a + b)"
definition dsub :: "dec \<Rightarrow> dec \<Rightarrow> dec" where "dsub a b = rnd (a - b)"
definition dmul :: "dec \<Rightarrow> dec \<Rightarrow> dec" where "dmul a b = rnd (a * b)"
definition ddiv :: "dec \<Rightarrow> dec \<Rightarrow> dec" where "ddiv a b = rnd (a / b)"
definition dneg :: "dec \<Rightarrow> dec" where "dneg a = rnd (- a)"
definition dabs :: "dec \<Rightarrow> dec" where "dabs a = rnd \<bar>a\<bar>"

text \<open>Python's \<open>sum(xs, Decimal(0))\<close>.\<close>

definition dsum :: "dec list \<Rightarrow> dec" where
  "dsum xs = foldl dadd 0 xs"

text \<open>
  \<open>a // b\<close> on decimals truncates towards zero, and \<open>a % b\<close> keeps the sign of \<open>a\<close>. The
  code divides by tick and lot sizes only; a zero divisor and a quotient of more than 28
  digits raise, which is \<open>None\<close> here.
\<close>

definition trunc :: "rat \<Rightarrow> int" where
  "trunc x = (if x < 0 then - \<lfloor>- x\<rfloor> else \<lfloor>x\<rfloor>)"

definition dfloordiv :: "dec \<Rightarrow> dec \<Rightarrow> dec option" where
  "dfloordiv a b = (if b = 0 \<or> 10 ^ 28 \<le> \<bar>trunc (a / b)\<bar> then None else Some (of_int (trunc (a / b))))"

definition dmodulo :: "dec \<Rightarrow> dec \<Rightarrow> dec option" where
  "dmodulo a b = (if b = 0 \<or> 10 ^ 28 \<le> \<bar>trunc (a / b)\<bar> then None else Some (rnd (a - of_int (trunc (a / b)) * b)))"

subsection \<open>The exponent\<close>

lemma ndiv_spec: "0 < y \<Longrightarrow> y / 10 ^ ndiv y < 10 ^ 28 \<and> (0 < ndiv y \<longrightarrow> 10 ^ 27 \<le> y / 10 ^ ndiv y)"
proof (induction y rule: ndiv.induct)
  case (1 y)
  show ?case
  proof (cases "y < 10 ^ 28")
    case True
    then show ?thesis by (subst (1 2 3) ndiv.simps) simp
  next
    case False
    with 1 have IH: "y / 10 / 10 ^ ndiv (y / 10) < 10 ^ 28"
      "0 < ndiv (y / 10) \<Longrightarrow> 10 ^ 27 \<le> y / 10 / 10 ^ ndiv (y / 10)" by auto
    have n: "ndiv y = Suc (ndiv (y / 10))" using False by (subst ndiv.simps) simp
    have "10 ^ 27 \<le> y / 10 / 10 ^ ndiv (y / 10)"
      using IH(2) False by (cases "ndiv (y / 10) = 0") auto
    with IH(1) show ?thesis by (simp add: n)
  qed
qed

lemma nmul_spec: "0 < y \<Longrightarrow> y < 10 ^ 28 \<Longrightarrow> 10 ^ 27 \<le> y * 10 ^ nmul y \<and> y * 10 ^ nmul y < 10 ^ 28"
proof (induction y rule: nmul.induct)
  case (1 y)
  show ?case
  proof (cases "10 ^ 27 \<le> y")
    case True
    with 1 show ?thesis by (subst (1 2) nmul.simps) simp
  next
    case False
    with 1 have IH: "10 ^ 27 \<le> y * 10 * 10 ^ nmul (y * 10)" "y * 10 * 10 ^ nmul (y * 10) < 10 ^ 28"
      by auto
    have n: "nmul y = Suc (nmul (y * 10))" using False 1 by (subst nmul.simps) simp
    with IH show ?thesis by (simp add: ac_simps)
  qed
qed

lemma dec_exp_bounds:
  assumes "0 < x"
  shows "10 ^ 27 * 10 powi dec_exp x \<le> x" and "x < 10 ^ 28 * 10 powi dec_exp x"
proof -
  have *: "10 ^ 27 * 10 powi dec_exp x \<le> x \<and> x < 10 ^ 28 * 10 powi dec_exp x"
  proof (cases "x < 10 ^ 28")
    case True
    then have "ndiv x = 0" by (subst ndiv.simps) simp
    then have e: "10 powi dec_exp x = inverse (10 ^ nmul x :: rat)"
      by (simp add: dec_exp_def power_int_minus)
    show ?thesis using nmul_spec [OF assms True] by (simp add: e field_simps)
  next
    case False
    then have m: "nmul x = 0" by (subst nmul.simps) simp
    have "0 < ndiv x" using False by (subst ndiv.simps) simp
    with ndiv_spec [OF assms] have "10 ^ 27 \<le> x / 10 ^ ndiv x" "x / 10 ^ ndiv x < 10 ^ 28" by auto
    moreover have e: "10 powi dec_exp x = (10 ^ ndiv x :: rat)"
      by (simp add: dec_exp_def m)
    ultimately show ?thesis by (simp add: field_simps)
  qed
  show "10 ^ 27 * 10 powi dec_exp x \<le> x" "x < 10 ^ 28 * 10 powi dec_exp x" using * by auto
qed

lemma powi_pos [simp]: "(0::rat) < 10 powi e"
  by simp

lemma powi_not_neg [simp]: "\<not> 10 powi e < (0::rat)"
  using powi_pos [of e] by (simp add: not_less less_imp_le)

lemma powi_split:
  assumes "e \<le> k"
  shows "(10 powi k :: rat) = 10 ^ nat (k - e) * 10 powi e"
proof -
  define n where "n = nat (k - e)"
  have k: "k = int n + e" using assms by (simp add: n_def)
  show ?thesis unfolding n_def [symmetric] by (simp add: k power_int_add)
qed

lemma powi_strict_mono: "e < f \<Longrightarrow> 10 * 10 powi e \<le> (10 powi f :: rat)"
proof -
  assume "e < f"
  then have "(10::rat) powi (e + 1) \<le> 10 powi f" by (intro power_int_increasing) auto
  then show ?thesis by (simp add: power_int_add)
qed

lemma dec_exp_unique:
  assumes "10 ^ 27 * 10 powi e \<le> x" and "x < 10 ^ 28 * 10 powi e"
  shows "dec_exp x = e"
proof -
  have "0 < 10 ^ 27 * (10 powi e :: rat)" by simp
  with assms(1) have pos: "0 < x" by linarith
  show ?thesis
  proof (rule linorder_cases)
    assume "dec_exp x < e"
    from powi_strict_mono [OF this] dec_exp_bounds(2) [OF pos] assms(1) show ?thesis by simp
  next
    assume "e < dec_exp x"
    from powi_strict_mono [OF this] dec_exp_bounds(1) [OF pos] assms(2) show ?thesis by simp
  qed
qed

lemma dec_exp_mono:
  assumes "0 < x" and "x \<le> y"
  shows "dec_exp x \<le> dec_exp y"
proof (rule ccontr)
  assume "\<not> dec_exp x \<le> dec_exp y"
  then have "dec_exp y < dec_exp x" by simp
  from powi_strict_mono [OF this] dec_exp_bounds(1) [OF assms(1)] dec_exp_bounds(2) [of y] assms
  show False by simp
qed

subsection \<open>Rounding to an integer\<close>

lemma round_he_of_int [simp]: "round_he (of_int n) = n"
  by (simp add: round_he_def)

lemma round_he_numeral [simp]: "round_he (numeral n) = numeral n" "round_he 1 = 1" "round_he 0 = 0"
  using round_he_of_int [of "numeral n"] round_he_of_int [of 1] round_he_of_int [of 0] by simp_all

lemma round_he_error: "\<bar>of_int (round_he x) - x\<bar> \<le> 1 / 2"
proof -
  have "of_int \<lfloor>x\<rfloor> \<le> x" "x < of_int \<lfloor>x\<rfloor> + 1" by linarith+
  then show ?thesis by (auto simp: round_he_def Let_def)
qed

lemma round_he_floor: "\<lfloor>x\<rfloor> \<le> round_he x" "round_he x \<le> \<lfloor>x\<rfloor> + 1"
  by (auto simp: round_he_def Let_def)

lemma round_he_mono:
  assumes "x \<le> y"
  shows "round_he x \<le> round_he y"
proof (cases "\<lfloor>x\<rfloor> = \<lfloor>y\<rfloor>")
  case True
  with assms show ?thesis by (auto simp: round_he_def Let_def)
next
  case False
  with assms have "\<lfloor>x\<rfloor> + 1 \<le> \<lfloor>y\<rfloor>" using floor_mono [OF assms] by linarith
  with round_he_floor [of x] round_he_floor [of y] show ?thesis by linarith
qed

lemma round_he_ge: "of_int n \<le> x \<Longrightarrow> n \<le> round_he x"
  using round_he_mono [of "of_int n" x] by simp

lemma round_he_le: "x \<le> of_int n \<Longrightarrow> round_he x \<le> n"
  using round_he_mono [of x "of_int n"] by simp

subsection \<open>Properties of rounding\<close>

lemma rnd_pos_bounds:
  assumes "0 < x"
  shows "10 ^ 27 * 10 powi dec_exp x \<le> rnd_pos x" and "rnd_pos x \<le> 10 ^ 28 * 10 powi dec_exp x"
proof -
  let ?u = "10 powi dec_exp x :: rat"
  have u: "0 < ?u" by simp
  have "of_int (10 ^ 27) \<le> x / ?u" "x / ?u \<le> of_int (10 ^ 28)"
    using dec_exp_bounds [OF assms] u by (simp_all add: pos_le_divide_eq pos_divide_le_eq less_imp_le)
  then have n: "10 ^ 27 \<le> round_he (x / ?u)" "round_he (x / ?u) \<le> 10 ^ 28"
    by (intro round_he_ge round_he_le; simp)+
  have "of_int (10 ^ 27) \<le> (of_int (round_he (x / ?u)) :: rat)" by (simp only: of_int_le_iff n(1))
  then have "(10 ^ 27 :: rat) \<le> of_int (round_he (x / ?u))" by simp
  then show "10 ^ 27 * ?u \<le> rnd_pos x" unfolding rnd_pos_def by (rule mult_right_mono) simp
  have "of_int (round_he (x / ?u)) \<le> (of_int (10 ^ 28) :: rat)" by (simp only: of_int_le_iff n(2))
  then have "of_int (round_he (x / ?u)) \<le> (10 ^ 28 :: rat)" by simp
  then show "rnd_pos x \<le> 10 ^ 28 * ?u" unfolding rnd_pos_def by (rule mult_right_mono) simp
qed

lemma rnd_pos_gt0: "0 < x \<Longrightarrow> 0 < rnd_pos x"
proof -
  assume x: "0 < x"
  have "(0::rat) < 10 ^ 27 * 10 powi dec_exp x" by simp
  then show ?thesis using rnd_pos_bounds(1) [OF x] by (rule less_le_trans)
qed

lemma rnd_pos_mono:
  assumes "0 < x" "x \<le> y"
  shows "rnd_pos x \<le> rnd_pos y"
proof (cases "dec_exp x = dec_exp y")
  case True
  have "x / 10 powi dec_exp y \<le> y / 10 powi dec_exp y"
    using assms by (intro divide_right_mono) auto
  then have "round_he (x / 10 powi dec_exp y) \<le> round_he (y / 10 powi dec_exp y)"
    by (rule round_he_mono)
  then show ?thesis unfolding rnd_pos_def True by (intro mult_right_mono) auto
next
  case False
  with dec_exp_mono [OF assms] have "dec_exp x < dec_exp y" by simp
  from powi_strict_mono [OF this] rnd_pos_bounds(2) [OF assms(1)] rnd_pos_bounds(1) [of y] assms
  show ?thesis by simp
qed

lemma rnd_pos_exact:
  assumes n: "0 < n" "n \<le> 10 ^ 28"
  shows "rnd_pos (of_int n * 10 powi k) = of_int n * 10 powi k"
proof (cases "n = 10 ^ 28")
  case True
  have "dec_exp (of_int n * 10 powi k) = k + 1"
    by (rule dec_exp_unique) (simp_all add: True power_int_add)
  moreover have "of_int n * 10 powi k = (of_int (10 ^ 27) :: rat) * 10 powi (k + 1)"
    by (simp add: True power_int_add)
  ultimately show ?thesis by (simp add: rnd_pos_def)
next
  case False
  let ?x = "of_int n * 10 powi k :: rat"
  let ?e = "dec_exp ?x"
  have x: "0 < ?x" using n by simp
  have "?e \<le> k"
  proof (rule ccontr)
    assume "\<not> ?e \<le> k"
    then have "10 * 10 powi k \<le> (10 powi ?e :: rat)" by (intro powi_strict_mono) simp
    then have "10 ^ 27 * (10 * 10 powi k) \<le> 10 ^ 27 * (10 powi ?e :: rat)" by (intro mult_left_mono) auto
    also have "\<dots> \<le> ?x" by (rule dec_exp_bounds(1) [OF x])
    also have "10 ^ 27 * (10 * 10 powi k) = (of_int (10 ^ 28) :: rat) * 10 powi k" by simp
    finally have "of_int (10 ^ 28) * 10 powi k \<le> ?x" .
    then have "(of_int (10 ^ 28) :: rat) \<le> of_int n" by (simp only: mult_le_cancel_right_pos powi_pos)
    then have "10 ^ 28 \<le> n" by (simp only: of_int_le_iff)
    with n False show False by linarith
  qed
  then have p: "(10 powi k :: rat) = 10 ^ nat (k - ?e) * 10 powi ?e" by (rule powi_split)
  define E m where "E = ?e" and "m = n * 10 ^ nat (k - ?e)"
  have e: "?x = of_int m * 10 powi E" using p by (simp add: E_def m_def)
  have "?x / 10 powi E = of_int m" by (simp only: e) simp
  then have "rnd_pos ?x = of_int m * 10 powi E" by (simp add: rnd_pos_def flip: E_def)
  with e show ?thesis by simp
qed

lemma rnd_0 [simp]: "rnd 0 = 0"
  by (simp add: rnd_def)

lemma rnd_minus: "rnd (- x) = - rnd x"
  by (auto simp: rnd_def)

lemma rnd_pos_iff [simp]: "0 < rnd x \<longleftrightarrow> 0 < x"
  using rnd_pos_gt0 [of x] rnd_pos_gt0 [of "- x"] by (auto simp: rnd_def)

lemma rnd_neg_iff [simp]: "rnd x < 0 \<longleftrightarrow> x < 0"
  using rnd_pos_iff [of "- x"] by (simp add: rnd_minus)

lemma rnd_nonneg_iff [simp]: "0 \<le> rnd x \<longleftrightarrow> 0 \<le> x"
  by (simp flip: not_less)

lemma rnd_nonpos_iff [simp]: "rnd x \<le> 0 \<longleftrightarrow> x \<le> 0"
  by (simp flip: not_less)

lemma rnd_eq_0_iff [simp]: "rnd x = 0 \<longleftrightarrow> x = 0"
  by (metis rnd_0 rnd_neg_iff rnd_pos_iff linorder_less_linear less_irrefl)

lemma rnd_mono:
  assumes "x \<le> y"
  shows "rnd x \<le> rnd y"
proof -
  consider "0 < x" | "y < 0" | "x \<le> 0" "0 \<le> y" by linarith
  then show ?thesis
  proof cases
    case 1
    with assms show ?thesis using rnd_pos_mono [of x y] by (simp add: rnd_def)
  next
    case 2
    with assms show ?thesis using rnd_pos_mono [of "- y" "- x"] by (simp add: rnd_def)
  next
    case 3
    then have "rnd x \<le> 0" "0 \<le> rnd y" by simp_all
    then show ?thesis by linarith
  qed
qed

text \<open>\<open>dgrid k x\<close>: \<open>x\<close> has at most \<open>k\<close> digits after the point; \<open>dfits k x\<close>: and at most 28 in all.\<close>

definition dgrid :: "nat \<Rightarrow> rat \<Rightarrow> bool" where
  "dgrid k x \<longleftrightarrow> x * 10 ^ k \<in> \<int>"

definition dfits :: "nat \<Rightarrow> rat \<Rightarrow> bool" where
  "dfits k x \<longleftrightarrow> dgrid k x \<and> \<bar>x\<bar> * 10 ^ k \<le> 10 ^ 28"

lemma rnd_exact_int:
  assumes "\<bar>n\<bar> \<le> 10 ^ 28"
  shows "rnd (of_int n * 10 powi k) = of_int n * 10 powi k"
proof -
  consider "n = 0" | "0 < n" | "n < 0" by linarith
  then show ?thesis
  proof cases
    case 2
    with assms have "rnd_pos (of_int n * 10 powi k) = of_int n * 10 powi k"
      by (intro rnd_pos_exact) auto
    with 2 show ?thesis by (auto simp: rnd_def mult_less_0_iff)
  next
    case 3
    with assms have "rnd_pos (of_int (- n) * 10 powi k) = of_int (- n) * 10 powi k"
      by (intro rnd_pos_exact) auto
    with 3 show ?thesis by (auto simp: rnd_def mult_less_0_iff)
  qed simp
qed

lemma rnd_exact: "dfits k x \<Longrightarrow> rnd x = x"
proof -
  assume f: "dfits k x"
  then obtain n where n: "x * 10 ^ k = of_int n" by (auto simp: dfits_def dgrid_def Ints_def)
  then have x: "x = of_int n * 10 powi (- int k)"
    by (simp add: power_int_minus field_simps)
  have "(of_int \<bar>n\<bar> :: rat) = \<bar>x\<bar> * 10 ^ k" using n by (simp add: abs_mult flip: n)
  with f have "(of_int \<bar>n\<bar> :: rat) \<le> of_int (10 ^ 28)" by (simp add: dfits_def)
  then have "\<bar>n\<bar> \<le> 10 ^ 28" by (simp only: of_int_le_iff)
  from rnd_exact_int [OF this, of "- int k"] show ?thesis by (simp only: x)
qed

lemma rnd_idem [simp]: "rnd (rnd x) = rnd x"
proof -
  have *: "rnd (rnd_pos y) = rnd_pos y" if y: "0 < y" for y
  proof -
    let ?n = "round_he (y / 10 powi dec_exp y)"
    have "y / 10 powi dec_exp y \<le> of_int (10 ^ 28)"
      using dec_exp_bounds(2) [OF y] by (simp add: pos_divide_le_eq less_imp_le)
    then have "?n \<le> 10 ^ 28" by (rule round_he_le)
    moreover have "0 \<le> ?n" using y by (intro round_he_ge) auto
    ultimately show ?thesis unfolding rnd_pos_def by (intro rnd_exact_int) simp
  qed
  show ?thesis using *[of x] *[of "- x"] by (cases "x = 0"; cases "x < 0") (auto simp: rnd_def [of x] rnd_minus)
qed

text \<open>The error is at most half a unit in the last place, hence relatively at most \<open>5 / 10 ^ 28\<close>.\<close>

lemma rnd_pos_error:
  assumes "0 < x"
  shows "\<bar>rnd_pos x - x\<bar> * (2 * 10 ^ 27) \<le> x"
proof -
  let ?u = "10 powi dec_exp x :: rat"
  have u: "0 < ?u" by simp
  have "rnd_pos x - x = (of_int (round_he (x / ?u)) - x / ?u) * ?u"
    using u by (simp add: rnd_pos_def field_simps)
  then have "\<bar>rnd_pos x - x\<bar> = \<bar>of_int (round_he (x / ?u)) - x / ?u\<bar> * ?u"
    by (simp add: abs_mult)
  also have "\<dots> \<le> 1 / 2 * ?u" using round_he_error u by (intro mult_right_mono) auto
  finally have "\<bar>rnd_pos x - x\<bar> * (2 * 10 ^ 27) \<le> 10 ^ 27 * ?u" by simp
  with dec_exp_bounds(1) [OF assms] show ?thesis by linarith
qed

lemma rnd_error: "\<bar>rnd x - x\<bar> * (2 * 10 ^ 27) \<le> \<bar>x\<bar>"
  using rnd_pos_error [of x] rnd_pos_error [of "- x"]
  by (cases "x = 0"; cases "x < 0") (auto simp: rnd_def abs_minus_commute add.commute)

subsection \<open>Operations that do not round\<close>

lemma dgrid_add: "dgrid k x \<Longrightarrow> dgrid k y \<Longrightarrow> dgrid k (x + y)"
  by (simp add: dgrid_def distrib_right)

lemma dgrid_diff: "dgrid k x \<Longrightarrow> dgrid k y \<Longrightarrow> dgrid k (x - y)"
  by (simp add: dgrid_def left_diff_distrib)

lemma dgrid_minus: "dgrid k x \<Longrightarrow> dgrid k (- x)"
  by (simp add: dgrid_def)

lemma dgrid_0 [simp]: "dgrid k 0"
  by (simp add: dgrid_def)

lemma dgrid_mult: "dgrid k x \<Longrightarrow> dgrid l y \<Longrightarrow> dgrid (k + l) (x * y)"
proof -
  assume "dgrid k x" "dgrid l y"
  then have "(x * 10 ^ k) * (y * 10 ^ l) \<in> \<int>" unfolding dgrid_def by (rule Ints_mult)
  then show ?thesis by (simp add: dgrid_def power_add ac_simps)
qed

lemma dgrid_le: "dgrid k x \<Longrightarrow> k \<le> l \<Longrightarrow> dgrid l x"
proof -
  assume "dgrid k x" "k \<le> l"
  have "(10 :: rat) ^ (l - k) \<in> \<int>" by simp
  with \<open>dgrid k x\<close> have "x * 10 ^ k * 10 ^ (l - k) \<in> \<int>" unfolding dgrid_def by (rule Ints_mult)
  moreover have "(10 :: rat) ^ l = 10 ^ k * 10 ^ (l - k)" using \<open>k \<le> l\<close> by (simp flip: power_add)
  then have "x * 10 ^ l = x * 10 ^ k * 10 ^ (l - k)" by (simp only: mult.assoc)
  ultimately show ?thesis by (simp only: dgrid_def)
qed

lemma dgrid_abs: "dgrid k x \<Longrightarrow> dgrid k \<bar>x\<bar>"
  by (auto simp: abs_if intro: dgrid_minus)

lemma dgrid_min: "dgrid k x \<Longrightarrow> dgrid k y \<Longrightarrow> dgrid k (min x y)"
  by (simp add: min_def)

lemma dgrid_sum_list: "(\<And>x. x \<in> set xs \<Longrightarrow> dgrid k x) \<Longrightarrow> dgrid k (sum_list xs)"
  by (induction xs) (auto intro: dgrid_add)

lemma dgrid_of_int [simp]: "dgrid k (of_int n)"
  by (simp add: dgrid_def)

lemma dgrid_numeral [simp]: "dgrid k (numeral n)" "dgrid k 1"
  by (simp_all add: dgrid_def)

lemma dfitsI: "dgrid k x \<Longrightarrow> \<bar>x\<bar> \<le> B \<Longrightarrow> B * 10 ^ k \<le> 10 ^ 28 \<Longrightarrow> dfits k x"
proof -
  assume a: "dgrid k x" "\<bar>x\<bar> \<le> B" "B * 10 ^ k \<le> 10 ^ 28"
  then have "\<bar>x\<bar> * 10 ^ k \<le> B * 10 ^ k" by (intro mult_right_mono) auto
  also note a(3)
  finally show ?thesis using a(1) by (simp add: dfits_def)
qed

lemma dadd_exact [dec_exact]: "dfits k (a + b) \<Longrightarrow> dadd a b = a + b"
  by (simp add: dadd_def rnd_exact)

lemma dsub_exact [dec_exact]: "dfits k (a - b) \<Longrightarrow> dsub a b = a - b"
  by (simp add: dsub_def rnd_exact)

lemma dmul_exact [dec_exact]: "dfits k (a * b) \<Longrightarrow> dmul a b = a * b"
  by (simp add: dmul_def rnd_exact)

lemma ddiv_exact [dec_exact]: "dfits k (a / b) \<Longrightarrow> ddiv a b = a / b"
  by (simp add: ddiv_def rnd_exact)

lemma dfits_0 [simp]: "dfits k 0"
  by (simp add: dfits_def)

text \<open>A sum whose partial sums all fit is the sum of the list.\<close>

lemma foldl_dadd_exact:
  assumes "\<forall>x \<in> set xs. dgrid k x" and "dgrid k a"
    and "(\<bar>a\<bar> + sum_list (map abs xs)) * 10 ^ k \<le> 10 ^ 28"
  shows "foldl dadd a xs = a + sum_list xs"
  using assms
proof (induction xs arbitrary: a)
  case Nil
  then show ?case by simp
next
  case (Cons x xs)
  have nn: "0 \<le> sum_list (map abs xs)" by (rule sum_list_nonneg) auto
  have g: "dgrid k (a + x)" using Cons.prems by (auto intro: dgrid_add)
  have "dfits k (a + x)"
    using g by (rule dfitsI [OF _ _ Cons.prems(3)]) (use nn in auto)
  then have e: "dadd a x = a + x" by (rule dadd_exact)
  have "(\<bar>a + x\<bar> + sum_list (map abs xs)) * 10 ^ k \<le> (\<bar>a\<bar> + sum_list (map abs (x # xs))) * 10 ^ k"
    by (intro mult_right_mono) auto
  also note Cons.prems(3)
  finally show ?case using Cons.prems Cons.IH [OF _ g] by (simp add: e)
qed

lemma dsum_exact:
  "\<forall>x \<in> set xs. dgrid k x \<Longrightarrow> sum_list (map abs xs) * 10 ^ k \<le> 10 ^ 28 \<Longrightarrow> dsum xs = sum_list xs"
  using foldl_dadd_exact [of xs k 0] by (simp add: dsum_def)

text \<open>Signs survive rounding, whatever the number of digits.\<close>

lemma dsub_sign [simp]: "0 < dsub a b \<longleftrightarrow> b < a" "dsub a b \<le> 0 \<longleftrightarrow> a \<le> b"
  "dsub a b = 0 \<longleftrightarrow> a = b" "dsub a b < 0 \<longleftrightarrow> a < b" "0 \<le> dsub a b \<longleftrightarrow> b \<le> a"
  by (auto simp: dsub_def)

lemma dmul_sign [simp]: "dmul a b = 0 \<longleftrightarrow> a = 0 \<or> b = 0"
  by (simp add: dmul_def)

lemma dadd_0 [simp]: "dadd 0 (rnd x) = rnd x" "dadd (rnd x) 0 = rnd x"
  by (simp_all add: dadd_def)

text \<open>Evaluation of closed terms: integers of at most 28 digits do not round.\<close>

lemma rnd_numeral [simp]:
  "numeral n \<le> (10 ^ 28 :: int) \<Longrightarrow> rnd (numeral n) = numeral n" "rnd 1 = 1"
  "numeral n \<le> (10 ^ 28 :: int) \<Longrightarrow> rnd (- numeral n) = - numeral n" "rnd (- 1) = - 1"
  using rnd_exact_int [of "numeral n" 0] rnd_exact_int [of 1 0] by (simp_all add: rnd_minus)

lemmas dec_ops = dadd_def dsub_def dmul_def ddiv_def dneg_def dabs_def

end
