(* ===== verification/Core_Types.thy ===== *)
theory Core_Types
  imports Decimals "HOL-Library.Char_ord" "HOL-Library.List_Lexorder"
begin

text \<open>
  \<open>trading.core\<close>: the enumerations of \<open>types.py\<close>, \<open>Instrument\<close> with its rounding helpers
  (\<open>instruments.py\<close>), the events of \<open>events.py\<close> that the modelled components exchange, and
  \<open>SimulatedClock\<close> (\<open>clock.py\<close>).

  Every event carries \<open>ts_event\<close>, \<open>ts_ingest\<close> and \<open>source\<close>, as \<open>BaseEvent\<close> does; the
  random \<open>event_id\<close> is kept only where the code reads it, on signals. Timestamps are
  integers (nanoseconds), identifiers that are UUIDs are natural numbers below \<open>2 ^ 128\<close>,
  money and quantities are decimals. Fields that only carry text for people or for the log
  (messages, \<open>metadata\<close>, venue error codes, the mid price stamped on a simulated fill) have no
  counterpart: no modelled code reads them.
\<close>

type_synonym timestamp = int
type_synonym uuid = nat
type_synonym strategy_id = string
type_synonym coid = string

text \<open>
  Reasons that travel with events. An f-string that interpolates decimals is kept as its
  template with the values, since the printing of numbers is not modelled; it is empty exactly
  when it is the empty literal.
\<close>

datatype py_text = Text string | Fmt string "dec list"

definition hex_digit :: "nat \<Rightarrow> char" where
  "hex_digit n = ''0123456789abcdef'' ! n"

text \<open>The first twelve of the 32 hexadecimal digits of a UUID.\<close>

definition uuid_hex12 :: "uuid \<Rightarrow> string" where
  "uuid_hex12 u = map (\<lambda>i. hex_digit (u div 16 ^ (31 - i) mod 16)) [0 ..< 12]"

subsection \<open>Enumerations\<close>

datatype side = BUY | SELL

fun side_sign :: "side \<Rightarrow> dec" where
  "side_sign BUY = 1"
| "side_sign SELL = - 1"

datatype order_type = OT_MARKET | OT_LIMIT | OT_STOP | OT_STOP_LIMIT | OT_IOC | OT_FOK | OT_POST_ONLY

datatype time_in_force = TIF_GTC | TIF_IOC | TIF_FOK | TIF_DAY | TIF_GTD | TIF_GTX

datatype execution_intent = PASSIVE | NORMAL | URGENT

datatype order_status =
    PENDING_NEW | ACKNOWLEDGED | PARTIALLY_FILLED | FILLED | PENDING_CANCEL
  | CANCELLED | REJECTED | EXPIRED | PENDING_AMEND

definition status_is_terminal :: "order_status \<Rightarrow> bool" where
  "status_is_terminal st \<longleftrightarrow> st \<in> {FILLED, CANCELLED, REJECTED, EXPIRED}"

datatype severity = INFO | WARN | BLOCK | KILL

fun severity_value :: "severity \<Rightarrow> string" where
  "severity_value INFO = ''INFO''"
| "severity_value WARN = ''WARN''"
| "severity_value BLOCK = ''BLOCK''"
| "severity_value KILL = ''KILL''"

datatype asset_type = AT_SPOT | AT_PERPETUAL | AT_FUTURES | AT_OPTION | AT_EQUITY | AT_FX

lemma side_sign_cases: "side_sign s = 1 \<or> side_sign s = - 1"
  by (cases s) auto

lemma side_sign_neq0 [simp]: "side_sign s \<noteq> 0"
  by (cases s) auto

lemma abs_side_sign [simp]: "\<bar>side_sign s\<bar> = 1"
  by (cases s) auto

lemma side_sign_inj [simp]: "side_sign s = side_sign t \<longleftrightarrow> s = t"
  by (cases s; cases t) auto

subsection \<open>Instruments\<close>

record instrument =
  i_symbol :: string
  i_exchange :: string
  i_asset_type :: asset_type
  i_base :: string
  i_quote :: string
  i_tick_size :: dec
  i_lot_size :: dec
  i_min_notional :: "dec option"
  i_multiplier :: dec

definition instrument_id :: "instrument \<Rightarrow> string" where
  "instrument_id i = i_exchange i @ '':'' @ i_symbol i"

definition round_price :: "instrument \<Rightarrow> dec \<Rightarrow> dec option" where
  "round_price i p = map_option (\<lambda>q. dmul q (i_tick_size i)) (dfloordiv p (i_tick_size i))"

definition round_quantity :: "instrument \<Rightarrow> dec \<Rightarrow> dec option" where
  "round_quantity i q = map_option (\<lambda>n. dmul n (i_lot_size i)) (dfloordiv q (i_lot_size i))"

definition is_valid_price :: "instrument \<Rightarrow> dec \<Rightarrow> bool option" where
  "is_valid_price i p =
     (if 0 < p then map_option (\<lambda>r. r = 0) (dmodulo p (i_tick_size i)) else Some False)"

definition is_valid_quantity :: "instrument \<Rightarrow> dec \<Rightarrow> bool option" where
  "is_valid_quantity i q =
     (if 0 < q then map_option (\<lambda>r. r = 0) (dmodulo q (i_lot_size i)) else Some False)"

subsection \<open>Events\<close>

record base_event =
  ts_event :: timestamp
  ts_ingest :: timestamp
  source :: string

record tick_event = base_event +
  tk_instrument :: instrument
  tk_bid_price :: dec
  tk_bid_size :: dec
  tk_ask_price :: dec
  tk_ask_size :: dec

definition tick_mid :: "tick_event \<Rightarrow> dec" where
  "tick_mid t = ddiv (dadd (tk_bid_price t) (tk_ask_price t)) 2"

definition tick_spread :: "tick_event \<Rightarrow> dec" where
  "tick_spread t = dsub (tk_ask_price t) (tk_bid_price t)"

record trade_event = base_event +
  tr_instrument :: instrument
  tr_price :: dec
  tr_quantity :: dec
  tr_aggressor :: "side option"
  tr_venue_trade_id :: "string option"

record book_level =
  lv_price :: dec
  lv_quantity :: dec

record order_book_event = base_event +
  ob_instrument :: instrument
  ob_bids :: "book_level list"
  ob_asks :: "book_level list"
  ob_sequence :: int
  ob_is_snapshot :: bool

record funding_rate_event = base_event +
  fr_instrument :: instrument
  fr_rate :: dec
  fr_next_time :: timestamp

record order_leg =
  leg_id :: string
  leg_side :: side
  leg_quantity :: dec
  leg_price :: "dec option"
  leg_type :: order_type
  leg_tif :: time_in_force
  leg_intent :: execution_intent

record signal_event = base_event +
  sig_id :: uuid
  sig_strategy :: strategy_id
  sig_instrument :: instrument
  sig_legs :: "order_leg list"
  sig_atomic :: bool
  sig_rationale :: string

record approved_leg =
  al_leg_id :: string
  al_side :: side
  al_quantity :: dec
  al_clamp_reason :: py_text

record rejected_leg =
  rl_leg_id :: string
  rl_side :: side
  rl_rule_name :: string
  rl_severity :: severity

record risk_decision = base_event +
  rd_signal_id :: uuid
  rd_strategy :: strategy_id
  rd_approved :: bool
  rd_severity :: severity
  rd_rule_name :: "string option"
  rd_approved_legs :: "approved_leg list"
  rd_rejected_legs :: "rejected_leg list"

record risk_alert_event = base_event +
  ra_rule_name :: string
  ra_severity :: severity

record kill_switch_event = base_event +
  ks_triggered_by :: string
  ks_reason :: py_text

record order_request = base_event +
  rq_order_id :: uuid
  rq_coid :: coid
  rq_strategy :: strategy_id
  rq_instrument :: instrument
  rq_side :: side
  rq_type :: order_type
  rq_quantity :: dec
  rq_price :: "dec option"
  rq_stop_price :: "dec option"
  rq_tif :: time_in_force
  rq_upstream :: "timestamp option"

record execution_routed_event = base_event +
  er_strategy :: strategy_id
  er_instrument :: instrument
  er_leg_id :: string
  er_side :: side
  er_intent :: execution_intent
  er_quantity :: dec
  er_algo :: string

record cancel_request = base_event +
  cr_order_id :: uuid
  cr_coid :: coid
  cr_instrument :: instrument

record amend_request = base_event +
  ar_order_id :: uuid
  ar_coid :: coid
  ar_instrument :: instrument
  ar_side :: side
  ar_new_quantity :: "dec option"
  ar_new_price :: "dec option"

text \<open>Gateway responses share the two order identifiers.\<close>

record order_response = base_event +
  re_order_id :: uuid
  re_coid :: coid
  re_reason :: string

record order_acknowledged = order_response +
  ak_exchange_id :: string

record order_amended = order_response +
  am_new_price :: "dec option"
  am_new_quantity :: "dec option"
  am_new_exchange_id :: "string option"

record fill_event = base_event +
  fl_fill_id :: uuid
  fl_order_id :: uuid
  fl_coid :: coid
  fl_exchange_id :: "string option"
  fl_strategy :: strategy_id
  fl_instrument :: instrument
  fl_side :: side
  fl_price :: dec
  fl_quantity :: dec
  fl_cumulative :: dec
  fl_leaves :: dec
  fl_fee :: dec
  fl_fee_currency :: string
  fl_is_maker :: "bool option"

record position_update_event = base_event +
  pu_strategy :: strategy_id
  pu_instrument :: instrument
  pu_quantity :: dec
  pu_avg_price :: dec
  pu_realized :: dec
  pu_unrealized :: dec
  pu_mark :: dec

record pnl_snapshot_event = base_event +
  ps_strategy :: "strategy_id option"
  ps_realized :: dec
  ps_unrealized :: dec
  ps_total :: dec
  ps_gross :: dec
  ps_net :: dec

record working_exposure =
  we_strategy :: strategy_id
  we_instrument :: instrument
  we_buy :: dec
  we_sell :: dec
  we_count :: nat

record open_order_detail =
  od_order_id :: uuid
  od_coid :: coid
  od_strategy :: strategy_id
  od_instrument :: instrument
  od_side :: side
  od_type :: order_type
  od_quantity :: dec
  od_leaves :: dec
  od_price :: "dec option"
  od_status :: order_status
  od_created :: timestamp

record open_orders_event = base_event +
  oo_exposures :: "working_exposure list"
  oo_orders :: "open_order_detail list"

record account_balance =
  ab_asset :: string
  ab_free :: dec
  ab_locked :: dec

record account_snapshot_event = base_event +
  ac_balances :: "account_balance list"

record venue_position =
  vp_instrument :: instrument
  vp_net_quantity :: dec
  vp_entry_price :: dec
  vp_mark_price :: dec
  vp_unrealized :: dec

record venue_positions_event = base_event +
  ve_positions :: "venue_position list"

text \<open>The two analytics events carry floats.\<close>

record microstructure_event = base_event +
  mc_instrument :: instrument
  mc_bid_price :: rat
  mc_ask_price :: rat
  mc_bid_size :: rat
  mc_ask_size :: rat
  mc_mid_price :: rat
  mc_microprice :: rat
  mc_sigma :: "rat option"
  mc_obi :: "rat option"
  mc_ofi :: "rat option"
  mc_vpin :: "rat option"
  mc_obi_l2 :: "rat option"
  mc_depth_bid :: "rat option"
  mc_depth_ask :: "rat option"

record diagnostics_event = base_event +
  dg_strategy :: strategy_id
  dg_instrument :: instrument
  dg_inventory :: rat
  dg_reservation_raw :: rat
  dg_reservation :: rat
  dg_half_spread_raw :: rat
  dg_half_spread :: rat
  dg_bid_quote :: "rat option"
  dg_ask_quote :: "rat option"
  dg_buy_guard :: bool
  dg_sell_guard :: bool
  dg_n_legs :: nat
  dg_vpin_widened :: bool

datatype event =
    EvTick tick_event
  | EvTrade trade_event
  | EvBook order_book_event
  | EvSignal signal_event
  | EvDecision risk_decision
  | EvRiskAlert risk_alert_event
  | EvKillSwitch kill_switch_event
  | EvOrderRequest order_request
  | EvRouted execution_routed_event
  | EvCancelRequest cancel_request
  | EvAmendRequest amend_request
  | EvAck order_acknowledged
  | EvRejected order_response
  | EvCancelled order_response
  | EvCancelRejected order_response
  | EvAmendRejected order_response
  | EvAmended order_amended
  | EvFill fill_event
  | EvPosition position_update_event
  | EvPnL pnl_snapshot_event
  | EvOpenOrders open_orders_event
  | EvMicrostructure microstructure_event
  | EvAccount account_snapshot_event
  | EvVenuePositions venue_positions_event
  | EvFunding funding_rate_event
  | EvDiagnostics diagnostics_event

datatype topic =
    MARKET_DATA | SIGNALS | RISK_DECISIONS | ORDERS | OPEN_ORDERS | FILLS | POSITIONS
  | VENUE_POSITIONS | ACCOUNT | ALERTS | ANALYTICS | STRATEGY_DIAGNOSTICS

subsection \<open>The simulated clock\<close>

record sim_clock =
  ck_now :: timestamp
  ck_monotonic :: int

definition clock_init :: "timestamp option \<Rightarrow> sim_clock" where
  "clock_init start = \<lparr>ck_now = (case start of None \<Rightarrow> 0 | Some t \<Rightarrow> t), ck_monotonic = 0\<rparr>"

definition set_time :: "sim_clock \<Rightarrow> timestamp \<Rightarrow> py_error + sim_clock" where
  "set_time c ns =
     (if ns < ck_now c then Inl ValueError
      else Inr (c\<lparr>ck_now := ns, ck_monotonic := ck_monotonic c + (ns - ck_now c)\<rparr>))"

definition advance :: "sim_clock \<Rightarrow> int \<Rightarrow> py_error + sim_clock" where
  "advance c d =
     (if d < 0 then Inl ValueError
      else Inr (c\<lparr>ck_now := ck_now c + d, ck_monotonic := ck_monotonic c + d\<rparr>))"

text \<open>
  The interface of a clock that a replay may only move forwards, and what a client can rely
  on: a sequence of settings goes through exactly when it never steps back.
\<close>

locale forward_clock =
  fixes now :: "'c \<Rightarrow> int"
    and setc :: "'c \<Rightarrow> int \<Rightarrow> py_error + 'c"
  assumes set_forward: "now c \<le> t \<Longrightarrow> \<exists>c'. setc c t = Inr c' \<and> now c' = t"
    and set_backward: "t < now c \<Longrightarrow> setc c t = Inl ValueError"
begin

fun set_all :: "'c \<Rightarrow> int list \<Rightarrow> py_error + 'c" where
  "set_all c [] = Inr c"
| "set_all c (t # ts) = (case setc c t of Inl e \<Rightarrow> Inl e | Inr c' \<Rightarrow> set_all c' ts)"

lemma set_ok_iff: "(\<exists>c'. setc c t = Inr c') \<longleftrightarrow> now c \<le> t"
  using set_forward [of c t] set_backward [of t c] by (cases "now c \<le> t") auto

lemma set_now: "setc c t = Inr c' \<Longrightarrow> now c' = t"
  using set_forward [of c t] set_backward [of t c] by (cases "now c \<le> t") auto

lemma set_all_ok_iff: "(\<exists>c'. set_all c ts = Inr c') \<longleftrightarrow> sorted (now c # ts)"
proof (induction ts arbitrary: c)
  case Nil
  then show ?case by simp
next
  case (Cons t ts)
  show ?case
  proof (cases "now c \<le> t")
    case True
    then obtain c' where c': "setc c t = Inr c'" "now c' = t" using set_forward by blast
    with Cons.IH [of c'] True show ?thesis by (auto intro: order_trans)
  next
    case False
    then show ?thesis using set_backward [of t c] by auto
  qed
qed

end

interpretation simclock: forward_clock ck_now set_time
  by unfold_locales (auto simp: set_time_def)

end
