(* ===== verification/Order_State_Machine.thy ===== *)
theory Order_State_Machine
  imports Core_Types
begin

text \<open>
  \<open>oms/state_machine.py\<close>: the table of legal status changes and the two functions that read
  it. The table maps a source state (\<open>None\<close> for an order that does not exist yet) to its
  legal destinations; the terminal states have no entry.
\<close>

fun legal_transitions :: "order_status option \<Rightarrow> order_status list option" where
  "legal_transitions None = Some [PENDING_NEW]"
| "legal_transitions (Some PENDING_NEW) =
     Some [ACKNOWLEDGED, REJECTED, CANCELLED, PARTIALLY_FILLED, FILLED]"
| "legal_transitions (Some ACKNOWLEDGED) =
     Some [PARTIALLY_FILLED, FILLED, PENDING_CANCEL, CANCELLED, EXPIRED, PENDING_AMEND]"
| "legal_transitions (Some PARTIALLY_FILLED) =
     Some [PARTIALLY_FILLED, FILLED, PENDING_CANCEL, CANCELLED, EXPIRED, PENDING_AMEND]"
| "legal_transitions (Some PENDING_CANCEL) =
     Some [CANCELLED, PARTIALLY_FILLED, FILLED, ACKNOWLEDGED]"
| "legal_transitions (Some PENDING_AMEND) =
     Some [ACKNOWLEDGED, PARTIALLY_FILLED, FILLED, CANCELLED, REJECTED, PENDING_CANCEL]"
| "legal_transitions (Some FILLED) = None"
| "legal_transitions (Some CANCELLED) = None"
| "legal_transitions (Some REJECTED) = None"
| "legal_transitions (Some EXPIRED) = None"

definition validate_transition :: "order_status option \<Rightarrow> order_status \<Rightarrow> py_error + unit" where
  "validate_transition from_status to_status =
     (case legal_transitions from_status of
        None \<Rightarrow> Inl InvalidStateTransition
      | Some allowed \<Rightarrow>
          if to_status \<notin> set allowed then Inl InvalidStateTransition else Inr ())"

definition is_terminal :: "order_status \<Rightarrow> bool" where
  "is_terminal st \<longleftrightarrow> legal_transitions (Some st) = None"

lemma is_terminal_simps [simp]:
  "\<not> is_terminal PENDING_NEW" "\<not> is_terminal ACKNOWLEDGED" "\<not> is_terminal PARTIALLY_FILLED"
  "\<not> is_terminal PENDING_CANCEL" "\<not> is_terminal PENDING_AMEND"
  "is_terminal FILLED" "is_terminal CANCELLED" "is_terminal REJECTED" "is_terminal EXPIRED"
  by (simp_all add: is_terminal_def)

lemma validate_ok_iff:
  "validate_transition f t = Inr () \<longleftrightarrow>
     (\<exists>allowed. legal_transitions f = Some allowed \<and> t \<in> set allowed)"
  by (auto simp: validate_transition_def split: option.splits)

lemma validate_cases: "validate_transition f t = Inr () \<or> validate_transition f t = Inl InvalidStateTransition"
  by (auto simp: validate_transition_def split: option.splits)

lemma validate_terminal: "is_terminal st \<Longrightarrow> validate_transition (Some st) t = Inl InvalidStateTransition"
  by (simp add: is_terminal_def validate_transition_def)

lemma validate_to_fill [simp]:
  "\<not> is_terminal st \<Longrightarrow> validate_transition (Some st) FILLED = Inr ()"
  "\<not> is_terminal st \<Longrightarrow> validate_transition (Some st) PARTIALLY_FILLED = Inr ()"
  by (cases st; simp add: validate_transition_def)+

lemma validate_to_cancelled [simp]:
  "\<not> is_terminal st \<Longrightarrow> validate_transition (Some st) CANCELLED = Inr ()"
  by (cases st; simp add: validate_transition_def)

text \<open>
  The table as a graph: one legal change of status, and every state an order can come to. The
  relation is inductive so that its cases drive the proofs about sequences of changes.
\<close>

inductive status_step :: "order_status option \<Rightarrow> order_status \<Rightarrow> bool" where
  legal: "validate_transition f t = Inr () \<Longrightarrow> status_step f t"

code_pred status_step .

inductive status_path :: "order_status \<Rightarrow> order_status list \<Rightarrow> bool" where
  start: "status_step None s \<Longrightarrow> status_path s [s]"
| change: "status_path s ss \<Longrightarrow> status_step (Some s) t \<Longrightarrow> status_path t (t # ss)"

inductive_simps status_step_iff: "status_step f t"
inductive_cases status_path_NilE: "status_path s []"
inductive_cases status_path_ConsE: "status_path s (t # ss)"

lemma status_path_hd: "status_path s ss \<Longrightarrow> ss \<noteq> [] \<and> hd ss = s"
  by (induction rule: status_path.induct) auto

lemma status_path_tail_live: "status_path s ss \<Longrightarrow> \<forall>t \<in> set (tl ss). \<not> is_terminal t"
proof (induction rule: status_path.induct)
  case (start s)
  then show ?case by simp
next
  case (change s ss t)
  have "\<not> is_terminal s"
    using change.hyps validate_terminal [of s t] by (auto simp: status_step_iff)
  moreover have "ss = s # tl ss"
    using status_path_hd [OF change.hyps(1)] by (cases ss) auto
  ultimately show ?case using change.IH by (metis list.sel(3) set_ConsD)
qed

lemma status_path_starts_new: "status_path s ss \<Longrightarrow> last ss = PENDING_NEW"
proof (induction rule: status_path.induct)
  case (start s)
  then show ?case by (simp add: status_step_iff validate_ok_iff)
next
  case (change s ss t)
  then show ?case using status_path_hd [OF change.hyps(1)] by simp
qed

lemma status_path_no_new_again: "status_path s ss \<Longrightarrow> PENDING_NEW \<notin> set (butlast ss)"
proof (induction rule: status_path.induct)
  case (start s)
  then show ?case by simp
next
  case (change s ss t)
  have "t \<noteq> PENDING_NEW"
    using change.hyps(2) unfolding status_step_iff validate_ok_iff by (cases s) auto
  then show ?case using change.IH status_path_hd [OF change.hyps(1)] by simp
qed

text \<open>
  The two notions of a finished order agree: the OMS decides by the absence of a table
  entry, \<open>OrderStatus.is_terminal\<close> by an enumeration of four states, and a state is terminal
  exactly when no status can be reached from it.
\<close>

theorem terminal_agreement:
  "is_terminal st = status_is_terminal st \<and>
   (is_terminal st \<longleftrightarrow> (\<forall>t. validate_transition (Some st) t = Inl InvalidStateTransition))"
proof (cases "is_terminal st")
  case True
  then show ?thesis by (cases st) (auto simp: status_is_terminal_def validate_terminal)
next
  case False
  then have "validate_transition (Some st) FILLED = Inr ()" by simp
  moreover have "is_terminal st = status_is_terminal st"
    by (cases st) (auto simp: status_is_terminal_def)
  moreover have "\<exists>t. validate_transition (Some st) t \<noteq> Inl InvalidStateTransition"
    using calculation(1) by (metis Inl_Inr_False)
  ultimately show ?thesis using False by blast
qed

text \<open>
  Along any sequence of legal changes an order starts in PENDING_NEW, never returns to it,
  and no terminal state is ever left.
\<close>

theorem status_history:
  "status_path s ss \<Longrightarrow>
     last ss = PENDING_NEW \<and> PENDING_NEW \<notin> set (butlast ss) \<and> (\<forall>t \<in> set (tl ss). \<not> is_terminal t)"
  using status_path_starts_new status_path_no_new_again status_path_tail_live by blast

theorem status_history_witness:
  "status_path CANCELLED [CANCELLED, PENDING_CANCEL, ACKNOWLEDGED, PENDING_NEW] \<and>
   \<not> is_terminal PENDING_CANCEL"
proof -
  have "status_path CANCELLED [CANCELLED, PENDING_CANCEL, ACKNOWLEDGED, PENDING_NEW]"
    by (rule change, rule change, rule change, rule start)
      (simp_all add: status_step_iff validate_transition_def)
  from this status_history [OF this] show ?thesis by simp
qed

end
