(* ===== verification/Orders.thy ===== *)
theory Orders
  imports Order_State_Machine
begin

text \<open>
  \<open>oms/order.py\<close>: the OMS's own view of one order. A method that mutates the order and may
  raise returns the order it leaves behind together with the outcome, so that a mutation made
  before the raise is kept.
\<close>

record oms_order =
  o_id :: uuid
  o_coid :: coid
  o_strategy :: strategy_id
  o_instrument :: instrument
  o_side :: side
  o_type :: order_type
  o_quantity :: dec
  o_price :: "dec option"
  o_tif :: time_in_force
  o_created :: timestamp
  o_status :: order_status
  o_exchange_id :: "string option"
  o_cumulative :: dec
  o_average :: dec
  o_last_update :: timestamp
  o_reject_reason :: "string option"
  o_parent_leg :: "string option"
  o_applied :: "uuid set"
  o_pending_amend :: "(dec option \<times> dec) option"

definition leaves_quantity :: "oms_order \<Rightarrow> dec" where
  "leaves_quantity o1 = dsub (o_quantity o1) (o_cumulative o1)"

definition order_is_terminal :: "oms_order \<Rightarrow> bool" where
  "order_is_terminal o1 = is_terminal (o_status o1)"

definition is_child :: "oms_order \<Rightarrow> bool" where
  "is_child o1 \<longleftrightarrow> o_parent_leg o1 \<noteq> None"

definition transition_to :: "order_status \<Rightarrow> timestamp \<Rightarrow> oms_order \<Rightarrow> py_error + oms_order" where
  "transition_to st at_ns o1 =
     (case validate_transition (Some (o_status o1)) st of
        Inl e \<Rightarrow> Inl e
      | Inr _ \<Rightarrow> Inr (o1\<lparr>o_status := st, o_last_update := at_ns\<rparr>))"

definition record_fill :: "fill_event \<Rightarrow> oms_order \<Rightarrow> oms_order \<times> bool" where
  "record_fill f o1 =
     (if fl_fill_id f \<in> o_applied o1 then (o1, False)
      else
        let o2 = o1\<lparr>o_applied := insert (fl_fill_id f) (o_applied o1)\<rparr>;
            prior_qty = o_cumulative o2;
            new_qty = dadd prior_qty (fl_quantity f);
            o3 = (if 0 < new_qty
                  then o2\<lparr>o_average :=
                         ddiv (dadd (dmul (o_average o2) prior_qty)
                                    (dmul (fl_price f) (fl_quantity f))) new_qty\<rparr>
                  else o2)
        in (o3\<lparr>o_cumulative := new_qty\<rparr>, True))"

definition apply_fill :: "fill_event \<Rightarrow> oms_order \<Rightarrow> oms_order \<times> (py_error + bool)" where
  "apply_fill f o1 =
     (case record_fill f o1 of
        (o2, False) \<Rightarrow> (o2, Inr False)
      | (o2, True) \<Rightarrow>
          (case transition_to (if leaves_quantity o2 = 0 then FILLED else PARTIALLY_FILLED)
                  (ts_event f) o2 of
             Inl e \<Rightarrow> (o2, Inl e)
           | Inr o3 \<Rightarrow> (o3, Inr True)))"

subsection \<open>What a mutation leaves alone\<close>

text \<open>The part of an order that is fixed when it is placed.\<close>

definition order_static :: "oms_order \<Rightarrow> uuid \<times> coid \<times> strategy_id \<times> instrument \<times> side \<times> timestamp" where
  "order_static o1 = (o_id o1, o_coid o1, o_strategy o1, o_instrument o1, o_side o1, o_created o1)"

lemma transition_to_ok:
  "transition_to st t o1 = Inr o2 \<longleftrightarrow>
     validate_transition (Some (o_status o1)) st = Inr () \<and> o2 = o1\<lparr>o_status := st, o_last_update := t\<rparr>"
  by (auto simp: transition_to_def split: sum.splits)

lemma transition_to_err:
  "transition_to st t o1 = Inl e \<longleftrightarrow>
     validate_transition (Some (o_status o1)) st = Inl InvalidStateTransition \<and> e = InvalidStateTransition"
  using validate_cases [of "Some (o_status o1)" st] by (auto simp: transition_to_def split: sum.splits)

lemma transition_to_static: "transition_to st t o1 = Inr o2 \<Longrightarrow> order_static o2 = order_static o1"
  by (auto simp: transition_to_ok order_static_def)

lemma transition_terminal: "order_is_terminal o1 \<Longrightarrow> transition_to st t o1 = Inl InvalidStateTransition"
  by (simp add: order_is_terminal_def transition_to_def validate_terminal)

lemma record_fill_status [simp]:
  "o_status (fst (record_fill f o1)) = o_status o1"
  "o_quantity (fst (record_fill f o1)) = o_quantity o1"
  "o_price (fst (record_fill f o1)) = o_price o1"
  "o_pending_amend (fst (record_fill f o1)) = o_pending_amend o1"
  "o_parent_leg (fst (record_fill f o1)) = o_parent_leg o1"
  "o_id (fst (record_fill f o1)) = o_id o1"
  "o_coid (fst (record_fill f o1)) = o_coid o1"
  "o_strategy (fst (record_fill f o1)) = o_strategy o1"
  "o_instrument (fst (record_fill f o1)) = o_instrument o1"
  "o_side (fst (record_fill f o1)) = o_side o1"
  "o_type (fst (record_fill f o1)) = o_type o1"
  "o_created (fst (record_fill f o1)) = o_created o1"
  by (simp_all add: record_fill_def Let_def)

lemma record_fill_applied [simp]:
  "o_applied (fst (record_fill f o1)) = insert (fl_fill_id f) (o_applied o1)"
  by (auto simp: record_fill_def Let_def)

lemma record_fill_snd [simp]: "snd (record_fill f o1) \<longleftrightarrow> fl_fill_id f \<notin> o_applied o1"
  by (simp add: record_fill_def Let_def)

lemma record_fill_cumulative:
  "o_cumulative (fst (record_fill f o1)) =
     (if fl_fill_id f \<in> o_applied o1 then o_cumulative o1 else dadd (o_cumulative o1) (fl_quantity f))"
  by (simp add: record_fill_def Let_def)

lemma record_fill_dup: "fl_fill_id f \<in> o_applied o1 \<Longrightarrow> record_fill f o1 = (o1, False)"
  by (simp add: record_fill_def)

lemma apply_fill_unfold:
  "apply_fill f o1 =
     (let o2 = fst (record_fill f o1);
          st = if leaves_quantity o2 = 0 then FILLED else PARTIALLY_FILLED
      in if fl_fill_id f \<in> o_applied o1 then (o1, Inr False)
         else if order_is_terminal o1 then (o2, Inl InvalidStateTransition)
         else (o2\<lparr>o_status := st, o_last_update := ts_event f\<rparr>, Inr True))"
proof (cases "fl_fill_id f \<in> o_applied o1")
  case True
  then show ?thesis by (simp add: apply_fill_def record_fill_dup)
next
  case False
  obtain o2 where o2: "record_fill f o1 = (o2, True)"
    using False record_fill_snd [of f o1] by (cases "record_fill f o1") auto
  then have "o_status o2 = o_status o1" using record_fill_status(1) [of f o1] by simp
  with False o2 show ?thesis
    by (simp add: apply_fill_def order_is_terminal_def transition_to_def validate_terminal)
qed

lemma apply_fill_static: "order_static (fst (apply_fill f o1)) = order_static o1"
  by (auto simp: apply_fill_unfold Let_def order_static_def)

lemma record_fill_static: "order_static (fst (record_fill f o1)) = order_static o1"
  by (simp add: order_static_def)

lemma apply_fill_applied [simp]:
  "o_applied (fst (apply_fill f o1)) = insert (fl_fill_id f) (o_applied o1)"
  by (auto simp: apply_fill_unfold Let_def)

lemma apply_fill_cumulative [simp]:
  "o_cumulative (fst (apply_fill f o1)) = o_cumulative (fst (record_fill f o1))"
  by (auto simp: apply_fill_unfold Let_def record_fill_cumulative)

lemma apply_fill_quantity [simp]: "o_quantity (fst (apply_fill f o1)) = o_quantity o1"
  by (auto simp: apply_fill_unfold Let_def)

subsection \<open>A sequence of fills\<close>

definition apply_fills :: "fill_event list \<Rightarrow> oms_order \<Rightarrow> oms_order" where
  "apply_fills fs o1 = fold (\<lambda>f o2. fst (apply_fill f o2)) fs o1"

text \<open>The fills that count: the first with each id, and none whose id was seen before.\<close>

fun fresh_fills :: "uuid set \<Rightarrow> fill_event list \<Rightarrow> fill_event list" where
  "fresh_fills seen [] = []"
| "fresh_fills seen (f # fs) =
     (if fl_fill_id f \<in> seen then fresh_fills seen fs
      else f # fresh_fills (insert (fl_fill_id f) seen) fs)"

lemma fresh_fills_distinct: "distinct (map fl_fill_id (fresh_fills seen fs)) \<and>
    fl_fill_id ` set (fresh_fills seen fs) = fl_fill_id ` set fs - seen"
proof (induction fs arbitrary: seen)
  case Nil
  then show ?case by simp
next
  case (Cons f fs)
  show ?case using Cons.IH [of seen] Cons.IH [of "insert (fl_fill_id f) seen"] by auto
qed

lemma fresh_fills_subset: "set (fresh_fills seen fs) \<subseteq> set fs"
  by (induction fs arbitrary: seen) (fastforce split: if_splits)+

lemma apply_fills_cumulative:
  "o_cumulative (apply_fills fs o1) =
     foldl dadd (o_cumulative o1) (map fl_quantity (fresh_fills (o_applied o1) fs))"
proof (induction fs arbitrary: o1)
  case Nil
  then show ?case by (simp add: apply_fills_def)
next
  case (Cons f fs)
  have "o_cumulative (apply_fills (f # fs) o1) = o_cumulative (apply_fills fs (fst (apply_fill f o1)))"
    by (simp add: apply_fills_def)
  then show ?case
    using Cons.IH [of "fst (apply_fill f o1)"]
    by (simp add: record_fill_cumulative insert_absorb)
qed

lemma apply_fills_quantity [simp]: "o_quantity (apply_fills fs o1) = o_quantity o1"
  by (induction fs arbitrary: o1) (simp_all add: apply_fills_def)

lemma apply_fills_applied [simp]: "o_applied (apply_fills fs o1) = fl_fill_id ` set fs \<union> o_applied o1"
  by (induction fs arbitrary: o1) (auto simp: apply_fills_def)

text \<open>Sample data for the instances of the theorems.\<close>

definition sample_instrument :: instrument where
  "sample_instrument =
     \<lparr>i_symbol = ''BTCUSDT'', i_exchange = ''BINANCE'', i_asset_type = AT_SPOT, i_base = ''BTC'',
      i_quote = ''USDT'', i_tick_size = 1, i_lot_size = 1, i_min_notional = Some 10,
      i_multiplier = 1\<rparr>"

definition sample_order :: "order_status \<Rightarrow> dec \<Rightarrow> oms_order" where
  "sample_order st q =
     \<lparr>o_id = 7, o_coid = ''mm-000000000007'', o_strategy = ''mm'', o_instrument = sample_instrument,
      o_side = BUY, o_type = OT_LIMIT, o_quantity = q, o_price = Some 100, o_tif = TIF_GTC,
      o_created = 0, o_status = st, o_exchange_id = None, o_cumulative = 0, o_average = 0,
      o_last_update = 0, o_reject_reason = None, o_parent_leg = None, o_applied = {},
      o_pending_amend = None\<rparr>"

definition sample_fill :: "uuid \<Rightarrow> dec \<Rightarrow> dec \<Rightarrow> fill_event" where
  "sample_fill i p q =
     \<lparr>ts_event = 5, ts_ingest = 5, source = ''gw'', fl_fill_id = i, fl_order_id = 7,
      fl_coid = ''mm-000000000007'', fl_exchange_id = None, fl_strategy = ''mm'',
      fl_instrument = sample_instrument, fl_side = BUY, fl_price = p, fl_quantity = q,
      fl_cumulative = q, fl_leaves = 0, fl_fee = 0, fl_fee_currency = ''USDT'',
      fl_is_maker = None\<rparr>"

subsection \<open>Properties\<close>

text \<open>
  Applying a fill to a live order never raises; a new fill leaves the order FILLED exactly
  when its leaves quantity is zero and PARTIALLY_FILLED otherwise, and a fill already seen
  changes nothing.
\<close>

theorem apply_fill_live:
  assumes "\<not> order_is_terminal o1"
  shows "(fl_fill_id f \<in> o_applied o1 \<longrightarrow> apply_fill f o1 = (o1, Inr False)) \<and>
         (fl_fill_id f \<notin> o_applied o1 \<longrightarrow>
            snd (apply_fill f o1) = Inr True \<and>
            o_status (fst (apply_fill f o1)) =
              (if leaves_quantity (fst (apply_fill f o1)) = 0 then FILLED else PARTIALLY_FILLED) \<and>
            o_cumulative (fst (apply_fill f o1)) = dadd (o_cumulative o1) (fl_quantity f) \<and>
            o_last_update (fst (apply_fill f o1)) = ts_event f)"
  using assms by (simp add: apply_fill_unfold Let_def leaves_quantity_def record_fill_cumulative)

theorem apply_fill_live_witness:
  "o_status (fst (apply_fill (sample_fill 1 100 3) (sample_order PENDING_CANCEL 3))) = FILLED \<and>
   o_status (fst (apply_fill (sample_fill 1 100 2) (sample_order PENDING_CANCEL 3))) = PARTIALLY_FILLED"
  using apply_fill_live [of "sample_order PENDING_CANCEL 3" "sample_fill 1 100 3"]
    apply_fill_live [of "sample_order PENDING_CANCEL 3" "sample_fill 1 100 2"]
  by (simp add: order_is_terminal_def sample_order_def sample_fill_def leaves_quantity_def
      record_fill_cumulative dec_ops)

text \<open>
  A fill that arrives after the order is finished is still counted, and the order keeps its
  terminal status: the fill is recorded, the status change is refused, and delivering the same
  fill again changes nothing.
\<close>

theorem apply_fill_terminal:
  assumes "order_is_terminal o1" and "fl_fill_id f \<notin> o_applied o1"
  shows "snd (apply_fill f o1) = Inl InvalidStateTransition \<and>
         o_status (fst (apply_fill f o1)) = o_status o1 \<and>
         o_cumulative (fst (apply_fill f o1)) = dadd (o_cumulative o1) (fl_quantity f) \<and>
         apply_fill f (fst (apply_fill f o1)) = (fst (apply_fill f o1), Inr False)"
proof -
  have "fl_fill_id f \<in> o_applied (fst (apply_fill f o1))" by simp
  then have "apply_fill f (fst (apply_fill f o1)) = (fst (apply_fill f o1), Inr False)"
    by (simp only: apply_fill_def record_fill_dup) simp
  then show ?thesis using assms by (simp add: apply_fill_unfold Let_def record_fill_cumulative)
qed

theorem apply_fill_terminal_witness:
  "o_status (fst (apply_fill (sample_fill 1 100 3) (sample_order CANCELLED 3))) = CANCELLED \<and>
   o_cumulative (fst (apply_fill (sample_fill 1 100 3) (sample_order CANCELLED 3))) = 3"
  using apply_fill_terminal [of "sample_order CANCELLED 3" "sample_fill 1 100 3"]
  by (simp add: order_is_terminal_def sample_order_def sample_fill_def dec_ops)

text \<open>
  C22: whatever the order in which fills arrive and however often each is repeated, an order's
  filled quantity is the sum of the quantities of its distinct fills (with at most \<open>k\<close> digits
  after the point and no more than 28 in all).
\<close>

theorem fills_counted_once:
  assumes "o_applied o1 = {}" and "o_cumulative o1 = 0"
    and "\<forall>f \<in> set fs. dgrid k (fl_quantity f)"
    and "(\<Sum>f\<leftarrow>fresh_fills {} fs. \<bar>fl_quantity f\<bar>) * 10 ^ k \<le> 10 ^ 28"
  shows "o_cumulative (apply_fills fs o1) = (\<Sum>f\<leftarrow>fresh_fills {} fs. fl_quantity f) \<and>
         distinct (map fl_fill_id (fresh_fills {} fs)) \<and>
         fl_fill_id ` set (fresh_fills {} fs) = fl_fill_id ` set fs"
proof -
  have "\<forall>x \<in> set (map fl_quantity (fresh_fills {} fs)). dgrid k x"
    using assms(3) fresh_fills_subset [of "{}" fs] by auto
  moreover have "sum_list (map abs (map fl_quantity (fresh_fills {} fs))) * 10 ^ k \<le> 10 ^ 28"
    using assms(4) by (simp add: comp_def)
  ultimately have "foldl dadd 0 (map fl_quantity (fresh_fills {} fs)) =
      (\<Sum>f\<leftarrow>fresh_fills {} fs. fl_quantity f)"
    using foldl_dadd_exact [of _ k 0] by simp
  then show ?thesis
    using assms(1,2) fresh_fills_distinct [of "{}" fs] by (simp add: apply_fills_cumulative)
qed

theorem fills_counted_once_witness:
  "o_cumulative (apply_fills [sample_fill 1 100 3, sample_fill 2 101 4, sample_fill 1 100 3]
      (sample_order ACKNOWLEDGED 10)) = 7"
  using fills_counted_once [of "sample_order ACKNOWLEDGED 10"
      "[sample_fill 1 100 3, sample_fill 2 101 4, sample_fill 1 100 3]" 0]
  by (simp add: sample_order_def sample_fill_def)

text \<open>
  The average fill price after a fill lies between the old average and the price of the
  fill (where the products and their sum need at most 28 digits), so an order's average is
  never outside the range of the prices it traded at.
\<close>

theorem average_between:
  assumes "0 < o_cumulative o1" and "0 < fl_quantity f" and "fl_fill_id f \<notin> o_applied o1"
    and "dfits k (o_cumulative o1 + fl_quantity f)"
    and "dfits k (o_average o1 * o_cumulative o1)" and "dfits k (fl_price f * fl_quantity f)"
    and "dfits k (o_average o1 * o_cumulative o1 + fl_price f * fl_quantity f)"
    and "rnd (o_average o1) = o_average o1" and "rnd (fl_price f) = fl_price f"
  shows "min (o_average o1) (fl_price f) \<le> o_average (fst (record_fill f o1)) \<and>
         o_average (fst (record_fill f o1)) \<le> max (o_average o1) (fl_price f)"
proof -
  let ?q = "o_cumulative o1 + fl_quantity f"
  let ?x = "(o_average o1 * o_cumulative o1 + fl_price f * fl_quantity f) / ?q"
  let ?lo = "min (o_average o1) (fl_price f)" and ?hi = "max (o_average o1) (fl_price f)"
  have q: "0 < ?q" using assms(1,2) by simp
  have "o_average (fst (record_fill f o1)) = rnd ?x"
    using assms(3) q
    by (simp add: record_fill_def Let_def dadd_exact [OF assms(4)] dmul_exact [OF assms(5)]
        dmul_exact [OF assms(6)] dadd_exact [OF assms(7)] ddiv_def)
  moreover have "?lo * ?q \<le> o_average o1 * o_cumulative o1 + fl_price f * fl_quantity f"
    unfolding distrib_left by (intro add_mono mult_right_mono) (use assms(1,2) in auto)
  then have "rnd ?lo \<le> rnd ?x" using q by (intro rnd_mono) (simp add: pos_le_divide_eq)
  moreover have "o_average o1 * o_cumulative o1 + fl_price f * fl_quantity f \<le> ?hi * ?q"
    unfolding distrib_left by (intro add_mono mult_right_mono) (use assms(1,2) in auto)
  then have "rnd ?x \<le> rnd ?hi" using q by (intro rnd_mono) (simp add: pos_divide_le_eq)
  moreover have "rnd ?lo = ?lo" "rnd ?hi = ?hi" using assms(8,9) by (simp_all add: min_def max_def)
  ultimately show ?thesis by simp
qed

theorem average_between_witness:
  "let o1 = (sample_order ACKNOWLEDGED 10)\<lparr>o_cumulative := 3, o_average := 100\<rparr>
   in o_average (fst (record_fill (sample_fill 2 200 1) o1)) \<le> 200"
  using average_between [of "(sample_order ACKNOWLEDGED 10)\<lparr>o_cumulative := 3, o_average := 100\<rparr>"
      "sample_fill 2 200 1" 0]
  by (simp add: sample_order_def sample_fill_def dfits_def)

end
