(* ===== verification/Exec_Algos.thy ===== *)
theory Exec_Algos
  imports Core_Types
begin

text \<open>
  \<open>oms/execution_algos\<close>: the three algorithms that decide when and how much of a parent order
  to send (\<open>ImmediateAlgo\<close>, \<open>TWAPAlgo\<close>, \<open>VWAPAlgo\<close>). The polymorphic \<open>ExecutionAlgo\<close> of the
  code is the datatype \<open>exec_algo\<close>. Durations are given in seconds as exact rationals where the
  code has floats; a VWAP profile is given by the decimals its weights print as, together with
  the decimal its float sum prints as.

  What an algorithm still has to do is a schedule: the slices left, each with the time it
  becomes due. The locale \<open>execution_algo\<close> states that polling an algorithm is popping its
  schedule, and derives once what the OMS relies on; it is interpreted for each algorithm.
\<close>

record child_spec =
  cs_quantity :: dec
  cs_type :: order_type
  cs_tif :: time_in_force
  cs_price :: "dec option"

definition ns_per_second :: int where
  "ns_per_second = 1000000000"

subsection \<open>Immediate\<close>

record immediate_algo =
  im_quantity :: dec
  im_type :: order_type
  im_tif :: time_in_force
  im_price :: "dec option"
  im_done :: bool

definition immediate_init ::
    "dec \<Rightarrow> order_type \<Rightarrow> time_in_force \<Rightarrow> dec option \<Rightarrow> immediate_algo" where
  "immediate_init q ty tif p =
     \<lparr>im_quantity = q, im_type = ty, im_tif = tif, im_price = p, im_done = False\<rparr>"

definition immediate_next_slice ::
    "timestamp \<Rightarrow> immediate_algo \<Rightarrow> child_spec option \<times> immediate_algo" where
  "immediate_next_slice now a =
     (if im_done a then (None, a)
      else (Some \<lparr>cs_quantity = im_quantity a, cs_type = im_type a, cs_tif = im_tif a,
                  cs_price = im_price a\<rparr>,
            a\<lparr>im_done := True\<rparr>))"

definition immediate_is_done :: "immediate_algo \<Rightarrow> bool" where
  "immediate_is_done a = im_done a"

definition immediate_cancel :: "immediate_algo \<Rightarrow> immediate_algo" where
  "immediate_cancel a = a\<lparr>im_done := True\<rparr>"

subsection \<open>TWAP\<close>

record twap_algo =
  tw_quantity :: dec
  tw_num_slices :: int
  tw_interval_ns :: int
  tw_slice_qty :: dec
  tw_remainder :: dec
  tw_type :: order_type
  tw_tif :: time_in_force
  tw_price :: "dec option"
  tw_slices_sent :: int
  tw_start_ns :: timestamp
  tw_cancelled :: bool

definition twap_init ::
    "dec \<Rightarrow> rat \<Rightarrow> int \<Rightarrow> timestamp \<Rightarrow> order_type \<Rightarrow> time_in_force \<Rightarrow> dec option \<Rightarrow>
     py_error + twap_algo" where
  "twap_init q duration n start ty tif p =
     (if n \<le> 0 then Inl ConfigError
      else if duration \<le> 0 then Inl ConfigError
      else if q \<le> 0 then Inl ConfigError
      else
        let slice = ddiv q (of_int n);
            sent_total = dmul slice (of_int (n - 1))
        in Inr \<lparr>tw_quantity = q, tw_num_slices = n,
                tw_interval_ns = trunc (duration * of_int ns_per_second) div n,
                tw_slice_qty = slice, tw_remainder = dsub q sent_total,
                tw_type = ty, tw_tif = tif, tw_price = p,
                tw_slices_sent = 0, tw_start_ns = start, tw_cancelled = False\<rparr>)"

definition twap_next_slice :: "timestamp \<Rightarrow> twap_algo \<Rightarrow> child_spec option \<times> twap_algo" where
  "twap_next_slice now a =
     (if tw_cancelled a \<or> tw_num_slices a \<le> tw_slices_sent a then (None, a)
      else
        let target = tw_start_ns a + tw_slices_sent a * tw_interval_ns a in
        if now < target then (None, a)
        else
          let is_last = (tw_slices_sent a = tw_num_slices a - 1);
              qty = (if is_last then tw_remainder a else tw_slice_qty a)
          in (Some \<lparr>cs_quantity = qty, cs_type = tw_type a, cs_tif = tw_tif a,
                    cs_price = tw_price a\<rparr>,
              a\<lparr>tw_slices_sent := tw_slices_sent a + 1\<rparr>))"

definition twap_is_done :: "twap_algo \<Rightarrow> bool" where
  "twap_is_done a \<longleftrightarrow> tw_cancelled a \<or> tw_num_slices a \<le> tw_slices_sent a"

definition twap_cancel :: "twap_algo \<Rightarrow> twap_algo" where
  "twap_cancel a = a\<lparr>tw_cancelled := True\<rparr>"

subsection \<open>VWAP\<close>

record vwap_algo =
  vw_bucket_qtys :: "dec list"
  vw_interval_ns :: int
  vw_start_ns :: timestamp
  vw_buckets_sent :: nat
  vw_type :: order_type
  vw_tif :: time_in_force
  vw_price :: "dec option"
  vw_cancelled :: bool

definition vwap_init ::
    "dec \<Rightarrow> rat \<Rightarrow> dec list \<Rightarrow> dec \<Rightarrow> timestamp \<Rightarrow> order_type \<Rightarrow> time_in_force \<Rightarrow> dec option \<Rightarrow>
     py_error + vwap_algo" where
  "vwap_init q duration profile total_weight start ty tif p =
     (if q \<le> 0 then Inl ConfigError
      else if duration \<le> 0 then Inl ConfigError
      else if profile = [] then Inl ConfigError
      else if list_ex (\<lambda>w. w < 0) profile then Inl ConfigError
      else if total_weight \<le> 0 then Inl ConfigError
      else
        let normalized = map (\<lambda>w. ddiv w total_weight) profile;
            bucket_qtys = map (\<lambda>w. dmul q w) (butlast normalized);
            sent_so_far = foldl dadd 0 bucket_qtys
        in Inr \<lparr>vw_bucket_qtys = bucket_qtys @ [dsub q sent_so_far],
                vw_interval_ns = trunc (duration * of_int ns_per_second) div int (length profile),
                vw_start_ns = start, vw_buckets_sent = 0, vw_type = ty, vw_tif = tif,
                vw_price = p, vw_cancelled = False\<rparr>)"

function vwap_next_slice :: "timestamp \<Rightarrow> vwap_algo \<Rightarrow> child_spec option \<times> vwap_algo" where
  "vwap_next_slice now a =
     (if vw_cancelled a \<or> length (vw_bucket_qtys a) \<le> vw_buckets_sent a then (None, a)
      else
        if now < vw_start_ns a + int (vw_buckets_sent a) * vw_interval_ns a then (None, a)
        else if vw_bucket_qtys a ! vw_buckets_sent a = 0
          then vwap_next_slice now (a\<lparr>vw_buckets_sent := vw_buckets_sent a + 1\<rparr>)
          else (Some \<lparr>cs_quantity = vw_bucket_qtys a ! vw_buckets_sent a, cs_type = vw_type a,
                      cs_tif = vw_tif a, cs_price = vw_price a\<rparr>,
                a\<lparr>vw_buckets_sent := vw_buckets_sent a + 1\<rparr>))"
  by pat_completeness auto

termination
  by (relation "measure (\<lambda>(now, a). length (vw_bucket_qtys a) - vw_buckets_sent a)") auto

declare vwap_next_slice.simps [simp del]

definition vwap_is_done :: "vwap_algo \<Rightarrow> bool" where
  "vwap_is_done a \<longleftrightarrow> vw_cancelled a \<or> length (vw_bucket_qtys a) \<le> vw_buckets_sent a"

definition vwap_cancel :: "vwap_algo \<Rightarrow> vwap_algo" where
  "vwap_cancel a = a\<lparr>vw_cancelled := True\<rparr>"

subsection \<open>Any algorithm\<close>

datatype exec_algo = Immediate immediate_algo | TWAP twap_algo | VWAP vwap_algo

fun next_slice :: "timestamp \<Rightarrow> exec_algo \<Rightarrow> child_spec option \<times> exec_algo" where
  "next_slice now (Immediate a) = map_prod id Immediate (immediate_next_slice now a)"
| "next_slice now (TWAP a) = map_prod id TWAP (twap_next_slice now a)"
| "next_slice now (VWAP a) = map_prod id VWAP (vwap_next_slice now a)"

fun is_done :: "exec_algo \<Rightarrow> bool" where
  "is_done (Immediate a) = immediate_is_done a"
| "is_done (TWAP a) = twap_is_done a"
| "is_done (VWAP a) = vwap_is_done a"

fun algo_cancel :: "exec_algo \<Rightarrow> exec_algo" where
  "algo_cancel (Immediate a) = Immediate (immediate_cancel a)"
| "algo_cancel (TWAP a) = TWAP (twap_cancel a)"
| "algo_cancel (VWAP a) = VWAP (vwap_cancel a)"

text \<open>\<open>on_fill\<close> and \<open>on_tick\<close> are the no-ops of the base class; no algorithm overrides them.\<close>

definition algo_on_fill :: "fill_event \<Rightarrow> exec_algo \<Rightarrow> exec_algo" where
  "algo_on_fill f a = a"

fun algo_name :: "exec_algo \<Rightarrow> string" where
  "algo_name (Immediate a) = ''ImmediateAlgo''"
| "algo_name (TWAP a) = ''TWAPAlgo''"
| "algo_name (VWAP a) = ''VWAPAlgo''"

subsection \<open>Schedules\<close>

text \<open>A slice is due at a time, or at once.\<close>

type_synonym schedule = "(timestamp option \<times> dec) list"

fun due :: "timestamp \<Rightarrow> timestamp option \<Rightarrow> bool" where
  "due t None = True"
| "due t (Some d) = (d \<le> t)"

fun sched_next :: "bool \<Rightarrow> timestamp \<Rightarrow> schedule \<Rightarrow> dec option \<times> schedule" where
  "sched_next skip t [] = (None, [])"
| "sched_next skip t ((d, q) # sc) =
     (if \<not> due t d then (None, (d, q) # sc)
      else if skip \<and> q = 0 then sched_next skip t sc
      else (Some q, sc))"

definition sched_total :: "schedule \<Rightarrow> rat" where
  "sched_total sc = sum_list (map snd sc)"

lemma sched_total_simps [simp]:
  "sched_total [] = 0" "sched_total ((d, q) # sc) = q + sched_total sc"
  "sched_total (sc @ sd) = sched_total sc + sched_total sd"
  by (simp_all add: sched_total_def)

lemma sched_next_total:
  "sched_next skip t sc = (r, sd) \<Longrightarrow> (case r of None \<Rightarrow> 0 | Some q \<Rightarrow> q) + sched_total sd = sched_total sc"
  by (induction skip t sc rule: sched_next.induct) (auto split: if_splits)

lemma sched_next_suffix: "sched_next skip t sc = (r, sd) \<Longrightarrow> \<exists>pre. sc = pre @ sd \<and> (\<forall>(d, q) \<in> set pre. due t d)"
proof (induction skip t sc arbitrary: r sd rule: sched_next.induct)
  case (1 skip t)
  then show ?case by simp
next
  case (2 skip t d q sc)
  show ?case
  proof (cases "due t d \<and> skip \<and> q = 0")
    case True
    with "2.IH" "2.prems" obtain pre where "sc = pre @ sd" "\<forall>(d, q) \<in> set pre. due t d" by auto
    with True show ?thesis by (intro exI [of _ "(d, q) # pre"]) auto
  next
    case False
    with "2.prems" show ?thesis
      by (cases "due t d") (auto intro: exI [of _ "[]"] exI [of _ "[(d, q)]"])
  qed
qed

lemma sched_next_shrinks:
  "sc \<noteq> [] \<Longrightarrow> \<forall>(d, q) \<in> set sc. due t d \<Longrightarrow> length (snd (sched_next skip t sc)) < length sc"
proof (induction sc)
  case Nil
  then show ?case by simp
next
  case (Cons e sc)
  then show ?case by (cases e; cases "sc = []") (auto simp: less_Suc_eq)
qed

lemma sched_next_emits_due: "sched_next skip t sc = (Some q, sd) \<Longrightarrow> \<exists>d. (d, q) \<in> set sc \<and> due t d"
  by (induction skip t sc rule: sched_next.induct) (auto split: if_splits)

locale execution_algo =
  fixes nxt :: "timestamp \<Rightarrow> 'a \<Rightarrow> child_spec option \<times> 'a"
    and fin :: "'a \<Rightarrow> bool"
    and cancel :: "'a \<Rightarrow> 'a"
    and skip :: "'a \<Rightarrow> bool"
    and abs :: "'a \<Rightarrow> schedule"
  assumes nxt_abs: "map_prod (map_option cs_quantity) abs (nxt t a) = sched_next (skip a) t (abs a)"
    and fin_abs: "fin a \<longleftrightarrow> abs a = []"
    and cancel_abs: "abs (cancel a) = []"
begin

text \<open>Polling at a sequence of times, collecting the slices sent.\<close>

fun drive :: "timestamp list \<Rightarrow> 'a \<Rightarrow> dec list \<times> 'a" where
  "drive [] a = ([], a)"
| "drive (t # ts) a =
     (case nxt t a of (r, b) \<Rightarrow>
        (case drive ts b of (qs, c) \<Rightarrow>
           (case r of None \<Rightarrow> (qs, c) | Some s \<Rightarrow> (cs_quantity s # qs, c))))"

lemma nxt_total:
  "nxt t a = (r, b) \<Longrightarrow> (case r of None \<Rightarrow> 0 | Some s \<Rightarrow> cs_quantity s) + sched_total (abs b) = sched_total (abs a)"
  using nxt_abs [of t a] sched_next_total [of "skip a" t "abs a" "map_option cs_quantity r" "abs b"]
  by (cases r) auto

lemma drive_total: "drive ts a = (qs, b) \<Longrightarrow> sum_list qs + sched_total (abs b) = sched_total (abs a)"
proof (induction ts arbitrary: a qs b)
  case Nil
  then show ?case by simp
next
  case (Cons t ts)
  obtain r c where r: "nxt t a = (r, c)" by fastforce
  obtain qs' d where d: "drive ts c = (qs', d)" by fastforce
  show ?case using Cons.prems Cons.IH [OF d] nxt_total [OF r] r d by (cases r) auto
qed

lemma drive_done_total: "drive ts a = (qs, b) \<Longrightarrow> fin b \<Longrightarrow> sum_list qs = sched_total (abs a)"
  using drive_total [of ts a qs b] by (simp add: fin_abs)

lemma nxt_suffix: "nxt t a = (r, b) \<Longrightarrow> \<exists>pre. abs a = pre @ abs b \<and> (\<forall>(d, q) \<in> set pre. due t d)"
  using nxt_abs [of t a] sched_next_suffix [of "skip a" t "abs a" "map_option cs_quantity r" "abs b"]
  by auto

lemma drive_finishes:
  "length (abs a) \<le> length ts \<Longrightarrow> \<forall>t \<in> set ts. \<forall>(d, q) \<in> set (abs a). due t d \<Longrightarrow>
   fin (snd (drive ts a))"
proof (induction ts arbitrary: a)
  case Nil
  then show ?case by (simp add: fin_abs)
next
  case (Cons t ts)
  obtain r b where r: "nxt t a = (r, b)" by fastforce
  have "snd (sched_next (skip a) t (abs a)) = abs b" using nxt_abs [of t a] r by (cases "sched_next (skip a) t (abs a)") auto
  then have "length (abs b) < length (abs a) \<or> abs a = []"
    using sched_next_shrinks [of "abs a" t "skip a"] Cons.prems by auto
  moreover obtain pre where pre: "abs a = pre @ abs b" using nxt_suffix [OF r] by blast
  ultimately have "length (abs b) \<le> length ts" using Cons.prems(1) by (cases pre) auto
  moreover have "\<forall>t \<in> set ts. \<forall>(d, q) \<in> set (abs b). due t d" using Cons.prems(2) pre by auto
  ultimately have "fin (snd (drive ts b))" by (rule Cons.IH)
  then show ?case using r by (simp split: prod.splits option.splits) auto
qed

lemma nxt_done: "fin a \<Longrightarrow> nxt t a = (r, b) \<Longrightarrow> r = None \<and> fin b"
  using nxt_abs [of t a] by (auto simp: fin_abs)

lemma drive_after_cancel: "drive ts (cancel a) = (qs, b) \<Longrightarrow> qs = []"
proof -
  have "fin c \<Longrightarrow> drive ts c = (qs, b) \<Longrightarrow> qs = []" for c
  proof (induction ts arbitrary: c)
    case Nil
    then show ?case by simp
  next
    case (Cons t ts)
    obtain r d where r: "nxt t c = (r, d)" by fastforce
    then have "r = None" "fin d" using nxt_done [OF Cons.prems(1)] by auto
    then show ?case using Cons.IH [of d] Cons.prems(2) r by (auto split: prod.splits)
  qed
  then show "drive ts (cancel a) = (qs, b) \<Longrightarrow> qs = []" using fin_abs cancel_abs by blast
qed

end


subsection \<open>The schedule of each algorithm\<close>

definition immediate_schedule :: "immediate_algo \<Rightarrow> schedule" where
  "immediate_schedule a = (if im_done a then [] else [(None, im_quantity a)])"

definition twap_schedule :: "twap_algo \<Rightarrow> schedule" where
  "twap_schedule a =
     (if tw_cancelled a then []
      else map (\<lambda>i. (Some (tw_start_ns a + i * tw_interval_ns a),
                     if i = tw_num_slices a - 1 then tw_remainder a else tw_slice_qty a))
             [tw_slices_sent a .. tw_num_slices a - 1])"

definition vwap_schedule :: "vwap_algo \<Rightarrow> schedule" where
  "vwap_schedule a =
     (if vw_cancelled a then []
      else map (\<lambda>i. (Some (vw_start_ns a + int i * vw_interval_ns a), vw_bucket_qtys a ! i))
             [vw_buckets_sent a ..< length (vw_bucket_qtys a)])"

fun algo_schedule :: "exec_algo \<Rightarrow> schedule" where
  "algo_schedule (Immediate a) = immediate_schedule a"
| "algo_schedule (TWAP a) = twap_schedule a"
| "algo_schedule (VWAP a) = vwap_schedule a"

fun algo_skips :: "exec_algo \<Rightarrow> bool" where
  "algo_skips (VWAP a) = True"
| "algo_skips _ = False"

lemma immediate_refines:
  "map_prod (map_option cs_quantity) immediate_schedule (immediate_next_slice t a) =
   sched_next False t (immediate_schedule a)"
  by (simp add: immediate_next_slice_def immediate_schedule_def)

lemma twap_refines:
  "map_prod (map_option cs_quantity) twap_schedule (twap_next_slice t a) =
   sched_next False t (twap_schedule a)"
proof (cases "tw_cancelled a \<or> tw_num_slices a \<le> tw_slices_sent a")
  case True
  then show ?thesis by (auto simp: twap_next_slice_def twap_schedule_def)
next
  case False
  then have "[tw_slices_sent a .. tw_num_slices a - 1] =
      tw_slices_sent a # [tw_slices_sent a + 1 .. tw_num_slices a - 1]"
    by (simp add: upto_rec1)
  with False show ?thesis by (auto simp: twap_next_slice_def twap_schedule_def Let_def)
qed

lemma vwap_refines:
  "map_prod (map_option cs_quantity) vwap_schedule (vwap_next_slice t a) =
   sched_next True t (vwap_schedule a)"
proof (induction t a rule: vwap_next_slice.induct)
  case (1 now a)
  show ?case
  proof (cases "vw_cancelled a \<or> length (vw_bucket_qtys a) \<le> vw_buckets_sent a")
    case True
    then show ?thesis by (auto simp: vwap_next_slice.simps [of now a] vwap_schedule_def)
  next
    case False
    then have "[vw_buckets_sent a ..< length (vw_bucket_qtys a)] =
        vw_buckets_sent a # [Suc (vw_buckets_sent a) ..< length (vw_bucket_qtys a)]"
      by (simp add: upt_conv_Cons)
    with False "1.IH" show ?thesis
      by (auto simp: vwap_next_slice.simps [of now a] vwap_schedule_def)
  qed
qed

lemma algo_refines:
  "map_prod (map_option cs_quantity) algo_schedule (next_slice t a) =
   sched_next (algo_skips a) t (algo_schedule a)"
proof (cases a)
  case (Immediate b)
  then show ?thesis using immediate_refines [of t b] by (cases "immediate_next_slice t b") simp
next
  case (TWAP b)
  then show ?thesis using twap_refines [of t b] by (cases "twap_next_slice t b") simp
next
  case (VWAP b)
  then show ?thesis using vwap_refines [of t b] by (cases "vwap_next_slice t b") simp
qed

lemma algo_done_iff: "is_done a \<longleftrightarrow> algo_schedule a = []"
  by (cases a) (auto simp: immediate_is_done_def immediate_schedule_def twap_is_done_def
      twap_schedule_def vwap_is_done_def vwap_schedule_def)

lemma algo_cancel_schedule: "algo_schedule (algo_cancel a) = []"
  by (cases a) (simp_all add: immediate_cancel_def immediate_schedule_def twap_cancel_def
      twap_schedule_def vwap_cancel_def vwap_schedule_def)

interpretation algo: execution_algo next_slice is_done algo_cancel algo_skips algo_schedule
  by unfold_locales (rule algo_refines algo_done_iff algo_cancel_schedule)+

subsection \<open>Properties\<close>

text \<open>The rounding of the TWAP arithmetic, as a relative error of the total.\<close>

lemma twap_total_error:
  assumes "0 < q" "1 \<le> n"
  defines "slice \<equiv> ddiv q (of_int n)"
  shows "\<bar>of_int (n - 1) * slice + dsub q (dmul slice (of_int (n - 1))) - q\<bar> * 10 ^ 27 \<le> 2 * q"
proof -
  define m where "m = (of_int (n - 1) :: rat)"
  define sent where "sent = dmul slice m"
  have n: "of_int n = m + 1" "0 \<le> m" using assms(2) by (auto simp: m_def)
  have s: "\<bar>slice - q / (m + 1)\<bar> * (2 * 10 ^ 27) \<le> q / (m + 1)"
    using rnd_error [of "q / (m + 1)"] assms(1) n by (simp add: slice_def ddiv_def)
  have s0: "0 \<le> slice" using assms(1) n by (simp add: slice_def ddiv_def)
  have "slice * (2 * 10 ^ 27) \<le> r * (2 * 10 ^ 27 + 1)" if "\<bar>slice - r\<bar> * (2 * 10 ^ 27) \<le> r" for r
    using that by (auto simp: abs_if algebra_simps split: if_splits)
  from this [OF s] have "slice * (2 * 10 ^ 27) \<le> q / (m + 1) * (2 * 10 ^ 27 + 1)" .
  then have "m * (slice * (2 * 10 ^ 27)) \<le> m * (q / (m + 1) * (2 * 10 ^ 27 + 1))"
    using n(2) by (rule mult_left_mono)
  also have "m * (q / (m + 1) * (2 * 10 ^ 27 + 1)) \<le> q * (2 * 10 ^ 27 + 1)"
  proof -
    have "m * (q / (m + 1)) \<le> q" using n(2) assms(1) by (simp add: field_simps)
    then have "m * (q / (m + 1)) * (2 * 10 ^ 27 + 1) \<le> q * (2 * 10 ^ 27 + 1)"
      by (rule mult_right_mono) simp
    then show ?thesis by (simp only: mult.assoc)
  qed
  finally have ms: "m * slice * (2 * 10 ^ 27) \<le> q * (2 * 10 ^ 27 + 1)" by (simp only: mult.assoc)
  have ms0: "0 \<le> m * slice" using n(2) s0 by simp
  have e1: "\<bar>sent - m * slice\<bar> * (2 * 10 ^ 27) \<le> m * slice"
    using rnd_error [of "slice * m"] ms0 by (simp add: sent_def dmul_def mult.commute)
  have e2: "\<bar>dsub q sent - (q - sent)\<bar> * (2 * 10 ^ 27) \<le> \<bar>q - sent\<bar>"
    using rnd_error [of "q - sent"] by (simp add: dsub_def)
  have sent0: "0 \<le> sent" using ms0 by (simp add: sent_def dmul_def mult.commute)
  have "m * slice + dsub q sent - q = (dsub q sent - (q - sent)) - (sent - m * slice)" by simp
  then have "\<bar>m * slice + dsub q sent - q\<bar> \<le> \<bar>dsub q sent - (q - sent)\<bar> + \<bar>sent - m * slice\<bar>"
    using abs_triangle_ineq4 [of "dsub q sent - (q - sent)" "sent - m * slice"] by simp
  moreover have "\<bar>q - sent\<bar> \<le> q"
  proof -
    have "sent \<le> 2 * q" if "\<bar>sent - x\<bar> * (2 * 10 ^ 27) \<le> x" "x * (2 * 10 ^ 27) \<le> q * (2 * 10 ^ 27 + 1)" for x
      using that assms(1) by (auto simp: abs_if split: if_splits)
    from this [OF e1 ms] sent0 show ?thesis by (simp add: abs_le_iff)
  qed
  ultimately show ?thesis using e1 e2 ms assms(1) unfolding m_def [symmetric] sent_def [symmetric]
    by simp
qed

lemma twap_init_ok:
  assumes "twap_init q dur n start ty tif p = Inr a"
  shows "0 < q" "1 \<le> n" "0 \<le> tw_interval_ns a" "tw_num_slices a = n" "tw_start_ns a = start"
    "twap_schedule a =
       map (\<lambda>i. (Some (start + i * tw_interval_ns a), ddiv q (of_int n))) [0 .. n - 2] @
       [(Some (start + (n - 1) * tw_interval_ns a),
         dsub q (dmul (ddiv q (of_int n)) (of_int (n - 1))))]"
proof -
  have c: "0 < n" "0 < dur" "0 < q"
    using assms by (auto simp: twap_init_def split: if_splits)
  have a: "a = \<lparr>tw_quantity = q, tw_num_slices = n,
      tw_interval_ns = trunc (dur * of_int ns_per_second) div n,
      tw_slice_qty = ddiv q (of_int n),
      tw_remainder = dsub q (dmul (ddiv q (of_int n)) (of_int (n - 1))),
      tw_type = ty, tw_tif = tif, tw_price = p, tw_slices_sent = 0, tw_start_ns = start,
      tw_cancelled = False\<rparr>"
    using assms c by (simp add: twap_init_def Let_def)
  show "0 < q" "1 \<le> n" using c by auto
  show "tw_num_slices a = n" "tw_start_ns a = start" using a by simp_all
  have "0 \<le> trunc (dur * of_int ns_per_second)" using c by (simp add: trunc_def ns_per_second_def)
  then show "0 \<le> tw_interval_ns a" using a c by (simp add: pos_imp_zdiv_nonneg_iff)
  have "[0 .. n - 1] = [0 .. n - 2] @ [n - 1]"
    using c upto_rec2 [of 0 "n - 1"] by simp
  then show "twap_schedule a =
       map (\<lambda>i. (Some (start + i * tw_interval_ns a), ddiv q (of_int n))) [0 .. n - 2] @
       [(Some (start + (n - 1) * tw_interval_ns a),
         dsub q (dmul (ddiv q (of_int n)) (of_int (n - 1))))]"
    using a c by (auto simp: twap_schedule_def)
qed

lemma sched_total_const: "sched_total (map (\<lambda>i. (f i, q)) xs) = of_nat (length xs) * q"
  by (induction xs) (simp_all add: distrib_right)

text \<open>
  A TWAP parent that is polled as often as it has slices once its last slice is due sends
  everything: the algorithm is done, it sends at most one slice per poll, and the slices add up
  to the parent quantity up to a relative rounding error of \<open>2 / 10 ^ 27\<close>.
\<close>

theorem twap_sends_parent:
  assumes "twap_init q dur n start ty tif p = Inr a"
    and "nat n \<le> length ts" and "\<forall>t \<in> set ts. start + (n - 1) * tw_interval_ns a \<le> t"
    and "algo.drive ts (TWAP a) = (qs, b)"
  shows "is_done b \<and> \<bar>sum_list qs - q\<bar> * 10 ^ 27 \<le> 2 * q"
proof -
  note ini = twap_init_ok [OF assms(1)]
  have len: "length (twap_schedule a) = nat n" using ini(2) unfolding ini(6) by simp
  have mono: "start + i * tw_interval_ns a \<le> t" if "i \<le> n - 1" "t \<in> set ts" for i t
  proof -
    have "i * tw_interval_ns a \<le> (n - 1) * tw_interval_ns a"
      using that(1) ini(3) by (rule mult_right_mono)
    with assms(3) that(2) show ?thesis by fastforce
  qed
  have "\<forall>t \<in> set ts. \<forall>e \<in> set (twap_schedule a). due t (fst e)"
    unfolding ini(6) by (auto intro: mono)
  then have "is_done b"
    using algo.drive_finishes [of "TWAP a" ts] assms(2,4) len by (simp add: case_prod_beta)
  moreover from this have "sum_list qs = sched_total (twap_schedule a)"
    using algo.drive_done_total [OF assms(4)] by simp
  then have "sum_list qs = of_int (n - 1) * ddiv q (of_int n) +
      dsub q (dmul (ddiv q (of_int n)) (of_int (n - 1)))"
    using ini(2) unfolding ini(6) by (simp add: sched_total_const)
  ultimately show ?thesis using twap_total_error [OF ini(1,2)] by simp
qed


theorem twap_sends_parent_witness:
  "case twap_init 10 60 4 0 OT_LIMIT TIF_GTC (Some 100) of
     Inr a \<Rightarrow> is_done (snd (algo.drive [45000000000, 45000000000, 46000000000, 50000000000] (TWAP a)))
   | Inl e \<Rightarrow> False"
proof -
  obtain a where a: "twap_init 10 60 4 0 OT_LIMIT TIF_GTC (Some 100) = Inr a" "tw_interval_ns a = 15000000000"
    by (simp add: twap_init_def Let_def trunc_def ns_per_second_def)
  obtain qs b where d: "algo.drive [45000000000, 45000000000, 46000000000, 50000000000] (TWAP a) = (qs, b)"
    by fastforce
  show ?thesis using twap_sends_parent [OF a(1) _ _ d] a d by simp
qed

text \<open>
  A VWAP parent is split exactly: the bucket quantities add up to the parent quantity (where
  the shares have at most \<open>k\<close> digits after the point), there is one bucket per weight, bucket
  \<open>i\<close> is due \<open>i\<close> intervals after the start, and every way of polling the algorithm until it is
  done sends exactly the parent quantity, skipping the empty buckets.
\<close>

theorem vwap_sends_parent:
  assumes "vwap_init q dur profile w start ty tif p = Inr a"
    and "dgrid k q" and "\<forall>x \<in> set (butlast profile). dgrid k (dmul q (ddiv x w))"
    and "(q + (\<Sum>x\<leftarrow>butlast profile. \<bar>dmul q (ddiv x w)\<bar>)) * 10 ^ k \<le> 10 ^ 28"
  shows "sched_total (vwap_schedule a) = q \<and> length (vwap_schedule a) = length profile \<and>
         (\<forall>i < length profile. fst (vwap_schedule a ! i) = Some (start + int i * vw_interval_ns a)) \<and>
         (\<forall>ts qs b. algo.drive ts (VWAP a) = (qs, b) \<and> is_done b \<longrightarrow> sum_list qs = q)"
proof -
  let ?xs = "map (\<lambda>x. dmul q (ddiv x w)) (butlast profile)"
  have c: "0 < q" "profile \<noteq> []" using assms(1) by (auto simp: vwap_init_def split: if_splits)
  have "map (\<lambda>v. dmul q v) (butlast (map (\<lambda>v. ddiv v w) profile)) = ?xs"
    by (simp add: map_butlast [symmetric] comp_def)
  then have a: "vw_bucket_qtys a = ?xs @ [dsub q (foldl dadd 0 ?xs)]" "vw_start_ns a = start"
      "vw_buckets_sent a = 0" "\<not> vw_cancelled a"
    using assms(1) by (auto simp: vwap_init_def Let_def split: if_splits)
  have len: "length (vw_bucket_qtys a) = length profile" using c by (simp add: a)
  have abs: "sum_list (map abs ?xs) = (\<Sum>x\<leftarrow>butlast profile. \<bar>dmul q (ddiv x w)\<bar>)"
    by (simp add: comp_def)
  have "sum_list (map abs ?xs) * 10 ^ k \<le> (q + sum_list (map abs ?xs)) * 10 ^ k"
    using c by (intro mult_right_mono) auto
  also have "\<dots> \<le> 10 ^ 28" using assms(4) unfolding abs .
  finally have "(\<bar>0\<bar> + sum_list (map abs ?xs)) * 10 ^ k \<le> 10 ^ 28" by simp
  from foldl_dadd_exact [OF _ _ this] have s: "foldl dadd 0 ?xs = sum_list ?xs"
    using assms(3) by simp
  have "\<bar>sum_list ?xs\<bar> \<le> sum_list (map abs ?xs)" by (rule sum_list_abs)
  then have "\<bar>q - sum_list ?xs\<bar> \<le> q + sum_list (map abs ?xs)" using c by linarith
  moreover have "dgrid k (q - sum_list ?xs)"
    using assms(2,3) by (intro dgrid_diff dgrid_sum_list) auto
  ultimately have "dfits k (q - sum_list ?xs)" using assms(4) unfolding abs [symmetric] by (intro dfitsI)
  then have "sum_list (vw_bucket_qtys a) = q" by (simp add: a s dsub_exact)
  moreover have sch: "vwap_schedule a =
      map (\<lambda>i. (Some (start + int i * vw_interval_ns a), vw_bucket_qtys a ! i)) [0 ..< length profile]"
    using a(2-4) len by (simp add: vwap_schedule_def)
  have "map snd (vwap_schedule a) = vw_bucket_qtys a"
    unfolding sch using map_nth [of "vw_bucket_qtys a"] len by (simp add: comp_def)
  then have "sched_total (vwap_schedule a) = sum_list (vw_bucket_qtys a)"
    by (simp add: sched_total_def)
  ultimately have "sched_total (vwap_schedule a) = q" by simp
  then show ?thesis using algo.drive_done_total [of _ "VWAP a"] sch by auto
qed

theorem vwap_sends_parent_witness:
  "case vwap_init 100 60 [1, 0, 1] 2 0 OT_LIMIT TIF_GTC None of
     Inr a \<Rightarrow> sched_total (vwap_schedule a) = 100 | Inl e \<Rightarrow> False"
proof -
  have h: "rnd (1 / 2) = 1 / 2"
    by (rule rnd_exact [of 1]) (simp add: dfits_def dgrid_def)
  obtain a where a: "vwap_init 100 60 [1, 0, 1] 2 0 OT_LIMIT TIF_GTC None = Inr a"
    by (simp add: vwap_init_def Let_def)
  show ?thesis using vwap_sends_parent [OF a, of 0] a by (simp add: dec_ops h)
qed

text \<open>
  A cancelled algorithm never sends again, and at every moment what any algorithm has sent
  and what is left of its schedule add up to what it started with: no slice is lost, repeated
  or resized, however it is polled.
\<close>

theorem algo_conserves:
  "(\<forall>ts qs b. algo.drive ts a = (qs, b) \<longrightarrow>
      sum_list qs + sched_total (algo_schedule b) = sched_total (algo_schedule a)) \<and>
   (\<forall>ts. fst (algo.drive ts (algo_cancel a)) = []) \<and> is_done (algo_cancel a)"
proof -
  have "fst (algo.drive ts (algo_cancel a)) = []" for ts
    using algo.drive_after_cancel [of ts a] by (cases "algo.drive ts (algo_cancel a)") simp
  then show ?thesis using algo.drive_total algo.fin_abs algo.cancel_abs by blast
qed

theorem algo_conserves_witness:
  "is_done (algo_cancel (Immediate (immediate_init 5 OT_MARKET TIF_IOC None)))"
  using algo_conserves [of "Immediate (immediate_init 5 OT_MARKET TIF_IOC None)"] by blast

end
