(* ===== verification/Router.thy ===== *)
theory Router
  imports Exec_Algos
begin

text \<open>
  \<open>oms/router.py\<close>: \<open>DefaultExecutionRouter\<close>, which turns a leg's intent and the market
  context into an execution algorithm, or into nothing when the leg is placed in one piece. The
  free-text reason of a decision is an enumeration of the places that give it.
\<close>

record routing_context =
  rc_now_ns :: timestamp
  rc_instrument :: instrument
  rc_last_mark :: "dec option"

datatype route_reason =
    PassiveInPlace | UrgentSingleClip | UrgentFastTwap | NormalNoReference
  | NormalBelowThreshold | NormalTwap

record routing_decision =
  rdn_algo :: "exec_algo option"
  rdn_reason :: route_reason

definition decision_algo_name :: "routing_decision \<Rightarrow> string" where
  "decision_algo_name d = (case rdn_algo d of Some a \<Rightarrow> algo_name a | None \<Rightarrow> ''immediate'')"

record router =
  rt_slice_threshold :: dec
  rt_max_single :: dec
  rt_twap_slices :: int
  rt_twap_seconds :: rat
  rt_urgent_twap_seconds :: rat

definition default_router :: router where
  "default_router =
     \<lparr>rt_slice_threshold = 25000, rt_max_single = 50000, rt_twap_slices = 5,
      rt_twap_seconds = 60, rt_urgent_twap_seconds = 5\<rparr>"

definition route_notional :: "order_leg \<Rightarrow> routing_context \<Rightarrow> dec option" where
  "route_notional leg ctx =
     (case (if leg_price leg \<noteq> None then leg_price leg else rc_last_mark ctx) of
        None \<Rightarrow> None
      | Some ref \<Rightarrow> if ref \<le> 0 then None else Some (dmul ref (leg_quantity leg)))"

definition make_twap :: "router \<Rightarrow> order_leg \<Rightarrow> routing_context \<Rightarrow> rat \<Rightarrow> py_error + twap_algo" where
  "make_twap r leg ctx seconds =
     twap_init (leg_quantity leg) seconds (rt_twap_slices r) (rc_now_ns ctx)
       (leg_type leg) (leg_tif leg) (leg_price leg)"

definition decide_twap ::
    "router \<Rightarrow> order_leg \<Rightarrow> routing_context \<Rightarrow> rat \<Rightarrow> route_reason \<Rightarrow> py_error + routing_decision" where
  "decide_twap r leg ctx seconds why =
     (case make_twap r leg ctx seconds of
        Inl e \<Rightarrow> Inl e
      | Inr a \<Rightarrow> Inr \<lparr>rdn_algo = Some (TWAP a), rdn_reason = why\<rparr>)"

definition route :: "router \<Rightarrow> order_leg \<Rightarrow> routing_context \<Rightarrow> py_error + routing_decision" where
  "route r leg ctx =
     (if leg_intent leg = PASSIVE then Inr \<lparr>rdn_algo = None, rdn_reason = PassiveInPlace\<rparr>
      else
        let notional = route_notional leg ctx in
        if leg_intent leg = URGENT then
          (case notional of
             None \<Rightarrow> Inr \<lparr>rdn_algo = None, rdn_reason = UrgentSingleClip\<rparr>
           | Some n \<Rightarrow>
               if n \<le> rt_max_single r then Inr \<lparr>rdn_algo = None, rdn_reason = UrgentSingleClip\<rparr>
               else decide_twap r leg ctx (rt_urgent_twap_seconds r) UrgentFastTwap)
        else
          (case notional of
             None \<Rightarrow> Inr \<lparr>rdn_algo = None, rdn_reason = NormalNoReference\<rparr>
           | Some n \<Rightarrow>
               if n \<le> rt_slice_threshold r
               then Inr \<lparr>rdn_algo = None, rdn_reason = NormalBelowThreshold\<rparr>
               else decide_twap r leg ctx (rt_twap_seconds r) NormalTwap))"

definition router_ok :: "router \<Rightarrow> bool" where
  "router_ok r \<longleftrightarrow> 0 \<le> rt_slice_threshold r \<and> 0 \<le> rt_max_single r \<and> 0 < rt_twap_slices r \<and>
     0 < rt_twap_seconds r \<and> 0 < rt_urgent_twap_seconds r"

lemma route_notional_pos:
  "route_notional leg ctx = Some n \<Longrightarrow> 0 < n \<Longrightarrow> 0 < leg_quantity leg"
  by (auto simp: route_notional_def dmul_def zero_less_mult_iff split: option.splits if_splits)

lemma make_twap_ok:
  "router_ok r \<Longrightarrow> 0 < leg_quantity leg \<Longrightarrow> 0 < s \<Longrightarrow> \<exists>a. make_twap r leg ctx s = Inr a"
  by (auto simp: make_twap_def twap_init_def router_ok_def Let_def)

lemma route_passive: "leg_intent leg = PASSIVE \<Longrightarrow> route r leg ctx = Inr \<lparr>rdn_algo = None, rdn_reason = PassiveInPlace\<rparr>"
  by (simp add: route_def)

lemma decide_twap_ok:
  assumes "router_ok r" and "route_notional leg ctx = Some n" and "0 < n" and "0 < s"
  shows "\<exists>a. decide_twap r leg ctx s why = Inr \<lparr>rdn_algo = Some (TWAP a), rdn_reason = why\<rparr> \<and>
             make_twap r leg ctx s = Inr a"
proof -
  obtain a where "make_twap r leg ctx s = Inr a"
    using make_twap_ok [OF assms(1) route_notional_pos [OF assms(2,3)] assms(4)] by blast
  then show ?thesis by (simp add: decide_twap_def)
qed

lemma route_sliced:
  assumes "route r leg ctx = Inr d" and "rdn_algo d = Some a"
  shows "leg_intent leg \<noteq> PASSIVE \<and>
         (\<exists>tw n. a = TWAP tw \<and> route_notional leg ctx = Some n \<and>
            (if leg_intent leg = URGENT
             then rt_max_single r < n \<and> make_twap r leg ctx (rt_urgent_twap_seconds r) = Inr tw
             else rt_slice_threshold r < n \<and> make_twap r leg ctx (rt_twap_seconds r) = Inr tw))"
  using assms
  by (auto simp: route_def decide_twap_def Let_def split: if_splits option.splits sum.splits)

lemma route_total: "router_ok r \<Longrightarrow> \<exists>d. route r leg ctx = Inr d"
  using decide_twap_ok [of r leg ctx]
  by (auto simp: route_def Let_def router_ok_def split: option.splits)
     (metis less_le_trans not_le order_le_less_trans)+

text \<open>
  With a valid configuration the router never raises, and it slices a leg exactly when the
  leg is not passive, has a positive price or mark to be sized against, and its notional is over
  the limit of its intent; the algorithm is then a TWAP over the whole leg that starts now.
\<close>

theorem route_slices_iff:
  assumes "router_ok r"
  shows "\<exists>d. route r leg ctx = Inr d \<and>
    (rdn_algo d \<noteq> None \<longleftrightarrow>
       leg_intent leg \<noteq> PASSIVE \<and>
       (\<exists>n. route_notional leg ctx = Some n \<and>
            (if leg_intent leg = URGENT then rt_max_single r else rt_slice_threshold r) < n)) \<and>
    (\<forall>a. rdn_algo d = Some a \<longrightarrow>
       (\<exists>tw. a = TWAP tw \<and> tw_quantity tw = leg_quantity leg \<and> tw_start_ns tw = rc_now_ns ctx \<and>
             tw_slices_sent tw = 0))"
proof -
  obtain d where d: "route r leg ctx = Inr d" using route_total [OF assms] by blast
  have tw: "tw_quantity tw = leg_quantity leg \<and> tw_start_ns tw = rc_now_ns ctx \<and> tw_slices_sent tw = 0"
    if "make_twap r leg ctx s = Inr tw" for tw s
    using that by (auto simp: make_twap_def twap_init_def Let_def split: if_splits)
  have "rdn_algo d = None \<longrightarrow> leg_intent leg = PASSIVE \<or> route_notional leg ctx = None \<or>
      (\<exists>n. route_notional leg ctx = Some n \<and>
           n \<le> (if leg_intent leg = URGENT then rt_max_single r else rt_slice_threshold r))"
    using d by (auto simp: route_def decide_twap_def Let_def split: if_splits option.splits sum.splits)
  then show ?thesis using d route_sliced [OF d] tw
    by (intro exI [of _ d]) (fastforce split: if_splits)
qed

definition sample_leg :: "execution_intent \<Rightarrow> dec \<Rightarrow> order_leg" where
  "sample_leg i q =
     \<lparr>leg_id = ''bid'', leg_side = BUY, leg_quantity = q, leg_price = Some 100,
      leg_type = OT_LIMIT, leg_tif = TIF_GTC, leg_intent = i\<rparr>"

theorem route_slices_iff_witness:
  "case route default_router (sample_leg NORMAL 300)
       \<lparr>rc_now_ns = 0, rc_instrument = undefined, rc_last_mark = None\<rparr> of
     Inr d \<Rightarrow> rdn_algo d \<noteq> None | Inl e \<Rightarrow> False"
proof -
  have "router_ok default_router" by (simp add: router_ok_def default_router_def)
  from route_slices_iff [OF this, of "sample_leg NORMAL 300"
      "\<lparr>rc_now_ns = 0, rc_instrument = undefined, rc_last_mark = None\<rparr>"]
  show ?thesis
    by (auto simp: sample_leg_def route_notional_def default_router_def dmul_def)
qed

end
