(* ===== verification/Event_Bus.thy ===== *)
theory Event_Bus
  imports Core_Types
begin

text \<open>
  \<open>event_bus/asyncio_bus.py\<close>: the production bus. Every subscription owns a bounded queue; a
  publication puts the event on the queue of each subscriber of its topic in turn and stops with
  \<open>BackpressureError\<close> at the first full one. A consumer takes the events of its own queue one
  at a time; what a handler raises is caught, so a step of a consumer is the removal of the head
  of its queue. \<open>publish\<close>, \<open>subscribe\<close> and \<open>start\<close> contain no suspension point and are atomic;
  \<open>stop\<close> suspends while it waits for room for its sentinel and is the sequence of steps
  \<open>stop_begin\<close>, \<open>put_shutdown\<close> (one per consumer) and \<open>stop_end\<close>.
\<close>

datatype queue_item = Event event | Shutdown

record subscription =
  sb_name :: string
  sb_queue :: "queue_item list"
  sb_task :: bool

record async_bus =
  ab_queue_size :: int
  ab_subscribers :: "(topic, subscription list) dict"
  ab_running :: bool
  ab_stopped :: bool

definition bus_init :: "int \<Rightarrow> py_error + async_bus" where
  "bus_init queue_size =
     (if queue_size \<le> 0 then Inl ValueError
      else Inr \<lparr>ab_queue_size = queue_size, ab_subscribers = [], ab_running = False,
                ab_stopped = False\<rparr>)"

definition topic_subs :: "topic \<Rightarrow> async_bus \<Rightarrow> subscription list" where
  "topic_subs t b = (case dget (ab_subscribers b) t of None \<Rightarrow> [] | Some subs \<Rightarrow> subs)"

text \<open>\<open>put_nowait\<close> on each subscriber in turn; the flag tells whether all had room.\<close>

fun put_all :: "int \<Rightarrow> event \<Rightarrow> subscription list \<Rightarrow> subscription list \<times> bool" where
  "put_all n e [] = ([], True)"
| "put_all n e (sub # subs) =
     (if n \<le> int (length (sb_queue sub)) then (sub # subs, False)
      else
        let (subs', ok) = put_all n e subs
        in (sub\<lparr>sb_queue := sb_queue sub @ [Event e]\<rparr> # subs', ok))"

definition publish :: "topic \<Rightarrow> event \<Rightarrow> async_bus \<Rightarrow> async_bus \<times> (py_error + unit)" where
  "publish t e b =
     (if ab_stopped b then (b, Inl BusStopped)
      else
        case dget (ab_subscribers b) t of
          None \<Rightarrow> (b, Inr ())
        | Some subs \<Rightarrow>
            (case put_all (ab_queue_size b) e subs of
               (subs', ok) \<Rightarrow>
                 (b\<lparr>ab_subscribers := dset t subs' (ab_subscribers b)\<rparr>,
                  if ok then Inr () else Inl Backpressure)))"

definition subscribe :: "topic \<Rightarrow> string \<Rightarrow> async_bus \<Rightarrow> py_error + async_bus" where
  "subscribe t name b =
     (if ab_stopped b then Inl BusStopped
      else Inr (b\<lparr>ab_subscribers :=
             dset t (topic_subs t b @ [\<lparr>sb_name = name, sb_queue = [], sb_task = ab_running b\<rparr>])
               (ab_subscribers b)\<rparr>))"

fun subscribe_many :: "topic list \<Rightarrow> string \<Rightarrow> async_bus \<Rightarrow> async_bus \<times> (py_error + unit)" where
  "subscribe_many [] name b = (b, Inr ())"
| "subscribe_many (t # ts) name b =
     (case subscribe t name b of Inl e \<Rightarrow> (b, Inl e) | Inr b' \<Rightarrow> subscribe_many ts name b')"

definition bus_start :: "async_bus \<Rightarrow> async_bus" where
  "bus_start b =
     (if ab_running b \<or> ab_stopped b then b
      else b\<lparr>ab_running := True,
             ab_subscribers := map (map_prod id (map (sb_task_update (\<lambda>_. True)))) (ab_subscribers b)\<rparr>)"

definition stop_begin :: "async_bus \<Rightarrow> async_bus" where
  "stop_begin b = (if ab_stopped b then b else b\<lparr>ab_stopped := True, ab_running := False\<rparr>)"

definition upd_sub :: "topic \<Rightarrow> nat \<Rightarrow> (subscription \<Rightarrow> subscription) \<Rightarrow> async_bus \<Rightarrow> async_bus" where
  "upd_sub t i f b =
     b\<lparr>ab_subscribers := dmod t (\<lambda>subs. if i < length subs then subs[i := f (subs ! i)] else subs)
          (ab_subscribers b)\<rparr>"

text \<open>\<open>await sub.queue.put(_SHUTDOWN)\<close>: completes once the queue has room, and only for a live consumer.\<close>

definition put_shutdown :: "topic \<Rightarrow> nat \<Rightarrow> async_bus \<Rightarrow> async_bus option" where
  "put_shutdown t i b =
     (if i < length (topic_subs t b) \<and> sb_task (topic_subs t b ! i) \<and>
         int (length (sb_queue (topic_subs t b ! i))) < ab_queue_size b
      then Some (upd_sub t i (\<lambda>s. s\<lparr>sb_queue := sb_queue s @ [Shutdown]\<rparr>) b)
      else None)"

definition stop_end :: "async_bus \<Rightarrow> async_bus" where
  "stop_end b = b\<lparr>ab_subscribers := []\<rparr>"

text \<open>One turn of a consumer's loop: the event it hands to its handler, if it takes one.\<close>

definition consume :: "topic \<Rightarrow> nat \<Rightarrow> async_bus \<Rightarrow> async_bus \<times> event option" where
  "consume t i b =
     (if i < length (topic_subs t b) \<and> sb_task (topic_subs t b ! i) then
        (case sb_queue (topic_subs t b ! i) of
           [] \<Rightarrow> (b, None)
         | Shutdown # q \<Rightarrow> (upd_sub t i (\<lambda>s. s\<lparr>sb_queue := q, sb_task := False\<rparr>) b, None)
         | Event e # q \<Rightarrow> (upd_sub t i (\<lambda>s. s\<lparr>sb_queue := q\<rparr>) b, Some e))
      else (b, None))"

definition queue_depth :: "topic \<Rightarrow> async_bus \<Rightarrow> nat list" where
  "queue_depth t b = map (\<lambda>s. length (sb_queue s)) (topic_subs t b)"

definition subscriber_count :: "topic \<Rightarrow> async_bus \<Rightarrow> nat" where
  "subscriber_count t b = length (topic_subs t b)"

subsection \<open>What one publication does\<close>

lemma put_all_length [simp]: "length (fst (put_all n e subs)) = length subs"
  by (induction subs) (auto split: prod.splits)

lemma put_all_bound:
  "\<forall>s \<in> set subs. int (length (sb_queue s)) \<le> n \<Longrightarrow>
   \<forall>s \<in> set (fst (put_all n e subs)). int (length (sb_queue s)) \<le> n"
  by (induction subs) (auto split: prod.splits)

lemma put_all_ok_iff:
  "snd (put_all n e subs) \<longleftrightarrow> (\<forall>s \<in> set subs. int (length (sb_queue s)) < n)"
  by (induction subs) (auto split: prod.splits)

lemma put_all_ok:
  "snd (put_all n e subs) \<Longrightarrow>
   fst (put_all n e subs) = map (\<lambda>s. s\<lparr>sb_queue := sb_queue s @ [Event e]\<rparr>) subs"
  by (induction subs) (auto split: prod.splits if_splits)

lemma put_all_nth:
  "i < length subs \<Longrightarrow>
   fst (put_all n e subs) ! i =
     (if \<forall>j \<le> i. int (length (sb_queue (subs ! j))) < n
      then (subs ! i)\<lparr>sb_queue := sb_queue (subs ! i) @ [Event e]\<rparr> else subs ! i)"
proof (induction subs arbitrary: i)
  case Nil
  then show ?case by simp
next
  case (Cons s subs)
  show ?case
  proof (cases i)
    case 0
    then show ?thesis by (auto split: prod.splits)
  next
    case (Suc k)
    have "(\<forall>j \<le> Suc k. int (length (sb_queue ((s # subs) ! j))) < n) \<longleftrightarrow>
        int (length (sb_queue s)) < n \<and> (\<forall>j \<le> k. int (length (sb_queue (subs ! j))) < n)"
      by (simp add: all_le_Suc_iff)
    then show ?thesis using Suc Cons by (auto split: prod.splits)
  qed
qed

lemma topic_subs_dset: "topic_subs u (b\<lparr>ab_subscribers := dset t subs (ab_subscribers b)\<rparr>) =
    (if u = t then subs else topic_subs u b)"
  by (auto simp: topic_subs_def)

lemma publish_subs:
  "topic_subs u (fst (publish t e b)) =
     (if ab_stopped b \<or> u \<noteq> t then topic_subs u b
      else fst (put_all (ab_queue_size b) e (topic_subs t b)))"
  by (auto simp: publish_def topic_subs_dset topic_subs_def split: option.splits prod.splits)

lemma publish_result:
  "snd (publish t e b) =
     (if ab_stopped b then Inl BusStopped
      else if \<forall>s \<in> set (topic_subs t b). int (length (sb_queue s)) < ab_queue_size b then Inr ()
      else Inl Backpressure)"
proof (cases "ab_stopped b")
  case True
  then show ?thesis by (simp add: publish_def)
next
  case False
  then show ?thesis using put_all_ok_iff [of "ab_queue_size b" e "topic_subs t b"]
    by (auto simp: publish_def topic_subs_def split: option.splits prod.splits)
qed

lemma publish_flags [simp]:
  "ab_stopped (fst (publish t e b)) = ab_stopped b"
  "ab_running (fst (publish t e b)) = ab_running b"
  "ab_queue_size (fst (publish t e b)) = ab_queue_size b"
  by (auto simp: publish_def split: option.splits prod.splits)


subsection \<open>Histories of a running bus\<close>

datatype bus_op = Publish topic event | Consume topic nat

fun bus_step :: "bus_op \<Rightarrow> async_bus \<Rightarrow> async_bus" where
  "bus_step (Publish t e) b = fst (publish t e b)"
| "bus_step (Consume t i) b = fst (consume t i b)"

text \<open>What a step hands to consumer \<open>i\<close> of topic \<open>t\<close>, and what that consumer takes in it.\<close>

fun lane_in :: "topic \<Rightarrow> nat \<Rightarrow> bus_op \<Rightarrow> async_bus \<Rightarrow> event list" where
  "lane_in t i (Publish u e) b =
     (if u = t \<and> \<not> ab_stopped b \<and>
         (\<forall>j \<le> i. int (length (sb_queue (topic_subs t b ! j))) < ab_queue_size b) then [e] else [])"
| "lane_in t i (Consume u j) b = []"

fun lane_out :: "topic \<Rightarrow> nat \<Rightarrow> bus_op \<Rightarrow> async_bus \<Rightarrow> event list" where
  "lane_out t i (Publish u e) b = []"
| "lane_out t i (Consume u j) b =
     (if u = t \<and> j = i then (case snd (consume u j b) of None \<Rightarrow> [] | Some e \<Rightarrow> [e]) else [])"

fun item_event :: "queue_item \<Rightarrow> event list" where
  "item_event (Event e) = [e]"
| "item_event Shutdown = []"

definition lane :: "topic \<Rightarrow> nat \<Rightarrow> async_bus \<Rightarrow> event list" where
  "lane t i b = concat (map item_event (sb_queue (topic_subs t b ! i)))"

definition lane_live :: "topic \<Rightarrow> nat \<Rightarrow> async_bus \<Rightarrow> bool" where
  "lane_live t i b \<longleftrightarrow>
     \<not> ab_stopped b \<and> i < length (topic_subs t b) \<and> sb_task (topic_subs t b ! i) \<and>
     Shutdown \<notin> set (sb_queue (topic_subs t b ! i))"

text \<open>
  The contract of one lane of a message system: every step takes from the front what it delivers
  and adds at the back what it accepts. From it follows, for every history, that deliveries are
  the accepted messages in order, none lost and none repeated.
\<close>

locale fifo_lane =
  fixes step :: "'op \<Rightarrow> 'b \<Rightarrow> 'b"
    and inp :: "'op \<Rightarrow> 'b \<Rightarrow> 'e list"
    and outp :: "'op \<Rightarrow> 'b \<Rightarrow> 'e list"
    and content :: "'b \<Rightarrow> 'e list"
    and live :: "'b \<Rightarrow> bool"
  assumes step_content: "live b \<Longrightarrow> outp op b @ content (step op b) = content b @ inp op b"
    and step_live: "live b \<Longrightarrow> live (step op b)"
begin

fun run :: "'op list \<Rightarrow> 'b \<Rightarrow> 'b" where
  "run [] b = b"
| "run (op # ops) b = run ops (step op b)"

fun taken_in :: "'op list \<Rightarrow> 'b \<Rightarrow> 'e list" where
  "taken_in [] b = []"
| "taken_in (op # ops) b = inp op b @ taken_in ops (step op b)"

fun given_out :: "'op list \<Rightarrow> 'b \<Rightarrow> 'e list" where
  "given_out [] b = []"
| "given_out (op # ops) b = outp op b @ given_out ops (step op b)"

lemma run_live: "live b \<Longrightarrow> live (run ops b)"
  by (induction ops arbitrary: b) (auto intro: step_live)

lemma fifo: "live b \<Longrightarrow> given_out ops b @ content (run ops b) = content b @ taken_in ops b"
proof (induction ops arbitrary: b)
  case Nil
  then show ?case by simp
next
  case (Cons op ops)
  have "given_out (op # ops) b @ content (run (op # ops) b) =
      outp op b @ (given_out ops (step op b) @ content (run ops (step op b)))" by simp
  also have "\<dots> = outp op b @ (content (step op b) @ taken_in ops (step op b))"
    by (simp only: Cons.IH [OF step_live [OF Cons.prems]])
  also have "\<dots> = (outp op b @ content (step op b)) @ taken_in ops (step op b)"
    by (simp only: append.assoc)
  also have "\<dots> = (content b @ inp op b) @ taken_in ops (step op b)"
    by (simp only: step_content [OF Cons.prems])
  finally show ?case by simp
qed

lemma delivered_prefix: "live b \<Longrightarrow> content b = [] \<Longrightarrow> \<exists>rest. taken_in ops b = given_out ops b @ rest"
  using fifo [of b ops] by (metis append_Nil)

end

lemma topic_subs_upd_sub:
  "topic_subs u (upd_sub t i f b) =
     (if u = t \<and> i < length (topic_subs t b) then (topic_subs t b)[i := f (topic_subs t b ! i)]
      else topic_subs u b)"
  by (auto simp: topic_subs_def upd_sub_def split: option.splits)

lemma upd_sub_stopped [simp]: "ab_stopped (upd_sub t i f b) = ab_stopped b"
    "ab_queue_size (upd_sub t i f b) = ab_queue_size b"
  by (simp_all add: upd_sub_def)

lemma consume_other:
  "u \<noteq> t \<or> j \<noteq> i \<Longrightarrow> i < length (topic_subs t b) \<Longrightarrow>
   topic_subs t (fst (consume u j b)) ! i = topic_subs t b ! i"
  by (auto simp: consume_def topic_subs_upd_sub split: list.splits queue_item.splits)

lemma consume_flags [simp]: "ab_stopped (fst (consume u j b)) = ab_stopped b"
    "ab_queue_size (fst (consume u j b)) = ab_queue_size b"
    "length (topic_subs t (fst (consume u j b))) = length (topic_subs t b)"
  by (auto simp: consume_def topic_subs_upd_sub split: list.splits queue_item.splits)

lemma publish_length [simp]: "length (topic_subs u (fst (publish t e b))) = length (topic_subs u b)"
  by (simp add: publish_subs)

lemma lane_step:
  assumes "lane_live t i b"
  shows "lane_out t i op b @ lane t i (bus_step op b) = lane t i b @ lane_in t i op b"
proof (cases op)
  case (Publish u e)
  with assms show ?thesis
    by (auto simp: lane_live_def lane_def publish_subs put_all_nth)
next
  case (Consume u j)
  show ?thesis
  proof (cases "u = t \<and> j = i")
    case True
    with assms Consume show ?thesis
      by (auto simp: lane_live_def lane_def consume_def topic_subs_upd_sub
          split: list.splits queue_item.splits)
  next
    case False
    with assms Consume show ?thesis by (auto simp: lane_live_def lane_def consume_other)
  qed
qed

lemma lane_live_step:
  assumes "lane_live t i b"
  shows "lane_live t i (bus_step op b)"
proof (cases op)
  case (Publish u e)
  with assms show ?thesis by (auto simp: lane_live_def publish_subs put_all_nth split: if_splits)
next
  case (Consume u j)
  show ?thesis
  proof (cases "u = t \<and> j = i")
    case True
    with assms Consume show ?thesis
      by (auto simp: lane_live_def consume_def topic_subs_upd_sub
          split: list.splits queue_item.splits)
  next
    case False
    with assms Consume show ?thesis by (auto simp: lane_live_def consume_other)
  qed
qed

interpretation buslane: fifo_lane bus_step "lane_in t i" "lane_out t i" "lane t i" "lane_live t i" for t i
  by unfold_locales (rule lane_step lane_live_step, assumption)+

text \<open>No queue ever holds more than \<open>queue_size\<close> events, sentinels included.\<close>

definition bus_bounded :: "async_bus \<Rightarrow> bool" where
  "bus_bounded b \<longleftrightarrow>
     (\<forall>t. \<forall>s \<in> set (topic_subs t b). int (length (sb_queue s)) \<le> ab_queue_size b)"

lemma bounded_publish: "bus_bounded b \<Longrightarrow> bus_bounded (fst (publish t e b))"
  using put_all_bound [of "topic_subs t b" "ab_queue_size b" e]
  by (auto simp: bus_bounded_def publish_subs)

lemma bounded_upd_sub:
  "bus_bounded b \<Longrightarrow> int (length (sb_queue (f (topic_subs t b ! i)))) \<le> ab_queue_size b \<or> \<not> i < length (topic_subs t b) \<Longrightarrow>
   bus_bounded (upd_sub t i f b)"
  by (auto simp: bus_bounded_def topic_subs_upd_sub dest!: subsetD [OF set_update_subset_insert])

lemma bounded_consume: "bus_bounded b \<Longrightarrow> bus_bounded (fst (consume t i b))"
proof -
  assume b: "bus_bounded b"
  have "i < length (topic_subs t b) \<Longrightarrow>
      int (length (sb_queue (topic_subs t b ! i))) \<le> ab_queue_size b"
    using b nth_mem [of i "topic_subs t b"] unfolding bus_bounded_def by blast
  then show ?thesis using b
    by (auto simp: consume_def intro!: bounded_upd_sub split: list.splits queue_item.splits)
qed

lemma bounded_put_shutdown: "bus_bounded b \<Longrightarrow> put_shutdown t i b = Some b' \<Longrightarrow> bus_bounded b'"
  by (auto simp: put_shutdown_def intro!: bounded_upd_sub split: if_splits)

lemma bounded_run: "bus_bounded b \<Longrightarrow> bus_bounded (buslane.run ops b)"
proof (induction ops arbitrary: b)
  case Nil
  then show ?case by simp
next
  case (Cons op ops)
  then show ?case by (cases op) (auto intro: bounded_publish bounded_consume)
qed

text \<open>
  C7: on a running bus every subscriber receives exactly the events its queue accepted, in the
  order they were published, whatever the interleaving of publications and consumers and
  however slow the other subscribers are, and no queue ever exceeds its bound.
\<close>

theorem bus_fifo:
  assumes "lane_live t i b" and "lane t i b = []" and "bus_bounded b"
  shows "buslane.given_out t i ops b @ lane t i (buslane.run ops b) = buslane.taken_in t i ops b \<and>
         bus_bounded (buslane.run ops b)"
  using buslane.fifo [OF assms(1), of ops] assms(2) bounded_run [OF assms(3)] by simp

definition sample_bus :: "int \<Rightarrow> nat \<Rightarrow> async_bus" where
  "sample_bus cap n =
     \<lparr>ab_queue_size = cap,
      ab_subscribers = [(ORDERS, replicate n \<lparr>sb_name = ''h'', sb_queue = [], sb_task = True\<rparr>)],
      ab_running = True, ab_stopped = False\<rparr>"

definition sample_event :: event where
  "sample_event = EvCancelled \<lparr>ts_event = 1, ts_ingest = 1, source = ''gw'', re_order_id = 7,
     re_coid = ''mm-000000000007'', re_reason = ''''\<rparr>"

theorem bus_fifo_witness:
  "buslane.given_out ORDERS 1 [Publish ORDERS sample_event, Consume ORDERS 1] (sample_bus 1 2) =
   [sample_event]"
proof -
  have h: "lane_live ORDERS 1 (sample_bus 1 2)" "lane ORDERS 1 (sample_bus 1 2) = []"
      "bus_bounded (sample_bus 1 2)"
    by (simp_all add: lane_live_def lane_def bus_bounded_def sample_bus_def topic_subs_def)
  show ?thesis
    using bus_fifo [OF h, of "[Publish ORDERS sample_event, Consume ORDERS 1]"]
    by (simp add: sample_bus_def topic_subs_def publish_def consume_def lane_def
        upd_sub_def numeral_2_eq_2 nth_Cons' all_le_Suc_iff)
qed

text \<open>
  A publication that fails with back-pressure may still have been delivered: the subscribers
  before the first full queue have the event and the others do not, so a publisher that treats
  the failure as \<open>not sent\<close> can be wrong about every subscriber in front of the slow one.
\<close>

theorem backpressure_partial_delivery:
  assumes "\<not> ab_stopped b" and "snd (publish t e b) = Inl Backpressure"
  shows "\<exists>k < length (topic_subs t b).
    ab_queue_size b \<le> int (length (sb_queue (topic_subs t b ! k))) \<and>
    (\<forall>i < k. sb_queue (topic_subs t (fst (publish t e b)) ! i) =
             sb_queue (topic_subs t b ! i) @ [Event e]) \<and>
    (\<forall>i. k \<le> i \<and> i < length (topic_subs t b) \<longrightarrow>
         topic_subs t (fst (publish t e b)) ! i = topic_subs t b ! i)"
proof -
  let ?full = "\<lambda>k. k < length (topic_subs t b) \<and>
      ab_queue_size b \<le> int (length (sb_queue (topic_subs t b ! k)))"
  obtain s where "s \<in> set (topic_subs t b)" "\<not> int (length (sb_queue s)) < ab_queue_size b"
    using assms by (auto simp: publish_result split: if_splits)
  then have "\<exists>k. ?full k" by (auto simp: in_set_conv_nth not_less)
  then obtain k where k: "?full k" and first: "\<And>j. j < k \<Longrightarrow> \<not> ?full j"
    using exists_least_iff [of ?full] by blast
  have "sb_queue (topic_subs t (fst (publish t e b)) ! i) = sb_queue (topic_subs t b ! i) @ [Event e]"
    if "i < k" for i
  proof -
    have "\<forall>j \<le> i. int (length (sb_queue (topic_subs t b ! j))) < ab_queue_size b"
      using that k first by (meson le_less_trans less_trans not_le)
    then show ?thesis using that k assms(1) by (simp add: publish_subs put_all_nth)
  qed
  moreover have "topic_subs t (fst (publish t e b)) ! i = topic_subs t b ! i"
    if "k \<le> i" "i < length (topic_subs t b)" for i
  proof -
    have "\<not> (\<forall>j \<le> i. int (length (sb_queue (topic_subs t b ! j))) < ab_queue_size b)"
      using that k by (meson not_le)
    then show ?thesis using that assms(1) by (simp add: publish_subs put_all_nth)
  qed
  ultimately show ?thesis using k by blast
qed

theorem backpressure_partial_delivery_witness:
  "let b = fst (consume ORDERS 0 (fst (publish ORDERS sample_event (sample_bus 1 2))))
   in snd (publish ORDERS sample_event b) = Inl Backpressure \<and>
      (\<exists>k < 2. 1 \<le> length (sb_queue (topic_subs ORDERS b ! k)))"
proof -
  let ?b = "fst (consume ORDERS 0 (fst (publish ORDERS sample_event (sample_bus 1 2))))"
  have b: "?b = \<lparr>ab_queue_size = 1,
      ab_subscribers = [(ORDERS, [\<lparr>sb_name = ''h'', sb_queue = [], sb_task = True\<rparr>,
         \<lparr>sb_name = ''h'', sb_queue = [Event sample_event], sb_task = True\<rparr>])],
      ab_running = True, ab_stopped = False\<rparr>"
    by (simp add: sample_bus_def numeral_2_eq_2 publish_def consume_def topic_subs_def upd_sub_def dset_def)
  have r: "\<not> ab_stopped ?b" "snd (publish ORDERS sample_event ?b) = Inl Backpressure"
    unfolding b by (simp_all add: publish_def)
  from backpressure_partial_delivery [OF r]
  obtain k where "k < length (topic_subs ORDERS ?b)"
      "ab_queue_size ?b \<le> int (length (sb_queue (topic_subs ORDERS ?b ! k)))" by blast
  moreover have "length (topic_subs ORDERS ?b) = 2" "ab_queue_size ?b = 1"
    unfolding b by (simp_all add: topic_subs_def)
  ultimately have "\<exists>k < 2. 1 \<le> length (sb_queue (topic_subs ORDERS ?b ! k))"
    by (intro exI [of _ k]) simp
  with r(2) show ?thesis unfolding Let_def by blast
qed

end
