(* ===== verification/OMS_State.thy ===== *)
theory OMS_State
  imports Orders Router Event_Bus
begin

text \<open>
  \<open>oms/engine.py\<close>, first part: the state of \<open>OMSEngine\<close>, the client order ids it mints and
  reads back, its publishing helpers, its read API and the two handlers that only cache
  (\<open>_on_signal\<close>, \<open>_on_market_data\<close>).

  The bus is the one of theory \<open>Event_Bus\<close>, whose \<open>publish\<close> never suspends, so a handler runs
  to its end before any other: a handler is a function of the state. The model covers a bus that
  has not been stopped (on a stopped bus every publication raises an error no handler catches).
  The clock is read once per handler and its reading is the field \<open>om_now\<close>, which the
  environment sets. \<open>uuid4()\<close> draws the next value of the source \<open>om_uuid_src\<close>. The field
  \<open>om_sent\<close> is a history variable that no definition reads: the publications attempted so far,
  each with the result \<open>_safe_publish\<close> returned.
\<close>

subsection \<open>Client order ids\<close>

definition external_strategy_id :: strategy_id where
  "external_strategy_id = ''external''"

definition mint_coid :: "strategy_id \<Rightarrow> uuid \<Rightarrow> coid" where
  "mint_coid sid u = sid @ ''-'' @ uuid_hex12 u"

definition rpartition_dash :: "string \<Rightarrow> string \<times> string \<times> string" where
  "rpartition_dash s =
     (let r = rev s;
          tail = rev (takeWhile (\<lambda>c. c \<noteq> CHR ''-'') r);
          rest = dropWhile (\<lambda>c. c \<noteq> CHR ''-'') r
      in if rest = [] then ([], [], s) else (rev (tl rest), ''-'', tail))"

definition strategy_id_from_client_order_id :: "coid \<Rightarrow> strategy_id" where
  "strategy_id_from_client_order_id c =
     (let (hd_part, sep, tail) = rpartition_dash c
      in if sep \<noteq> [] \<and> hd_part \<noteq> [] \<and> length tail = 12 \<and>
            list_all (\<lambda>ch. ch \<in> set ''0123456789abcdef'') tail
         then hd_part else external_strategy_id)"

subsection \<open>State\<close>

record oms_config =
  oc_source :: string
  oc_signal_ttl_ns :: int
  oc_amend_timeout_ns :: int
  oc_stp_enabled :: bool
  oc_router :: router

record oms =
  om_cfg :: oms_config
  om_now :: timestamp
  om_uuid_src :: "nat \<Rightarrow> uuid"
  om_uuid_n :: nat
  om_bus :: async_bus
  om_self_trade_prevented :: nat
  om_last_amend_sweep :: timestamp
  om_signals :: "(uuid, signal_event \<times> timestamp) dict"
  om_orders :: "(uuid, oms_order) dict"
  om_coids :: "(coid, uuid) dict"
  om_algos :: "(string, exec_algo) dict"
  om_algo_ctx :: "(string, signal_event \<times> order_leg) dict"
  om_marks :: "(string, dec) dict"
  om_dropped :: nat
  om_sent :: "(topic \<times> event \<times> bool) list"

definition oms_init :: "oms_config \<Rightarrow> (nat \<Rightarrow> uuid) \<Rightarrow> async_bus \<Rightarrow> timestamp \<Rightarrow> oms" where
  "oms_init cfg src b now =
     \<lparr>om_cfg = cfg, om_now = now, om_uuid_src = src, om_uuid_n = 0, om_bus = b,
      om_self_trade_prevented = 0, om_last_amend_sweep = 0, om_signals = [], om_orders = [],
      om_coids = [], om_algos = [], om_algo_ctx = [], om_marks = [], om_dropped = 0,
      om_sent = []\<rparr>"

definition uuid4 :: "oms \<Rightarrow> uuid \<times> oms" where
  "uuid4 s = (om_uuid_src s (om_uuid_n s), s\<lparr>om_uuid_n := Suc (om_uuid_n s)\<rparr>)"

definition get_order :: "uuid \<Rightarrow> oms \<Rightarrow> oms_order option" where
  "get_order i s = dget (om_orders s) i"

text \<open>In-place mutation of a tracked order, and the tracking of a new one.\<close>

definition upd_order :: "uuid \<Rightarrow> (oms_order \<Rightarrow> oms_order) \<Rightarrow> oms \<Rightarrow> oms" where
  "upd_order i f s = s\<lparr>om_orders := dmod i f (om_orders s)\<rparr>"

definition track_order :: "oms_order \<Rightarrow> oms \<Rightarrow> oms" where
  "track_order o1 s =
     s\<lparr>om_orders := dset (o_id o1) o1 (om_orders s), om_coids := dset (o_coid o1) (o_id o1) (om_coids s)\<rparr>"

text \<open>\<open>try: order.transition_to(...) except InvalidStateTransitionError\<close>: the flag is the outcome.\<close>

definition try_transition :: "uuid \<Rightarrow> order_status \<Rightarrow> timestamp \<Rightarrow> oms \<Rightarrow> oms \<times> bool" where
  "try_transition i st at_ns s =
     (case get_order i s of
        None \<Rightarrow> (s, False)
      | Some o1 \<Rightarrow>
          (case transition_to st at_ns o1 of
             Inl e \<Rightarrow> (s, False)
           | Inr o2 \<Rightarrow> (upd_order i (\<lambda>_. o2) s, True)))"

subsection \<open>Publishing\<close>

definition safe_publish :: "topic \<Rightarrow> event \<Rightarrow> oms \<Rightarrow> oms \<times> bool" where
  "safe_publish t e s =
     (case publish t e (om_bus s) of
        (b, r) \<Rightarrow>
          (let ok = (r = Inr ());
               s1 = s\<lparr>om_bus := b, om_sent := om_sent s @ [(t, e, ok)]\<rparr>
           in (if ok then s1 else s1\<lparr>om_dropped := om_dropped s1 + 1\<rparr>, ok)))"

definition order_key :: "oms_order \<Rightarrow> strategy_id \<times> string" where
  "order_key o1 = (o_strategy o1, instrument_id (o_instrument o1))"

text \<open>One turn of the loop of \<open>working_exposures\<close>.\<close>

definition add_exposure ::
    "oms_order \<Rightarrow> (strategy_id \<times> string, working_exposure) dict \<Rightarrow>
     (strategy_id \<times> string, working_exposure) dict" where
  "add_exposure o1 agg =
     (if order_is_terminal o1 then agg
      else
        let key = order_key o1;
            agg1 = (case dget agg key of
                      None \<Rightarrow> dset key \<lparr>we_strategy = o_strategy o1, we_instrument = o_instrument o1,
                                we_buy = 0, we_sell = 0, we_count = 0\<rparr> agg
                    | Some w \<Rightarrow> agg)
        in dmod key (\<lambda>w.
             (if o_side o1 = BUY then w\<lparr>we_buy := dadd (we_buy w) (leaves_quantity o1)\<rparr>
              else w\<lparr>we_sell := dadd (we_sell w) (leaves_quantity o1)\<rparr>)
             \<lparr>we_count := we_count w + 1\<rparr>) agg1)"

definition working_exposures :: "oms \<Rightarrow> working_exposure list" where
  "working_exposures s = dvals (fold add_exposure (dvals (om_orders s)) [])"

definition order_detail :: "oms_order \<Rightarrow> open_order_detail" where
  "order_detail o1 =
     \<lparr>od_order_id = o_id o1, od_coid = o_coid o1, od_strategy = o_strategy o1,
      od_instrument = o_instrument o1, od_side = o_side o1, od_type = o_type o1,
      od_quantity = o_quantity o1, od_leaves = leaves_quantity o1, od_price = o_price o1,
      od_status = o_status o1, od_created = o_created o1\<rparr>"

definition open_orders :: "oms \<Rightarrow> oms_order list" where
  "open_orders s = filter (\<lambda>o1. \<not> order_is_terminal o1) (dvals (om_orders s))"

definition open_order_details :: "oms \<Rightarrow> open_order_detail list" where
  "open_order_details s =
     map order_detail (filter (\<lambda>o1. \<not> order_is_terminal o1) (dvals (om_orders s)))"

definition publish_open_orders :: "oms \<Rightarrow> oms" where
  "publish_open_orders s =
     fst (safe_publish OPEN_ORDERS
       (EvOpenOrders \<lparr>ts_event = om_now s, ts_ingest = om_now s, source = oc_source (om_cfg s),
          oo_exposures = working_exposures s, oo_orders = open_order_details s\<rparr>) s)"

subsection \<open>Read API\<close>

definition strategy_id_for_client_order :: "coid \<Rightarrow> oms \<Rightarrow> strategy_id option" where
  "strategy_id_for_client_order c s =
     (case dget (om_coids s) c of
        None \<Rightarrow> None
      | Some i \<Rightarrow> (case get_order i s of None \<Rightarrow> None | Some o1 \<Rightarrow> Some (o_strategy o1)))"

record oms_counters =
  oc_open_orders :: nat
  oc_total_orders :: nat
  oc_active_algos :: nat
  oc_dropped_events :: nat
  oc_self_trade_prevented :: nat

definition oms_snapshot :: "oms \<Rightarrow> oms_counters" where
  "oms_snapshot s =
     \<lparr>oc_open_orders = length (filter (\<lambda>o1. \<not> order_is_terminal o1) (dvals (om_orders s))),
      oc_total_orders = length (om_orders s), oc_active_algos = length (om_algos s),
      oc_dropped_events = om_dropped s, oc_self_trade_prevented = om_self_trade_prevented s\<rparr>"

subsection \<open>The caching handlers\<close>

definition evict_stale_signals :: "oms \<Rightarrow> oms" where
  "evict_stale_signals s =
     (let cutoff = om_now s - oc_signal_ttl_ns (om_cfg s);
          stale_keys = map fst (takeWhile (\<lambda>(eid, (sg, received)). received < cutoff) (om_signals s))
      in s\<lparr>om_signals := fold dpop stale_keys (om_signals s)\<rparr>)"

definition on_signal :: "event \<Rightarrow> oms \<Rightarrow> oms" where
  "on_signal e s =
     (case e of
        EvSignal sg \<Rightarrow>
          (let s1 = evict_stale_signals s
           in s1\<lparr>om_signals := dset (sig_id sg) (sg, om_now s1) (om_signals s1)\<rparr>)
      | _ \<Rightarrow> s)"

definition on_market_data :: "event \<Rightarrow> oms \<Rightarrow> oms" where
  "on_market_data e s =
     (case e of
        EvTick t \<Rightarrow> s\<lparr>om_marks := dset (instrument_id (tk_instrument t)) (tick_mid t) (om_marks s)\<rparr>
      | _ \<Rightarrow> s)"

end
