(* ===== verification/OMS_Engine.thy ===== *)
theory OMS_Engine
  imports OMS_State
begin

text \<open>
  \<open>oms/engine.py\<close>, second part: every handler and operation of \<open>OMSEngine\<close> that changes its
  orders, in the code's decomposition. The code holds references to mutable \<open>Order\<close> objects;
  here a reference is the order's id and each read looks the order up again, so a change made
  through one reference is seen through every other.
\<close>

subsection \<open>Cancelling\<close>

definition cancel_order :: "uuid \<Rightarrow> oms \<Rightarrow> oms \<times> (py_error + unit)" where
  "cancel_order i s =
     (case get_order i s of
        None \<Rightarrow> (s, Inl OrderNotFound)
      | Some o1 \<Rightarrow>
          if order_is_terminal o1 then (s, Inr ())
          else
            (case try_transition i PENDING_CANCEL (om_now s) s of
               (s1, False) \<Rightarrow> (s1, Inr ())
             | (s1, True) \<Rightarrow>
                 (fst (safe_publish ORDERS
                    (EvCancelRequest \<lparr>ts_event = om_now s, ts_ingest = om_now s,
                       source = oc_source (om_cfg s), cr_order_id = i, cr_coid = o_coid o1,
                       cr_instrument = o_instrument o1\<rparr>) s1), Inr ())))"

definition safe_cancel :: "uuid \<Rightarrow> oms \<Rightarrow> oms" where
  "safe_cancel i s = fst (cancel_order i s)"

text \<open>\<open>for order in list(...): if P(order): await self._safe_cancel(order.order_id)\<close>\<close>

definition cancel_if :: "(oms_order \<Rightarrow> bool) \<Rightarrow> uuid \<Rightarrow> oms \<Rightarrow> oms" where
  "cancel_if P i s =
     (case get_order i s of
        None \<Rightarrow> s
      | Some o1 \<Rightarrow> if P o1 then safe_cancel i s else s)"

definition order_ids :: "oms \<Rightarrow> uuid list" where
  "order_ids s = map o_id (dvals (om_orders s))"

definition retire_algo :: "string \<Rightarrow> oms \<Rightarrow> oms" where
  "retire_algo leg s = s\<lparr>om_algos := dpop leg (om_algos s), om_algo_ctx := dpop leg (om_algo_ctx s)\<rparr>"

definition cancel_children :: "string \<Rightarrow> oms \<Rightarrow> oms" where
  "cancel_children leg s =
     fold (cancel_if (\<lambda>o1. o_parent_leg o1 = Some leg \<and> \<not> order_is_terminal o1)) (order_ids s) s"

definition cancel_resting :: "strategy_id \<Rightarrow> string \<Rightarrow> oms \<Rightarrow> oms" where
  "cancel_resting sid iid s =
     fold (cancel_if (\<lambda>o1. o_strategy o1 = sid \<and> instrument_id (o_instrument o1) = iid \<and>
             o_parent_leg o1 = None \<and> \<not> order_is_terminal o1)) (order_ids s) s"

definition cancel_all_resting :: "oms \<Rightarrow> oms" where
  "cancel_all_resting s =
     (let s1 = fold retire_algo (dkeys (om_algos s)) s
      in fold (cancel_if (\<lambda>o1. \<not> order_is_terminal o1)) (order_ids s1) s1)"

definition cancel_strategy_orders :: "strategy_id \<Rightarrow> oms \<Rightarrow> oms \<times> nat" where
  "cancel_strategy_orders sid s =
     (let strategy_legs = List.map_filter (\<lambda>o1. if o_strategy o1 = sid then o_parent_leg o1 else None)
                            (dvals (om_orders s));
          s1 = fold retire_algo (filter (\<lambda>leg. leg \<in> set strategy_legs) (dkeys (om_algos s))) s;
          owned = (\<lambda>o1. o_strategy o1 = sid \<and> \<not> order_is_terminal o1)
      in (fold (cancel_if owned) (order_ids s1) s1,
          length (filter owned (dvals (om_orders s1)))))"

subsection \<open>Placing and amending\<close>

definition new_order ::
    "uuid \<Rightarrow> coid \<Rightarrow> strategy_id \<Rightarrow> instrument \<Rightarrow> side \<Rightarrow> order_type \<Rightarrow> dec \<Rightarrow> dec option \<Rightarrow>
     time_in_force \<Rightarrow> timestamp \<Rightarrow> string option \<Rightarrow> oms_order" where
  "new_order i c sid ins sd ty q p tif created parent =
     \<lparr>o_id = i, o_coid = c, o_strategy = sid, o_instrument = ins, o_side = sd, o_type = ty,
      o_quantity = q, o_price = p, o_tif = tif, o_created = created, o_status = PENDING_NEW,
      o_exchange_id = None, o_cumulative = 0, o_average = 0, o_last_update = 0,
      o_reject_reason = None, o_parent_leg = parent, o_applied = {}, o_pending_amend = None\<rparr>"

definition backpressure_reason :: string where
  "backpressure_reason = ''dropped: bus backpressure on orders topic''"

text \<open>
  What \<open>_place_quote\<close> and \<open>_submit_child\<close> share: track a fresh order, publish its request, and
  reject the order locally when the request was dropped.
\<close>

definition submit_order ::
    "strategy_id \<Rightarrow> instrument \<Rightarrow> side \<Rightarrow> order_type \<Rightarrow> dec \<Rightarrow> dec option \<Rightarrow> time_in_force \<Rightarrow>
     string option \<Rightarrow> timestamp option \<Rightarrow> oms \<Rightarrow> oms" where
  "submit_order sid ins sd ty q p tif parent upstream s =
     (case uuid4 s of
        (i, s1) \<Rightarrow>
          (let c = mint_coid sid i;
               s2 = track_order (new_order i c sid ins sd ty q p tif (om_now s1) parent) s1;
               req = EvOrderRequest \<lparr>ts_event = om_now s2, ts_ingest = om_now s2,
                       source = oc_source (om_cfg s2), rq_order_id = i, rq_coid = c,
                       rq_strategy = sid, rq_instrument = ins, rq_side = sd, rq_type = ty,
                       rq_quantity = q, rq_price = p, rq_stop_price = None, rq_tif = tif,
                       rq_upstream = upstream\<rparr>
           in (case safe_publish ORDERS req s2 of
                 (s3, True) \<Rightarrow> s3
               | (s3, False) \<Rightarrow>
                   upd_order i (\<lambda>o1. o1\<lparr>o_reject_reason := Some backpressure_reason\<rparr>)
                     (fst (try_transition i REJECTED (om_now s3) s3)))))"

definition place_quote :: "signal_event \<Rightarrow> order_leg \<Rightarrow> timestamp \<Rightarrow> oms \<Rightarrow> oms" where
  "place_quote sg leg decision_ts s =
     submit_order (sig_strategy sg) (sig_instrument sg) (leg_side leg) (leg_type leg)
       (leg_quantity leg) (leg_price leg) (leg_tif leg) None
       (if decision_ts = 0 then None else Some decision_ts) s"

definition submit_child :: "string \<Rightarrow> child_spec \<Rightarrow> oms \<Rightarrow> oms" where
  "submit_child lid spec s =
     (case dget (om_algo_ctx s) lid of
        None \<Rightarrow> s
      | Some (sg, leg) \<Rightarrow>
          submit_order (sig_strategy sg) (sig_instrument sg) (leg_side leg) (cs_type spec)
            (cs_quantity spec) (cs_price spec) (cs_tif spec) (Some lid) None s)"

definition amend_quote :: "uuid \<Rightarrow> order_leg \<Rightarrow> oms \<Rightarrow> oms" where
  "amend_quote i leg s =
     (case get_order i s of
        None \<Rightarrow> s
      | Some o1 \<Rightarrow>
          (case try_transition i PENDING_AMEND (om_now s) s of
             (s1, False) \<Rightarrow> s1
           | (s1, True) \<Rightarrow>
               fst (safe_publish ORDERS
                 (EvAmendRequest \<lparr>ts_event = om_now s1, ts_ingest = om_now s1,
                    source = oc_source (om_cfg s1), ar_order_id = i, ar_coid = o_coid o1,
                    ar_instrument = o_instrument o1, ar_side = o_side o1,
                    ar_new_quantity = Some (leg_quantity leg), ar_new_price = leg_price leg\<rparr>)
                 (upd_order i (\<lambda>o2. o2\<lparr>o_pending_amend := Some (leg_price leg, leg_quantity leg)\<rparr>) s1))))"

subsection \<open>Self-trade prevention\<close>

definition stp_live_statuses :: "order_status list" where
  "stp_live_statuses = [PENDING_NEW, ACKNOWLEDGED, PARTIALLY_FILLED, PENDING_AMEND]"

definition crosses :: "side \<Rightarrow> dec \<Rightarrow> oms_order \<Rightarrow> bool" where
  "crosses sd p o1 =
     (case o_price o1 of
        None \<Rightarrow> False
      | Some q \<Rightarrow> (sd = BUY \<and> o_side o1 = SELL \<and> q \<le> p) \<or> (sd = SELL \<and> o_side o1 = BUY \<and> p \<le> q))"

definition crosses_other_strategy ::
    "strategy_id \<Rightarrow> string \<Rightarrow> side \<Rightarrow> dec option \<Rightarrow> oms \<Rightarrow> oms_order option" where
  "crosses_other_strategy sid iid sd price s =
     (case price of
        None \<Rightarrow> None
      | Some p \<Rightarrow>
          find (\<lambda>o1. \<not> (o_strategy o1 = sid \<or> instrument_id (o_instrument o1) \<noteq> iid \<or>
                        o_status o1 \<notin> set stp_live_statuses \<or> o_price o1 = None) \<and>
                     crosses sd p o1)
            (dvals (om_orders s)))"

definition stp_blocks :: "signal_event \<Rightarrow> order_leg \<Rightarrow> oms \<Rightarrow> oms \<times> bool" where
  "stp_blocks sg leg s =
     (if \<not> oc_stp_enabled (om_cfg s) then (s, False)
      else
        case crosses_other_strategy (sig_strategy sg) (instrument_id (sig_instrument sg))
               (leg_side leg) (leg_price leg) s of
          None \<Rightarrow> (s, False)
        | Some blocker \<Rightarrow> (s\<lparr>om_self_trade_prevented := om_self_trade_prevented s + 1\<rparr>, True))"

subsection \<open>Reconciling plain quotes\<close>

definition amendable :: "order_status list" where
  "amendable = [ACKNOWLEDGED, PARTIALLY_FILLED]"

definition active_statuses :: "order_status list" where
  "active_statuses = [PENDING_NEW] @ amendable @ [PENDING_AMEND, PENDING_CANCEL]"

definition resting_orders :: "signal_event \<Rightarrow> oms \<Rightarrow> uuid list" where
  "resting_orders sg s =
     map o_id (filter (\<lambda>o1. o_strategy o1 = sig_strategy sg \<and>
         instrument_id (o_instrument o1) = instrument_id (sig_instrument sg) \<and>
         o_parent_leg o1 = None \<and> o_status o1 \<in> set active_statuses) (dvals (om_orders s)))"

text \<open>\<open>next((o for o in resting if o.order_id not in matched and P(o)), None)\<close>\<close>

definition first_unmatched ::
    "uuid list \<Rightarrow> uuid list \<Rightarrow> (oms_order \<Rightarrow> bool) \<Rightarrow> oms \<Rightarrow> uuid option" where
  "first_unmatched resting matched P s =
     find (\<lambda>i. i \<notin> set matched \<and>
               (case get_order i s of None \<Rightarrow> False | Some o1 \<Rightarrow> P o1)) resting"

definition exact_match :: "order_leg \<Rightarrow> oms_order \<Rightarrow> bool" where
  "exact_match leg o1 \<longleftrightarrow>
     o_side o1 = leg_side leg \<and> o_price o1 = leg_price leg \<and> leaves_quantity o1 = leg_quantity leg"

definition reconcile_leg ::
    "signal_event \<Rightarrow> timestamp \<Rightarrow> uuid list \<Rightarrow> order_leg \<Rightarrow> oms \<times> uuid list \<Rightarrow> oms \<times> uuid list" where
  "reconcile_leg sg decision_ts resting leg st =
     (case st of
        (s, matched) \<Rightarrow>
          (case first_unmatched resting matched (exact_match leg) s of
             Some i \<Rightarrow> (s, i # matched)
           | None \<Rightarrow>
               (case first_unmatched resting matched (\<lambda>o1. o_side o1 = leg_side leg) s of
                  None \<Rightarrow>
                    (case stp_blocks sg leg s of
                       (s1, True) \<Rightarrow> (s1, matched)
                     | (s1, False) \<Rightarrow> (place_quote sg leg decision_ts s1, matched))
                | Some i \<Rightarrow>
                    (case get_order i s of
                       None \<Rightarrow> (s, i # matched)
                     | Some c \<Rightarrow>
                         if o_status c = PENDING_AMEND \<or> o_status c = PENDING_CANCEL
                         then (s, i # matched)
                         else if o_status c \<in> set amendable then
                           (case stp_blocks sg leg s of
                              (s1, True) \<Rightarrow> (s1, i # matched)
                            | (s1, False) \<Rightarrow> (amend_quote i leg s1, i # matched))
                         else (s, i # matched)))))"

definition reconcile_immediate ::
    "signal_event \<Rightarrow> order_leg list \<Rightarrow> timestamp \<Rightarrow> oms \<Rightarrow> oms" where
  "reconcile_immediate sg legs decision_ts s =
     (let resting = resting_orders sg s
      in (case fold (reconcile_leg sg decision_ts resting) legs (s, []) of
            (s1, matched) \<Rightarrow>
              fold (cancel_if (\<lambda>o1. o_id o1 \<notin> set matched \<and> o_status o1 \<noteq> PENDING_AMEND)) resting s1))"

subsection \<open>Driving execution algorithms\<close>

definition leg_has_live_children :: "string \<Rightarrow> oms \<Rightarrow> bool" where
  "leg_has_live_children lid s =
     list_ex (\<lambda>o1. o_parent_leg o1 = Some lid \<and> \<not> order_is_terminal o1) (dvals (om_orders s))"

definition drive_algo :: "string \<Rightarrow> oms \<Rightarrow> oms" where
  "drive_algo lid s =
     (case dget (om_algos s) lid of
        None \<Rightarrow> s
      | Some a \<Rightarrow>
          (case next_slice (om_now s) a of
             (spec, a') \<Rightarrow>
               (let s1 = s\<lparr>om_algos := dmod lid (\<lambda>_. a') (om_algos s)\<rparr>;
                    s2 = (case spec of None \<Rightarrow> s1
                          | Some sp \<Rightarrow> publish_open_orders (submit_child lid sp s1))
                in if is_done a' \<and> \<not> leg_has_live_children lid s2 then retire_algo lid s2 else s2)))"

definition withdraw_leg :: "signal_event \<Rightarrow> string list \<Rightarrow> string \<Rightarrow> oms \<Rightarrow> oms" where
  "withdraw_leg sg desired lid s =
     (case dget (om_algo_ctx s) lid of
        None \<Rightarrow> s
      | Some (algo_sg, leg) \<Rightarrow>
          if sig_strategy algo_sg = sig_strategy sg \<and>
             instrument_id (sig_instrument algo_sg) = instrument_id (sig_instrument sg) \<and>
             lid \<notin> set desired
          then cancel_children lid (retire_algo lid s) else s)"

definition start_leg :: "signal_event \<Rightarrow> order_leg \<times> exec_algo \<Rightarrow> oms \<Rightarrow> oms" where
  "start_leg sg la s =
     (case la of
        (leg, a) \<Rightarrow>
          if dget (om_algos s) (leg_id leg) \<noteq> None
          then s\<lparr>om_algo_ctx := dset (leg_id leg) (sg, leg) (om_algo_ctx s)\<rparr>
          else drive_algo (leg_id leg)
                 (s\<lparr>om_algos := dset (leg_id leg) a (om_algos s),
                    om_algo_ctx := dset (leg_id leg) (sg, leg) (om_algo_ctx s)\<rparr>))"

definition reconcile_sliced :: "signal_event \<Rightarrow> (order_leg \<times> exec_algo) list \<Rightarrow> oms \<Rightarrow> oms" where
  "reconcile_sliced sg sliced s =
     (let desired = map (\<lambda>(leg, a). leg_id leg) sliced;
          s1 = fold (withdraw_leg sg desired) (dkeys (om_algos s)) s
      in fold (start_leg sg) sliced s1)"

definition emit_routed :: "signal_event \<Rightarrow> order_leg \<Rightarrow> string \<Rightarrow> oms \<Rightarrow> oms" where
  "emit_routed sg leg name s =
     fst (safe_publish ORDERS
       (EvRouted \<lparr>ts_event = om_now s, ts_ingest = om_now s, source = oc_source (om_cfg s),
          er_strategy = sig_strategy sg, er_instrument = sig_instrument sg, er_leg_id = leg_id leg,
          er_side = leg_side leg, er_intent = leg_intent leg, er_quantity = leg_quantity leg,
          er_algo = name\<rparr>) s)"

text \<open>The routing loop; an exception of the router leaves the handler with the legs routed so far announced.\<close>

fun route_legs ::
    "signal_event \<Rightarrow> routing_context \<Rightarrow> order_leg list \<Rightarrow> oms \<Rightarrow>
     oms \<times> (py_error + order_leg list \<times> (order_leg \<times> exec_algo) list)" where
  "route_legs sg ctx [] s = (s, Inr ([], []))"
| "route_legs sg ctx (leg # legs) s =
     (case route (oc_router (om_cfg s)) leg ctx of
        Inl e \<Rightarrow> (s, Inl e)
      | Inr d \<Rightarrow>
          (case route_legs sg ctx legs (emit_routed sg leg (decision_algo_name d) s) of
             (s1, Inl e) \<Rightarrow> (s1, Inl e)
           | (s1, Inr (imm, sl)) \<Rightarrow>
               (case rdn_algo d of
                  None \<Rightarrow> (s1, Inr (leg # imm, sl))
                | Some a \<Rightarrow> (s1, Inr (imm, (leg, a) # sl)))))"

definition reconcile_quotes :: "signal_event \<Rightarrow> timestamp \<Rightarrow> oms \<Rightarrow> oms \<times> (py_error + unit)" where
  "reconcile_quotes sg decision_ts s =
     (let ctx = \<lparr>rc_now_ns = om_now s, rc_instrument = sig_instrument sg,
                 rc_last_mark = dget (om_marks s) (instrument_id (sig_instrument sg))\<rparr>
      in (case route_legs sg ctx (sig_legs sg) s of
            (s1, Inl e) \<Rightarrow> (s1, Inl e)
          | (s1, Inr (imm, sl)) \<Rightarrow>
              (publish_open_orders (reconcile_sliced sg sl (reconcile_immediate sg imm decision_ts s1)),
               Inr ())))"

subsection \<open>Handlers\<close>

definition approved_quantities :: "risk_decision \<Rightarrow> (string, dec) dict" where
  "approved_quantities d =
     fold (\<lambda>al m. dset (al_leg_id al) (al_quantity al) m) (rd_approved_legs d) []"

definition approved_signal :: "signal_event \<Rightarrow> risk_decision \<Rightarrow> signal_event" where
  "approved_signal sg d =
     sg\<lparr>sig_legs := List.map_filter (\<lambda>leg. map_option (\<lambda>q. leg\<lparr>leg_quantity := q\<rparr>)
                      (dget (approved_quantities d) (leg_id leg))) (sig_legs sg)\<rparr>"

definition on_risk_decision :: "event \<Rightarrow> oms \<Rightarrow> oms \<times> (py_error + unit)" where
  "on_risk_decision e s =
     (case e of
        EvDecision d \<Rightarrow>
          (case dget (om_signals s) (rd_signal_id d) of
             None \<Rightarrow> (s, Inr ())
           | Some (sg, received) \<Rightarrow>
               (let s1 = s\<lparr>om_signals := dpop (rd_signal_id d) (om_signals s)\<rparr>
                in if \<not> rd_approved d
                   then (cancel_resting (sig_strategy sg) (instrument_id (sig_instrument sg)) s1, Inr ())
                   else reconcile_quotes (approved_signal sg d) (ts_ingest d) s1))
      | _ \<Rightarrow> (s, Inr ()))"

definition on_alert :: "event \<Rightarrow> oms \<Rightarrow> oms" where
  "on_alert e s = (case e of EvKillSwitch k \<Rightarrow> cancel_all_resting s | _ \<Rightarrow> s)"

definition handle_ack :: "order_acknowledged \<Rightarrow> oms \<Rightarrow> oms" where
  "handle_ack ev s =
     (case try_transition (re_order_id ev) ACKNOWLEDGED (ts_event ev) s of
        (s1, False) \<Rightarrow> s1
      | (s1, True) \<Rightarrow>
          upd_order (re_order_id ev) (\<lambda>o1. o1\<lparr>o_exchange_id := Some (ak_exchange_id ev)\<rparr>) s1)"

definition handle_reject :: "order_response \<Rightarrow> oms \<Rightarrow> oms" where
  "handle_reject ev s =
     (case try_transition (re_order_id ev) REJECTED (ts_event ev) s of
        (s1, False) \<Rightarrow> s1
      | (s1, True) \<Rightarrow>
          upd_order (re_order_id ev) (\<lambda>o1. o1\<lparr>o_reject_reason := Some (re_reason ev)\<rparr>) s1)"

definition handle_cancel :: "order_response \<Rightarrow> oms \<Rightarrow> oms" where
  "handle_cancel ev s = fst (try_transition (re_order_id ev) CANCELLED (ts_event ev) s)"

definition handle_cancel_rejected :: "order_response \<Rightarrow> oms \<Rightarrow> oms" where
  "handle_cancel_rejected ev s = fst (try_transition (re_order_id ev) ACKNOWLEDGED (ts_event ev) s)"

definition handle_amend_rejected :: "order_response \<Rightarrow> oms \<Rightarrow> oms" where
  "handle_amend_rejected ev s =
     (case get_order (re_order_id ev) s of
        None \<Rightarrow> s
      | Some o1 \<Rightarrow>
          (let s1 = upd_order (re_order_id ev) (\<lambda>o2. o2\<lparr>o_pending_amend := None\<rparr>) s
           in if leaves_quantity o1 = 0
              then fst (try_transition (re_order_id ev) FILLED (om_now s1) s1)
              else fst (try_transition (re_order_id ev) ACKNOWLEDGED (om_now s1) s1)))"

definition clear_pending_amend :: "uuid \<Rightarrow> oms \<Rightarrow> oms" where
  "clear_pending_amend i s = upd_order i (\<lambda>o1. o1\<lparr>o_pending_amend := None\<rparr>) s"

text \<open>Commit of a confirmed amend: the venue's figures, else the requested ones.\<close>

definition commit_amend :: "order_amended \<Rightarrow> oms_order \<Rightarrow> oms_order" where
  "commit_amend ev o1 =
     o1\<lparr>o_price := (case am_new_price ev of
           Some p \<Rightarrow> Some p
         | None \<Rightarrow> (case o_pending_amend o1 of Some (p, q) \<Rightarrow> p | None \<Rightarrow> o_price o1)),
        o_quantity := (case am_new_quantity ev of
           Some q \<Rightarrow> q
         | None \<Rightarrow> (case o_pending_amend o1 of Some (p, q) \<Rightarrow> q | None \<Rightarrow> o_quantity o1)),
        o_pending_amend := None,
        o_exchange_id := (case am_new_exchange_id ev of Some x \<Rightarrow> Some x | None \<Rightarrow> o_exchange_id o1)\<rparr>"

definition handle_amend :: "order_amended \<Rightarrow> oms \<Rightarrow> oms" where
  "handle_amend ev s =
     (case get_order (re_order_id ev) s of
        None \<Rightarrow> s
      | Some o1 \<Rightarrow>
          if o_status o1 = PENDING_CANCEL then clear_pending_amend (re_order_id ev) s
          else
            (case try_transition (re_order_id ev) ACKNOWLEDGED (ts_event ev) s of
               (s1, False) \<Rightarrow> clear_pending_amend (re_order_id ev) s1
             | (s1, True) \<Rightarrow> upd_order (re_order_id ev) (commit_amend ev) s1))"

definition on_order_event :: "event \<Rightarrow> oms \<Rightarrow> oms" where
  "on_order_event e s =
     (case e of
        EvAck ev \<Rightarrow> handle_ack ev s
      | EvRejected ev \<Rightarrow> publish_open_orders (handle_reject ev s)
      | EvCancelRejected ev \<Rightarrow> handle_cancel_rejected ev s
      | EvAmendRejected ev \<Rightarrow> handle_amend_rejected ev s
      | EvCancelled ev \<Rightarrow> publish_open_orders (handle_cancel ev s)
      | EvAmended ev \<Rightarrow> publish_open_orders (handle_amend ev s)
      | _ \<Rightarrow> s)"

definition notify_algo :: "fill_event \<Rightarrow> oms_order \<Rightarrow> oms \<Rightarrow> oms" where
  "notify_algo f o1 s =
     (case o_parent_leg o1 of
        None \<Rightarrow> s
      | Some lid \<Rightarrow>
          (case dget (om_algos s) lid of
             None \<Rightarrow> s
           | Some a \<Rightarrow>
               (let s1 = s\<lparr>om_algos := dmod lid (algo_on_fill f) (om_algos s)\<rparr>
                in if is_done (algo_on_fill f a) \<and> \<not> leg_has_live_children lid s1
                   then retire_algo lid s1 else s1)))"

definition on_fill :: "event \<Rightarrow> oms \<Rightarrow> oms" where
  "on_fill e s =
     (case e of
        EvFill f \<Rightarrow>
          (case get_order (fl_order_id f) s of
             None \<Rightarrow> s
           | Some o1 \<Rightarrow>
               if order_is_terminal o1 then
                 (case record_fill f o1 of
                    (o2, False) \<Rightarrow> s
                  | (o2, True) \<Rightarrow> publish_open_orders (upd_order (fl_order_id f) (\<lambda>_. o2) s))
               else
                 (case apply_fill f o1 of
                    (o2, Inl err) \<Rightarrow> upd_order (fl_order_id f) (\<lambda>_. o2) s
                  | (o2, Inr False) \<Rightarrow> s
                  | (o2, Inr True) \<Rightarrow>
                      publish_open_orders (notify_algo f o2 (upd_order (fl_order_id f) (\<lambda>_. o2) s))))
      | _ \<Rightarrow> s)"

subsection \<open>The driver loop\<close>

definition sweep_one :: "timestamp \<Rightarrow> uuid \<Rightarrow> oms \<Rightarrow> oms" where
  "sweep_one now i s =
     (case get_order i s of
        None \<Rightarrow> s
      | Some o1 \<Rightarrow>
          if o_status o1 \<noteq> PENDING_AMEND then s
          else if now - o_last_update o1 < oc_amend_timeout_ns (om_cfg s) then s
          else fst (try_transition i (if leaves_quantity o1 = 0 then FILLED else ACKNOWLEDGED) now
                      (clear_pending_amend i s)))"

definition sweep_stale_pending_amends :: "oms \<Rightarrow> oms" where
  "sweep_stale_pending_amends s =
     (let now = om_now s
      in if now - om_last_amend_sweep s < ns_per_second then s
         else (let s1 = s\<lparr>om_last_amend_sweep := now\<rparr>
               in fold (sweep_one now) (order_ids s1) s1))"

definition algo_driver_tick :: "oms \<Rightarrow> oms" where
  "algo_driver_tick s = sweep_stale_pending_amends (fold drive_algo (dkeys (om_algos s)) s)"

subsection \<open>Adoption of venue state\<close>

definition refresh_adopted_order :: "uuid \<Rightarrow> dec \<Rightarrow> dec \<Rightarrow> dec option \<Rightarrow> oms \<Rightarrow> oms" where
  "refresh_adopted_order i quantity cumulative price s =
     (case get_order i s of
        None \<Rightarrow> s
      | Some o1 \<Rightarrow>
          if order_is_terminal o1 then s
          else upd_order i (\<lambda>o2.
                 o2\<lparr>o_cumulative := (if o_cumulative o2 < cumulative then cumulative else o_cumulative o2),
                    o_quantity := quantity,
                    o_price := (case price of None \<Rightarrow> o_price o2 | Some p \<Rightarrow> Some p)\<rparr>) s)"

definition adopt_order ::
    "instrument \<Rightarrow> coid \<Rightarrow> side \<Rightarrow> order_type \<Rightarrow> dec \<Rightarrow> dec \<Rightarrow> dec option \<Rightarrow> time_in_force \<Rightarrow>
     string option \<Rightarrow> timestamp option \<Rightarrow> oms \<Rightarrow> oms \<times> uuid" where
  "adopt_order ins c sd ty quantity cumulative price tif exch created s =
     (case dget (om_coids s) c of
        Some existing \<Rightarrow> (refresh_adopted_order existing quantity cumulative price s, existing)
      | None \<Rightarrow>
          (case uuid4 s of
             (i, s1) \<Rightarrow>
               (let o1 = (new_order i c (strategy_id_from_client_order_id c) ins sd ty quantity price tif
                           (case created of Some t \<Rightarrow> t | None \<Rightarrow> om_now s1) None)
                         \<lparr>o_status := (if 0 < cumulative then PARTIALLY_FILLED else ACKNOWLEDGED),
                          o_cumulative := cumulative, o_exchange_id := exch\<rparr>;
                    s2 = track_order o1 s1;
                    s3 = (case exch of
                            None \<Rightarrow> s2
                          | Some x \<Rightarrow> fst (safe_publish ORDERS
                              (EvAck \<lparr>ts_event = om_now s2, ts_ingest = om_now s2,
                                 source = oc_source (om_cfg s2), re_order_id = i, re_coid = c,
                                 re_reason = [], ak_exchange_id = x\<rparr>) s2))
                in (publish_open_orders s3, i))))"

definition terminalize_from_venue :: "uuid \<Rightarrow> order_status \<Rightarrow> dec option \<Rightarrow> oms \<Rightarrow> oms" where
  "terminalize_from_venue i st cumulative s =
     (case get_order i s of
        None \<Rightarrow> s
      | Some o1 \<Rightarrow>
          if order_is_terminal o1 then s
          else if \<not> status_is_terminal st then s
          else
            (let s1 = (case cumulative of
                         None \<Rightarrow> s
                       | Some q \<Rightarrow>
                           if o_cumulative o1 < q then upd_order i (\<lambda>o2. o2\<lparr>o_cumulative := q\<rparr>) s else s)
             in (case try_transition i st (om_now s1) s1 of
                   (s2, False) \<Rightarrow> s2
                 | (s2, True) \<Rightarrow> publish_open_orders s2)))"

end
