(* ===== verification/OMS_Invariants.thy ===== *)
theory OMS_Invariants
  imports OMS_Engine
begin

text \<open>
  What every operation of the OMS keeps. The invariant \<open>oms_ok\<close> ties the order map, the client
  id map and the supply of ids together; \<open>oms_evolves\<close> says how a state may follow another:
  every order is still there, with its identity, and its status has moved only along legal
  transitions. \<open>oms_step\<close> combines both and composes, so each operation needs one line.
\<close>

subsection \<open>How an order may change\<close>

definition status_leads :: "order_status \<Rightarrow> order_status \<Rightarrow> bool" where
  "status_leads = (\<lambda>a b. validate_transition (Some a) b = Inr ())\<^sup>*\<^sup>*"

lemma status_leads_refl [simp, intro]: "status_leads a a"
  by (simp add: status_leads_def)

lemma status_leads_step: "validate_transition (Some a) b = Inr () \<Longrightarrow> status_leads a b"
  by (simp add: status_leads_def r_into_rtranclp)

lemma status_leads_trans: "status_leads a b \<Longrightarrow> status_leads b c \<Longrightarrow> status_leads a c"
  unfolding status_leads_def by (rule rtranclp_trans)

lemma status_leads_terminal: "status_leads a b \<Longrightarrow> is_terminal a \<Longrightarrow> b = a"
  unfolding status_leads_def
  by (induction rule: rtranclp_induct) (auto simp: validate_terminal)

definition order_evolves :: "oms_order \<Rightarrow> oms_order \<Rightarrow> bool" where
  "order_evolves o1 o2 \<longleftrightarrow>
     order_static o2 = order_static o1 \<and> o_parent_leg o2 = o_parent_leg o1 \<and>
     o_type o2 = o_type o1 \<and> o_tif o2 = o_tif o1 \<and>
     status_leads (o_status o1) (o_status o2) \<and> o_applied o1 \<subseteq> o_applied o2 \<and>
     (order_is_terminal o1 \<longrightarrow> o_price o2 = o_price o1 \<and> o_quantity o2 = o_quantity o1)"

lemma order_evolves_refl [simp, intro]: "order_evolves o1 o1"
  by (simp add: order_evolves_def)

lemma order_evolves_trans: "order_evolves a b \<Longrightarrow> order_evolves b c \<Longrightarrow> order_evolves a c"
  by (auto simp: order_evolves_def order_is_terminal_def intro: status_leads_trans
      dest: status_leads_terminal)

lemma order_evolves_terminal: "order_evolves a b \<Longrightarrow> order_is_terminal a \<Longrightarrow> o_status b = o_status a"
  by (auto simp: order_evolves_def order_is_terminal_def dest: status_leads_terminal)

lemma order_evolves_id: "order_evolves a b \<Longrightarrow> o_id b = o_id a \<and> o_coid b = o_coid a"
  by (simp add: order_evolves_def order_static_def)

lemma evolves_transition: "transition_to st t a = Inr b \<Longrightarrow> order_evolves a b"
proof -
  assume "transition_to st t a = Inr b"
  then have v: "validate_transition (Some (o_status a)) st = Inr ()"
    and b: "b = a\<lparr>o_status := st, o_last_update := t\<rparr>"
    by (auto simp: transition_to_ok)
  have "\<not> order_is_terminal a" using v validate_terminal [of "o_status a" st] by (auto simp: order_is_terminal_def)
  then show ?thesis using status_leads_step [OF v] by (simp add: b order_evolves_def order_static_def)
qed

lemma evolves_record_fill: "order_evolves a (fst (record_fill f a))"
proof -
  have "o_tif (fst (record_fill f a)) = o_tif a" by (simp add: record_fill_def Let_def)
  then show ?thesis using record_fill_static [of f a] by (auto simp: order_evolves_def)
qed

lemma evolves_apply_fill: "order_evolves a (fst (apply_fill f a))"
proof (cases "fl_fill_id f \<in> o_applied a \<or> order_is_terminal a")
  case True
  then show ?thesis using evolves_record_fill [of a f] by (auto simp: apply_fill_unfold Let_def)
next
  case False
  let ?b = "fst (record_fill f a)"
  have "order_evolves ?b (?b\<lparr>o_status := st, o_last_update := t\<rparr>)"
    if "st = FILLED \<or> st = PARTIALLY_FILLED" for st t
  proof -
    have "validate_transition (Some (o_status ?b)) st = Inr ()"
      using False that by (auto simp: order_is_terminal_def)
    then show ?thesis using evolves_transition [of st t ?b] by (simp add: transition_to_ok)
  qed
  then show ?thesis using False evolves_record_fill [of a f] order_evolves_trans
    by (auto simp: apply_fill_unfold Let_def)
qed

subsection \<open>The invariant and the step relation\<close>

definition oms_ok :: "oms \<Rightarrow> bool" where
  "oms_ok s \<longleftrightarrow>
     dict_ok (om_orders s) \<and> dict_ok (om_coids s) \<and> inj (om_uuid_src s) \<and>
     (\<forall>i o1. get_order i s = Some o1 \<longrightarrow> o_id o1 = i \<and> i \<in> om_uuid_src s ` {..< om_uuid_n s}) \<and>
     (\<forall>c i. dget (om_coids s) c = Some i \<longrightarrow> (\<exists>o1. get_order i s = Some o1 \<and> o_coid o1 = c))"

lemma oms_okI:
  assumes "dict_ok (om_orders s)" and "dict_ok (om_coids s)" and "inj (om_uuid_src s)"
    and "\<And>i o1. get_order i s = Some o1 \<Longrightarrow> o_id o1 = i \<and> i \<in> om_uuid_src s ` {..< om_uuid_n s}"
    and "\<And>c i. dget (om_coids s) c = Some i \<Longrightarrow> \<exists>o1. get_order i s = Some o1 \<and> o_coid o1 = c"
  shows "oms_ok s"
  unfolding oms_ok_def using assms by blast

lemma oms_okD:
  assumes "oms_ok s"
  shows "dict_ok (om_orders s)" "dict_ok (om_coids s)" "inj (om_uuid_src s)"
    "get_order i s = Some o1 \<Longrightarrow> o_id o1 = i"
    "get_order i s = Some o1 \<Longrightarrow> \<exists>n < om_uuid_n s. i = om_uuid_src s n"
    "dget (om_coids s) c = Some i \<Longrightarrow> \<exists>o1. get_order i s = Some o1 \<and> o_coid o1 = c"
  using assms unfolding oms_ok_def by blast+

definition oms_evolves :: "oms \<Rightarrow> oms \<Rightarrow> bool" where
  "oms_evolves s t \<longleftrightarrow>
     om_cfg t = om_cfg s \<and> om_now t = om_now s \<and> om_uuid_src t = om_uuid_src s \<and>
     (\<forall>i o1. get_order i s = Some o1 \<longrightarrow> (\<exists>o2. get_order i t = Some o2 \<and> order_evolves o1 o2))"

definition oms_step :: "oms \<Rightarrow> oms \<Rightarrow> bool" where
  "oms_step s t \<longleftrightarrow> (oms_ok s \<longrightarrow> oms_ok t \<and> oms_evolves s t)"

lemma oms_step_refl [simp, intro]: "oms_step s s"
  by (simp add: oms_step_def oms_evolves_def)

lemma oms_step_trans: "oms_step s t \<Longrightarrow> oms_step t u \<Longrightarrow> oms_step s u"
proof -
  have "oms_evolves s u" if st: "oms_evolves s t" "oms_evolves t u"
  proof -
    have "\<exists>c. get_order i u = Some c \<and> order_evolves a c" if a: "get_order i s = Some a" for i a
    proof -
      obtain b where b: "get_order i t = Some b" "order_evolves a b"
        using st(1) a unfolding oms_evolves_def by blast
      then obtain c where "get_order i u = Some c" "order_evolves b c"
        using st(2) unfolding oms_evolves_def by blast
      then show ?thesis using b(2) order_evolves_trans by blast
    qed
    then show ?thesis using st by (simp add: oms_evolves_def)
  qed
  then show "oms_step s t \<Longrightarrow> oms_step t u \<Longrightarrow> oms_step s u" by (auto simp: oms_step_def)
qed

text \<open>The part of the state the relation speaks about.\<close>

definition oms_core :: "oms \<Rightarrow>
    oms_config \<times> timestamp \<times> (nat \<Rightarrow> uuid) \<times> nat \<times> (uuid, oms_order) dict \<times> (coid, uuid) dict" where
  "oms_core s = (om_cfg s, om_now s, om_uuid_src s, om_uuid_n s, om_orders s, om_coids s)"

lemma oms_step_core: "oms_core t = oms_core s \<Longrightarrow> oms_step s t"
  by (auto simp: oms_core_def oms_step_def oms_ok_def oms_evolves_def get_order_def)

lemma safe_publish_core [simp]: "oms_core (fst (safe_publish tp e s)) = oms_core s"
  by (simp add: safe_publish_def oms_core_def Let_def split: prod.splits)

lemma get_order_upd [simp]:
  "get_order j (upd_order i f s) = (if j = i then map_option f (get_order i s) else get_order j s)"
  by (simp add: get_order_def upd_order_def)

lemma oms_step_upd:
  assumes "\<And>o1. get_order i s = Some o1 \<Longrightarrow> order_evolves o1 (f o1)"
  shows "oms_step s (upd_order i f s)"
proof -
  have "oms_ok (upd_order i f s)" if ok: "oms_ok s"
  proof (rule oms_okI)
    fix j o1 assume "get_order j (upd_order i f s) = Some o1"
    then obtain o0 where o0: "get_order j s = Some o0" "o1 = o0 \<or> (j = i \<and> o1 = f o0)"
      by (auto split: if_splits)
    have "o_id o1 = o_id o0" using o0 assms [of o0] order_evolves_id [of o0 "f o0"] by auto
    then show "o_id o1 = j \<and> j \<in> om_uuid_src (upd_order i f s) ` {..< om_uuid_n (upd_order i f s)}"
      using oms_okD(4,5) [OF ok o0(1)] by (auto simp: upd_order_def)
  next
    fix c j assume "dget (om_coids (upd_order i f s)) c = Some j"
    then have "dget (om_coids s) c = Some j" by (simp add: upd_order_def)
    from oms_okD(6) [OF ok this] obtain o0 where o0: "get_order j s = Some o0" "o_coid o0 = c" by blast
    then show "\<exists>o1. get_order j (upd_order i f s) = Some o1 \<and> o_coid o1 = c"
      using assms [of o0] order_evolves_id [of o0 "f o0"] by auto
  qed (use oms_okD(1-3) [OF ok] in \<open>simp_all add: upd_order_def\<close>)
  moreover have "oms_evolves s (upd_order i f s)"
    using assms by (auto simp: oms_evolves_def upd_order_def get_order_def)
  ultimately show ?thesis by (simp add: oms_step_def)
qed

lemma oms_step_try: "oms_step s (fst (try_transition i st t s))"
  by (auto simp: try_transition_def intro!: oms_step_upd evolves_transition split: option.splits sum.splits)

text \<open>A fresh order.\<close>

lemma uuid_fresh: "oms_ok s \<Longrightarrow> get_order (om_uuid_src s (om_uuid_n s)) s = None"
proof (rule ccontr)
  assume ok: "oms_ok s" and "get_order (om_uuid_src s (om_uuid_n s)) s \<noteq> None"
  then obtain o2 where "get_order (om_uuid_src s (om_uuid_n s)) s = Some o2" by auto
  from oms_okD(5) [OF ok this] obtain n
    where n: "n < om_uuid_n s" "om_uuid_src s (om_uuid_n s) = om_uuid_src s n" by blast
  from injD [OF oms_okD(3) [OF ok] n(2)] n(1) show False by linarith
qed

lemma track_order_fields:
  "om_cfg (track_order o1 (snd (uuid4 s))) = om_cfg s"
  "om_now (track_order o1 (snd (uuid4 s))) = om_now s"
  "om_uuid_src (track_order o1 (snd (uuid4 s))) = om_uuid_src s"
  "om_uuid_n (track_order o1 (snd (uuid4 s))) = Suc (om_uuid_n s)"
  "om_orders (track_order o1 (snd (uuid4 s))) = dset (o_id o1) o1 (om_orders s)"
  "om_coids (track_order o1 (snd (uuid4 s))) = dset (o_coid o1) (o_id o1) (om_coids s)"
  "get_order j (track_order o1 (snd (uuid4 s))) = (if j = o_id o1 then Some o1 else get_order j s)"
  by (simp_all add: track_order_def uuid4_def get_order_def)

lemma track_get_cases:
  assumes "get_order j (track_order o1 (snd (uuid4 s))) = Some o2"
  shows "(j = o_id o1 \<and> o2 = o1) \<or> get_order j s = Some o2"
  using assms by (simp add: track_order_fields split: if_splits)

lemma track_id_new:
  assumes i: "o_id o1 = om_uuid_src s (om_uuid_n s)" and 1: "j = o_id o1" "o2 = o1"
  shows "o_id o2 = j \<and> j \<in> om_uuid_src (track_order o1 (snd (uuid4 s))) `
      {..< om_uuid_n (track_order o1 (snd (uuid4 s)))}"
 using 1 i by (simp add: track_order_fields)

lemma track_id_old:
  assumes ok: "oms_ok s" and 2: "get_order j s = Some o2"
  shows "o_id o2 = j \<and> j \<in> om_uuid_src (track_order o1 (snd (uuid4 s))) `
      {..< om_uuid_n (track_order o1 (snd (uuid4 s)))}"
proof -
    from oms_okD(5) [OF ok 2] obtain n where "n < om_uuid_n s" "j = om_uuid_src s n" by blast
    then have "j \<in> om_uuid_src s ` {..< Suc (om_uuid_n s)}" by (intro image_eqI [of _ _ n]) simp_all
    then show ?thesis using oms_okD(4) [OF ok 2] by (simp only: track_order_fields)
qed

lemma track_coid_cases:
  assumes "dget (om_coids (track_order o1 (snd (uuid4 s)))) c = Some j"
  shows "(c = o_coid o1 \<and> j = o_id o1) \<or> dget (om_coids s) c = Some j"
 using assms   by (simp add: track_order_fields split: if_splits)

lemma track_coid_old:
  assumes ok: "oms_ok s" and i: "o_id o1 = om_uuid_src s (om_uuid_n s)" and 2: "dget (om_coids s) c = Some j"
 shows "\<exists>o2. get_order j (track_order o1 (snd (uuid4 s))) = Some o2 \<and> o_coid o2 = c"
proof -
    from oms_okD(6) [OF ok 2] obtain o2 where "get_order j s = Some o2" "o_coid o2 = c" by blast
    moreover from this have "j \<noteq> o_id o1" using uuid_fresh [OF ok] i by auto
    ultimately show ?thesis by (simp add: track_order_fields)
qed
lemma track_dicts:
  assumes ok: "oms_ok s"
 shows "dict_ok (om_orders (track_order o1 (snd (uuid4 s))))" "dict_ok (om_coids (track_order o1 (snd (uuid4 s))))"
   "inj (om_uuid_src (track_order o1 (snd (uuid4 s))))"
using oms_okD(1-3) [OF ok] by (simp_all only: track_order_fields dict_ok_dset)


lemma oms_ok_track:
  assumes ok: "oms_ok s" and i: "o_id o1 = om_uuid_src s (om_uuid_n s)"
  shows "oms_ok (track_order o1 (snd (uuid4 s)))"
proof (rule oms_okI)
  fix j o2 assume "get_order j (track_order o1 (snd (uuid4 s))) = Some o2"
  from track_get_cases [OF this]
  show "o_id o2 = j \<and> j \<in> om_uuid_src (track_order o1 (snd (uuid4 s))) `
      {..< om_uuid_n (track_order o1 (snd (uuid4 s)))}"
    using track_id_new [OF i] track_id_old [OF ok] by blast
next
  fix c j assume "dget (om_coids (track_order o1 (snd (uuid4 s)))) c = Some j"
  from track_coid_cases [OF this]
  show "\<exists>o2. get_order j (track_order o1 (snd (uuid4 s))) = Some o2 \<and> o_coid o2 = c"
  proof
    assume "c = o_coid o1 \<and> j = o_id o1"
    then show ?thesis by (simp add: track_order_fields(7))
  qed (rule track_coid_old [OF ok i])
qed (rule track_dicts [OF ok])+

lemma oms_step_track:
  assumes "o_id o1 = fst (uuid4 s)"
  shows "oms_step s (track_order o1 (snd (uuid4 s)))"
proof -
  have i: "o_id o1 = om_uuid_src s (om_uuid_n s)" using assms by (simp add: uuid4_def)
  have "\<exists>o3. get_order j (track_order o1 (snd (uuid4 s))) = Some o3 \<and> order_evolves o2 o3"
    if ok: "oms_ok s" and g: "get_order j s = Some o2" for j o2
  proof -
    have "j \<noteq> o_id o1" using uuid_fresh [OF ok] i g by auto
    with g show ?thesis by (simp add: track_order_fields)
  qed
  then show ?thesis using oms_ok_track [OF _ i]
    by (simp add: oms_step_def oms_evolves_def track_order_fields(1-3))
qed

subsection \<open>Every operation is a step\<close>

text \<open>Composition: a step followed by one primitive.\<close>

lemma st_core: "oms_step s t \<Longrightarrow> oms_core u = oms_core t \<Longrightarrow> oms_step s u"
  using oms_step_core oms_step_trans by blast

lemma st_publish: "safe_publish tp e t = (u, b) \<Longrightarrow> oms_step s t \<Longrightarrow> oms_step s u"
  using st_core [of s t u] safe_publish_core [of tp e t] by simp

lemma st_publish': "oms_step s t \<Longrightarrow> oms_step s (fst (safe_publish tp e t))"
  by (rule st_core) simp_all

lemma st_open_orders: "oms_step s t \<Longrightarrow> oms_step s (publish_open_orders t)"
  unfolding publish_open_orders_def by (rule st_publish')

lemma st_try: "try_transition i st n t = (u, b) \<Longrightarrow> oms_step s t \<Longrightarrow> oms_step s u"
  using oms_step_trans [of s t u] oms_step_try [of t i st n] by simp

lemma st_try': "oms_step s t \<Longrightarrow> oms_step s (fst (try_transition i st n t))"
  using oms_step_trans oms_step_try by blast

lemma st_upd:
  "oms_step s t \<Longrightarrow> (\<And>o1. get_order i t = Some o1 \<Longrightarrow> order_evolves o1 (f o1)) \<Longrightarrow>
   oms_step s (upd_order i f t)"
  using oms_step_trans oms_step_upd by blast

lemma st_fold: "(\<And>x t. oms_step t (f x t)) \<Longrightarrow> oms_step s (fold f xs s)"
  by (induction xs arbitrary: s) (auto intro: oms_step_trans)

lemma evolves_fields [simp, intro]:
  "order_evolves o1 (o1\<lparr>o_reject_reason := r\<rparr>)"
  "order_evolves o1 (o1\<lparr>o_exchange_id := x\<rparr>)"
  "order_evolves o1 (o1\<lparr>o_pending_amend := p\<rparr>)"
  "order_evolves o1 (o1\<lparr>o_cumulative := c\<rparr>)"
  by (simp_all add: order_evolves_def order_static_def)

lemma evolves_live:
  "\<not> order_is_terminal o1 \<Longrightarrow> order_evolves o1 (o1\<lparr>o_price := p, o_quantity := q, o_pending_amend := pa, o_exchange_id := x\<rparr>)"
  "\<not> order_is_terminal o1 \<Longrightarrow> order_evolves o1 (o1\<lparr>o_cumulative := c, o_quantity := q, o_price := p\<rparr>)"
  by (simp_all add: order_evolves_def order_static_def)

lemma step_cancel_order: "oms_step s (fst (cancel_order i s))"
  by (auto simp: cancel_order_def intro: st_publish' st_try split: option.splits prod.splits bool.splits)

lemma step_safe_cancel [simp, intro]: "oms_step s (safe_cancel i s)"
  unfolding safe_cancel_def by (rule step_cancel_order)

lemma step_cancel_if [simp, intro]: "oms_step s (cancel_if P i s)"
  by (auto simp: cancel_if_def split: option.splits)

lemma step_retire [simp, intro]: "oms_step s (retire_algo lid s)"
  by (rule oms_step_core) (simp add: retire_algo_def oms_core_def)

lemma step_cancel_children: "oms_step s (cancel_children lid s)"
  unfolding cancel_children_def by (rule st_fold) simp

lemma step_cancel_resting: "oms_step s (cancel_resting sid iid s)"
  unfolding cancel_resting_def by (rule st_fold) simp

lemma step_cancel_all: "oms_step s (cancel_all_resting s)"
  unfolding cancel_all_resting_def Let_def
  by (rule oms_step_trans; rule st_fold) simp_all

lemma step_cancel_strategy: "oms_step s (fst (cancel_strategy_orders sid s))"
  unfolding cancel_strategy_orders_def Let_def fst_conv
  by (rule oms_step_trans; rule st_fold) simp_all

lemma step_submit_order: "oms_step s (submit_order sid ins sd ty q p tif parent up s)"
proof -
  obtain i s1 where u: "uuid4 s = (i, s1)" by fastforce
  let ?o = "new_order i (mint_coid sid i) sid ins sd ty q p tif (om_now s1) parent"
  have "oms_step s (track_order ?o s1)"
    using oms_step_track [of ?o s] u by (simp add: new_order_def)
  then show ?thesis
    by (auto simp: submit_order_def u Let_def intro!: st_upd st_try' dest: st_publish
        split: prod.splits bool.splits)
qed

lemma step_place_quote: "oms_step s (place_quote sg leg ts s)"
  unfolding place_quote_def by (rule step_submit_order)

lemma step_submit_child: "oms_step s (submit_child lid spec s)"
  by (auto simp: submit_child_def intro: step_submit_order split: option.splits prod.splits)

lemma step_amend_quote: "oms_step s (amend_quote i leg s)"
  by (auto simp: amend_quote_def intro!: st_publish' st_upd intro: st_try
      split: option.splits prod.splits bool.splits)

lemma step_stp: "stp_blocks sg leg s = (t, b) \<Longrightarrow> oms_step s t"
  by (rule oms_step_core) (auto simp: stp_blocks_def oms_core_def split: if_splits option.splits)

lemma step_reconcile_leg: "oms_step s (fst (reconcile_leg sg ts resting leg (s, m)))"
  by (auto simp: reconcile_leg_def dest: step_stp
      intro: oms_step_trans [OF _ step_place_quote] oms_step_trans [OF _ step_amend_quote]
      split: option.splits prod.splits bool.splits)

lemma step_reconcile_legs: "oms_step (fst st) (fst (fold (reconcile_leg sg ts resting) legs st))"
proof (induction legs arbitrary: st)
  case Nil
  then show ?case by simp
next
  case (Cons leg legs)
  have "oms_step (fst st) (fst (reconcile_leg sg ts resting leg st))"
    using step_reconcile_leg [of "fst st" sg ts resting leg "snd st"] by simp
  then show ?case using Cons.IH oms_step_trans by (simp only: fold.simps comp_apply)
qed

lemma step_reconcile_immediate: "oms_step s (reconcile_immediate sg legs ts s)"
proof -
  obtain s1 m where f: "fold (reconcile_leg sg ts (resting_orders sg s)) legs (s, []) = (s1, m)"
    by fastforce
  then have "oms_step s s1" using step_reconcile_legs [of "(s, [])"] by (metis fst_conv)
  moreover have "oms_step s1 (fold (cancel_if P) xs s1)" for P xs by (rule st_fold) simp
  ultimately show ?thesis unfolding reconcile_immediate_def Let_def f prod.case by (rule oms_step_trans)
qed


lemma step_drive_algo: "oms_step s (drive_algo lid s)"
proof (cases "dget (om_algos s) lid")
  case None
  then show ?thesis by (simp add: drive_algo_def)
next
  case (Some a)
  obtain spec a' where n: "next_slice (om_now s) a = (spec, a')" by fastforce
  let ?s1 = "s\<lparr>om_algos := dmod lid (\<lambda>_. a') (om_algos s)\<rparr>"
  have 1: "oms_step s ?s1" by (rule oms_step_core) (simp add: oms_core_def)
  let ?s2 = "case spec of None \<Rightarrow> ?s1 | Some sp \<Rightarrow> publish_open_orders (submit_child lid sp ?s1)"
  have 2: "oms_step s ?s2"
    using 1 by (auto intro!: st_open_orders oms_step_trans [OF 1 step_submit_child] split: option.splits)
  have "oms_step s (retire_algo lid ?s2)" by (rule oms_step_trans [OF 2 step_retire])
  with 2 show ?thesis by (simp add: drive_algo_def Some n Let_def)
qed

lemma step_withdraw_leg: "oms_step s (withdraw_leg sg ds lid s)"
  by (auto simp: withdraw_leg_def intro: oms_step_trans [OF step_retire step_cancel_children]
      split: option.splits prod.splits)

lemma step_start_leg: "oms_step s (start_leg sg la s)"
  by (auto simp: start_leg_def oms_core_def intro!: oms_step_core
      oms_step_trans [OF oms_step_core step_drive_algo] split: prod.splits)

lemma step_reconcile_sliced: "oms_step s (reconcile_sliced sg sl s)"
  unfolding reconcile_sliced_def Let_def
  by (rule oms_step_trans; rule st_fold) (rule step_withdraw_leg step_start_leg)+

lemma step_emit_routed: "oms_step s (emit_routed sg leg nm s)"
  unfolding emit_routed_def by (rule st_publish') simp

lemma step_route_legs: "oms_step s (fst (route_legs sg ctx legs s))"
proof (induction legs arbitrary: s)
  case Nil
  then show ?case by simp
next
  case (Cons leg legs)
  show ?case
  proof (cases "route (oc_router (om_cfg s)) leg ctx")
    case (Inl e)
    then show ?thesis by simp
  next
    case (Inr d)
    let ?s1 = "emit_routed sg leg (decision_algo_name d) s"
    have "oms_step s (fst (route_legs sg ctx legs ?s1))"
      using oms_step_trans [OF step_emit_routed Cons.IH] .
    then show ?thesis using Inr by (auto split: prod.splits sum.splits option.splits)
  qed
qed

lemma step_reconcile_quotes: "oms_step s (fst (reconcile_quotes sg ts s))"
proof -
  obtain s1 r where r: "route_legs sg \<lparr>rc_now_ns = om_now s, rc_instrument = sig_instrument sg,
      rc_last_mark = dget (om_marks s) (instrument_id (sig_instrument sg))\<rparr> (sig_legs sg) s = (s1, r)"
    by fastforce
  then have 1: "oms_step s s1" using step_route_legs by (metis fst_conv)
  have "oms_step s (publish_open_orders (reconcile_sliced sg sl (reconcile_immediate sg imm ts s1)))" for sl imm
    using 1 step_reconcile_immediate step_reconcile_sliced by (blast intro: st_open_orders oms_step_trans)
  then show ?thesis using 1 by (auto simp: reconcile_quotes_def r Let_def split: sum.splits)
qed

lemma step_on_risk_decision: "oms_step s (fst (on_risk_decision e s))"
proof -
  have "oms_step s (s\<lparr>om_signals := m\<rparr>)" for m by (rule oms_step_core) (simp add: oms_core_def)
  then show ?thesis
    by (auto simp: on_risk_decision_def Let_def intro: oms_step_trans [OF _ step_cancel_resting]
        oms_step_trans [OF _ step_reconcile_quotes] split: event.splits option.splits prod.splits)
qed

lemma step_on_signal: "oms_step s (on_signal e s)"
  by (rule oms_step_core)
     (simp add: on_signal_def evict_stale_signals_def Let_def oms_core_def split: event.splits)

lemma step_on_market_data: "oms_step s (on_market_data e s)"
  by (rule oms_step_core) (simp add: on_market_data_def oms_core_def split: event.splits)

lemma step_on_alert: "oms_step s (on_alert e s)"
  by (simp add: on_alert_def step_cancel_all split: event.splits)

lemma step_handle_ack: "oms_step s (handle_ack ev s)"
  by (auto simp: handle_ack_def intro!: st_upd dest: st_try split: prod.splits bool.splits)

lemma step_handle_reject: "oms_step s (handle_reject ev s)"
  by (auto simp: handle_reject_def intro!: st_upd dest: st_try split: prod.splits bool.splits)

lemma step_handle_cancel: "oms_step s (handle_cancel ev s)"
  unfolding handle_cancel_def by (rule st_try') simp

lemma step_handle_cancel_rejected: "oms_step s (handle_cancel_rejected ev s)"
  unfolding handle_cancel_rejected_def by (rule st_try') simp

lemma step_handle_amend_rejected: "oms_step s (handle_amend_rejected ev s)"
  by (auto simp: handle_amend_rejected_def Let_def intro!: st_try' st_upd split: option.splits)

lemma try_transition_live: "try_transition i st n s = (t, True) \<Longrightarrow> get_order i t = Some o1 \<Longrightarrow> o_status o1 = st"
  by (auto simp: try_transition_def transition_to_ok split: option.splits sum.splits)

lemma step_handle_amend: "oms_step s (handle_amend ev s)"
proof -
  have "oms_step s (upd_order i (commit_amend ev) t)"
    if t: "try_transition i ACKNOWLEDGED n s = (t, True)" for t i n
  proof (rule st_upd)
    show "oms_step s t" using t by (rule st_try) simp
    fix o1 assume "get_order i t = Some o1"
    then have "\<not> order_is_terminal o1" using try_transition_live [OF t] by (simp add: order_is_terminal_def)
    then show "order_evolves o1 (commit_amend ev o1)"
      unfolding commit_amend_def by (simp add: order_evolves_def order_static_def)
  qed
  then show ?thesis
    by (auto simp: handle_amend_def clear_pending_amend_def intro!: st_upd dest: st_try
        split: option.splits prod.splits bool.splits)
qed

lemma step_on_order_event: "oms_step s (on_order_event e s)"
  by (auto simp: on_order_event_def step_handle_ack step_handle_cancel_rejected
      step_handle_amend_rejected intro!: st_open_orders step_handle_reject step_handle_cancel
      step_handle_amend split: event.splits)

lemma step_notify_algo: "oms_step s (notify_algo f o1 s)"
proof -
  have "oms_step s (s\<lparr>om_algos := m\<rparr>)" for m by (rule oms_step_core) (simp add: oms_core_def)
  then show ?thesis
    by (auto simp: notify_algo_def Let_def intro: oms_step_trans [OF _ step_retire] split: option.splits)
qed

lemma step_on_fill: "oms_step s (on_fill e s)"
proof -
  have 1: "oms_step s (upd_order i (\<lambda>_. fst (record_fill f o1)) s)"
    if "get_order i s = Some o1" for i f o1
    using that by (intro oms_step_upd) (auto intro: evolves_record_fill)
  have 2: "oms_step s (upd_order i (\<lambda>_. fst (apply_fill f o1)) s)"
    if "get_order i s = Some o1" for i f o1
    using that by (intro oms_step_upd) (auto intro: evolves_apply_fill)
  have 3: "oms_step s (upd_order i (\<lambda>_. o2) s)"
    if "get_order i s = Some o1" "record_fill f o1 = (o2, b)" for i f o1 o2 b
    using 1 [OF that(1), of f] that(2) by simp
  have 4: "oms_step s (upd_order i (\<lambda>_. o2) s)"
    if "get_order i s = Some o1" "apply_fill f o1 = (o2, r)" for i f o1 o2 r
    using 2 [OF that(1), of f] that(2) by simp
  show ?thesis
    by (auto simp: on_fill_def intro!: st_open_orders intro: 3 4 oms_step_trans [OF _ step_notify_algo]
        split: event.splits option.splits prod.splits bool.splits sum.splits)
qed

lemma step_sweep_one: "oms_step s (sweep_one n i s)"
  by (auto simp: sweep_one_def clear_pending_amend_def intro!: st_try' st_upd split: option.splits)

lemma step_sweep: "oms_step s (sweep_stale_pending_amends s)"
proof -
  have "oms_step s (s\<lparr>om_last_amend_sweep := n\<rparr>)" for n
    by (rule oms_step_core) (simp add: oms_core_def)
  moreover have "oms_step t (fold (sweep_one m) xs t)" for m xs t
    by (rule st_fold) (rule step_sweep_one)
  ultimately have "oms_step s (fold (sweep_one m) xs (s\<lparr>om_last_amend_sweep := n\<rparr>))" for m n xs
    by (rule oms_step_trans)
  then show ?thesis by (simp add: sweep_stale_pending_amends_def Let_def)
qed

lemma step_driver_tick: "oms_step s (algo_driver_tick s)"
proof -
  have "oms_step s (fold drive_algo xs s)" for xs by (rule st_fold) (rule step_drive_algo)
  then show ?thesis unfolding algo_driver_tick_def by (rule oms_step_trans) (rule step_sweep)
qed

lemma step_refresh: "oms_step s (refresh_adopted_order i q c p s)"
  by (auto simp: refresh_adopted_order_def intro!: oms_step_upd evolves_live split: option.splits)

lemma step_adopt: "oms_step s (fst (adopt_order ins c sd ty q cum p tif exch created s))"
proof (cases "dget (om_coids s) c")
  case (Some i)
  then show ?thesis by (simp add: adopt_order_def step_refresh)
next
  case None
  obtain i s1 where u: "uuid4 s = (i, s1)" by fastforce
  let ?o = "(new_order i c (strategy_id_from_client_order_id c) ins sd ty q p tif
      (case created of Some t \<Rightarrow> t | None \<Rightarrow> om_now s1) None)
      \<lparr>o_status := (if 0 < cum then PARTIALLY_FILLED else ACKNOWLEDGED),
       o_cumulative := cum, o_exchange_id := exch\<rparr>"
  have "oms_step s (track_order ?o s1)"
    using oms_step_track [of ?o s] u by (simp add: new_order_def)
  then show ?thesis
    by (auto simp: adopt_order_def None u Let_def intro!: st_open_orders st_publish' split: option.splits)
qed

lemma step_terminalize: "oms_step s (terminalize_from_venue i st cum s)"
proof -
  have 1: "oms_step s (upd_order i (\<lambda>o2. o2\<lparr>o_cumulative := q\<rparr>) s)" for q
    by (rule oms_step_upd) simp
  show ?thesis
    by (auto simp: terminalize_from_venue_def Let_def 1
        intro!: st_open_orders dest: st_try [OF _ 1] st_try [OF _ oms_step_refl]
        split: option.splits prod.splits bool.splits)
qed


subsection \<open>Histories of the engine\<close>

text \<open>
  Everything that can happen to the OMS: a delivery to one of its handlers, a turn of the driver
  loop, a call of its public operations, the clock moving, and the bus being used by the others.
\<close>

inductive oms_trans :: "oms \<Rightarrow> oms \<Rightarrow> bool" where
  signal: "oms_trans s (on_signal e s)"
| decision: "oms_trans s (fst (on_risk_decision e s))"
| alert: "oms_trans s (on_alert e s)"
| order_event: "oms_trans s (on_order_event e s)"
| fill: "oms_trans s (on_fill e s)"
| market_data: "oms_trans s (on_market_data e s)"
| driver: "oms_trans s (algo_driver_tick s)"
| cancel: "oms_trans s (fst (cancel_order i s))"
| pause: "oms_trans s (fst (cancel_strategy_orders sid s))"
| adopt: "oms_trans s (fst (adopt_order ins c sd ty q cum p tif exch created s))"
| terminalize: "oms_trans s (terminalize_from_venue i st q' s)"
| clock: "oms_trans s (s\<lparr>om_now := n\<rparr>)"
| bus: "oms_trans s (s\<lparr>om_bus := b\<rparr>)"

inductive oms_reach :: "oms \<Rightarrow> oms \<Rightarrow> bool" where
  here: "oms_reach s s"
| there: "oms_reach s t \<Longrightarrow> oms_trans t u \<Longrightarrow> oms_reach s u"

inductive_cases oms_reachE: "oms_reach s t"

text \<open>The orders of one state followed into another.\<close>

definition orders_evolve :: "oms \<Rightarrow> oms \<Rightarrow> bool" where
  "orders_evolve s t \<longleftrightarrow>
     (\<forall>i o1. get_order i s = Some o1 \<longrightarrow> (\<exists>o2. get_order i t = Some o2 \<and> order_evolves o1 o2))"

lemma orders_evolve_refl: "orders_evolve s s"
  by (auto simp: orders_evolve_def)

lemma orders_evolve_trans: "orders_evolve s t \<Longrightarrow> orders_evolve t u \<Longrightarrow> orders_evolve s u"
  unfolding orders_evolve_def using order_evolves_trans by (metis (no_types, lifting))

lemma step_conv: "oms_step s t \<Longrightarrow> oms_ok s \<Longrightarrow> oms_ok t \<and> orders_evolve s t"
  by (simp add: oms_step_def oms_evolves_def orders_evolve_def)

lemma oms_trans_step: "oms_trans s t \<Longrightarrow> oms_ok s \<Longrightarrow> oms_ok t \<and> orders_evolve s t"
proof (induction rule: oms_trans.induct)
  case (clock s n)
  then show ?case by (auto simp: oms_ok_def orders_evolve_def get_order_def)
next
  case (bus s b)
  then show ?case by (auto simp: oms_ok_def orders_evolve_def get_order_def)
qed (erule step_conv [rotated], rule step_on_signal step_on_risk_decision step_on_alert
    step_on_order_event step_on_fill step_on_market_data step_driver_tick step_cancel_order
    step_cancel_strategy step_adopt step_terminalize)+

lemma oms_reach_ok: "oms_reach s t \<Longrightarrow> oms_ok s \<Longrightarrow> oms_ok t \<and> orders_evolve s t"
proof (induction rule: oms_reach.induct)
  case (here s)
  then show ?case by (simp add: orders_evolve_refl)
next
  case (there s t u)
  then show ?case using oms_trans_step orders_evolve_trans by blast
qed

lemma oms_init_ok: "inj src \<Longrightarrow> oms_ok (oms_init cfg src b n)"
  by (simp add: oms_ok_def oms_init_def get_order_def)

end
