(* ===== verification/OMS_Reconcile.thy ===== *)
theory OMS_Reconcile
  imports OMS_Properties
begin

text \<open>
  The reconciliation of a signal's plain legs (\<open>_reconcile_immediate\<close>): one invariant of its
  loop over the legs, from which follow the two contracts the code states for it, that a signal
  is a snapshot of what the strategy wants resting, and that a strategy is never matched against
  a sibling's live order.
\<close>

subsection \<open>Siblings\<close>

definition sibling_cross :: "strategy_id \<Rightarrow> string \<Rightarrow> side \<Rightarrow> dec option \<Rightarrow> oms \<Rightarrow> bool" where
  "sibling_cross sid iid sd price s \<longleftrightarrow>
     (\<exists>p o1. price = Some p \<and> o1 \<in> set (dvals (om_orders s)) \<and> o_strategy o1 \<noteq> sid \<and>
        instrument_id (o_instrument o1) = iid \<and> o_status o1 \<in> set stp_live_statuses \<and> crosses sd p o1)"

lemma crosses_other_None:
  "crosses_other_strategy sid iid sd price s = None \<longleftrightarrow> \<not> sibling_cross sid iid sd price s"
  by (auto simp: crosses_other_strategy_def sibling_cross_def find_None_all crosses_def
      split: option.splits)

lemma stp_blocks_cases:
  "stp_blocks sg leg s = (t, b) \<Longrightarrow>
     (\<forall>i. get_order i t = get_order i s) \<and> om_orders t = om_orders s \<and> om_sent t = om_sent s \<and>
     om_cfg t = om_cfg s \<and> om_uuid_src t = om_uuid_src s \<and> om_uuid_n t = om_uuid_n s \<and>
     (b \<longleftrightarrow> oc_stp_enabled (om_cfg s) \<and>
        sibling_cross (sig_strategy sg) (instrument_id (sig_instrument sg)) (leg_side leg) (leg_price leg) s)"
  using crosses_other_None [of "sig_strategy sg" "instrument_id (sig_instrument sg)" "leg_side leg" "leg_price leg" s]
  by (auto simp: stp_blocks_def get_order_def split: if_splits option.splits)

subsection \<open>The parts of the loop\<close>

lemma submit_effect:
  "\<exists>oN rq ok.
     o_status oN \<in> {PENDING_NEW, REJECTED} \<and> o_strategy oN = sid \<and>
     (\<forall>j. get_order j (submit_order sid ins sd ty q p tif parent up s) =
            (if j = om_uuid_src s (om_uuid_n s) then Some oN else get_order j s)) \<and>
     om_sent (submit_order sid ins sd ty q p tif parent up s) = om_sent s @ [(ORDERS, EvOrderRequest rq, ok)] \<and>
     rq_strategy rq = sid \<and> rq_instrument rq = ins \<and> rq_side rq = sd \<and> rq_price rq = p \<and> rq_quantity rq = q \<and>
     om_cfg (submit_order sid ins sd ty q p tif parent up s) = om_cfg s"
proof -
  let ?i = "om_uuid_src s (om_uuid_n s)"
  let ?s1 = "s\<lparr>om_uuid_n := Suc (om_uuid_n s)\<rparr>"
  let ?o = "new_order ?i (mint_coid sid ?i) sid ins sd ty q p tif (om_now s) parent"
  let ?s2 = "track_order ?o ?s1"
  have g2: "get_order j ?s2 = (if j = ?i then Some ?o else get_order j s)" for j
    by (simp add: track_order_def get_order_def new_order_def)
  have f2: "om_sent ?s2 = om_sent s" "om_cfg ?s2 = om_cfg s" by (simp_all add: track_order_def)
  let ?rq = "\<lparr>ts_event = om_now s, ts_ingest = om_now s, source = oc_source (om_cfg s),
      rq_order_id = ?i, rq_coid = mint_coid sid ?i, rq_strategy = sid, rq_instrument = ins,
      rq_side = sd, rq_type = ty, rq_quantity = q, rq_price = p, rq_stop_price = None, rq_tif = tif,
      rq_upstream = up\<rparr>"
  have sub: "submit_order sid ins sd ty q p tif parent up s =
      (case safe_publish ORDERS (EvOrderRequest ?rq) ?s2 of
         (s3, True) \<Rightarrow> s3
       | (s3, False) \<Rightarrow> upd_order ?i (\<lambda>o1. o1\<lparr>o_reject_reason := Some backpressure_reason\<rparr>)
           (fst (try_transition ?i REJECTED (om_now s3) s3)))"
    by (simp add: submit_order_def uuid4_def Let_def track_order_def)
  obtain s3 b where p: "safe_publish ORDERS (EvOrderRequest ?rq) ?s2 = (s3, b)" by fastforce
  have g3: "get_order j s3 = (if j = ?i then Some ?o else get_order j s)" for j
    using publish_orders(1) [of j ORDERS "EvOrderRequest ?rq" ?s2] p g2 by simp
  have f3: "om_sent s3 = om_sent s @ [(ORDERS, EvOrderRequest ?rq, b)]" "om_cfg s3 = om_cfg s"
    using publish_sent [of ORDERS "EvOrderRequest ?rq" ?s2] publish_orders(7) [of ORDERS "EvOrderRequest ?rq" ?s2] p f2
    by simp_all
  let ?oR = "?o\<lparr>o_status := REJECTED, o_last_update := om_now s3, o_reject_reason := Some backpressure_reason\<rparr>"
  have tr: "try_transition ?i REJECTED (om_now s3) s3 =
      (upd_order ?i (\<lambda>_. ?o\<lparr>o_status := REJECTED, o_last_update := om_now s3\<rparr>) s3, True)"
    using g3 by (simp add: try_transition_def transition_to_def new_order_def validate_transition_def)
  show ?thesis
  proof (cases b)
    case True
    then show ?thesis using sub p g3 f3
      by (intro exI [of _ ?o] exI [of _ ?rq] exI [of _ True]) (simp add: new_order_def)
  next
    case False
    have "submit_order sid ins sd ty q p tif parent up s =
        upd_order ?i (\<lambda>o1. o1\<lparr>o_reject_reason := Some backpressure_reason\<rparr>)
          (upd_order ?i (\<lambda>_. ?o\<lparr>o_status := REJECTED, o_last_update := om_now s3\<rparr>) s3)"
      using sub p False tr by simp
    then show ?thesis using g3 f3 False
      by (intro exI [of _ ?oR] exI [of _ ?rq] exI [of _ False]) (simp add: new_order_def)
  qed
qed

lemma amend_effect:
  assumes "get_order i s = Some o1" and "o_status o1 \<in> set amendable"
  shows "\<exists>o2 ar ok. o_status o2 = PENDING_AMEND \<and> order_static o2 = order_static o1 \<and>
    o_pending_amend o2 = Some (leg_price leg, leg_quantity leg) \<and>
    (\<forall>j. get_order j (amend_quote i leg s) = (if j = i then Some o2 else get_order j s)) \<and>
    om_sent (amend_quote i leg s) = om_sent s @ [(ORDERS, EvAmendRequest ar, ok)] \<and>
    ar_side ar = o_side o1 \<and> ar_new_price ar = leg_price leg \<and> ar_new_quantity ar = Some (leg_quantity leg) \<and>
    ar_order_id ar = i \<and> om_cfg (amend_quote i leg s) = om_cfg s"
proof -
  have v: "validate_transition (Some (o_status o1)) PENDING_AMEND = Inr ()"
    using assms(2) by (auto simp: amendable_def validate_transition_def)
  let ?a = "o1\<lparr>o_status := PENDING_AMEND, o_last_update := om_now s\<rparr>"
  let ?b = "?a\<lparr>o_pending_amend := Some (leg_price leg, leg_quantity leg)\<rparr>"
  let ?t = "upd_order i (\<lambda>o2. o2\<lparr>o_pending_amend := Some (leg_price leg, leg_quantity leg)\<rparr>) (upd_order i (\<lambda>_. ?a) s)"
  let ?ar = "\<lparr>ts_event = om_now s, ts_ingest = om_now s, source = oc_source (om_cfg s),
      ar_order_id = i, ar_coid = o_coid o1, ar_instrument = o_instrument o1, ar_side = o_side o1,
      ar_new_quantity = Some (leg_quantity leg), ar_new_price = leg_price leg\<rparr>"
  have am: "amend_quote i leg s = fst (safe_publish ORDERS (EvAmendRequest ?ar) ?t)"
    using assms(1) v by (simp add: amend_quote_def try_transition_def transition_to_def)
  have "get_order j (amend_quote i leg s) = (if j = i then Some ?b else get_order j s)" for j
    using assms(1) by (simp add: am)
  moreover have "om_sent (amend_quote i leg s) =
      om_sent s @ [(ORDERS, EvAmendRequest ?ar, snd (safe_publish ORDERS (EvAmendRequest ?ar) ?t))]"
    by (simp add: am publish_sent upd_order_def)
  moreover have "om_cfg (amend_quote i leg s) = om_cfg s" by (simp add: am upd_order_def)
  ultimately show ?thesis
    by (intro exI [of _ ?b] exI [of _ ?ar]) (auto simp: order_static_def)
qed

lemma first_unmatched_Some:
  "first_unmatched resting m P s = Some i \<Longrightarrow>
     i \<in> set resting \<and> i \<notin> set m \<and> (\<exists>o1. get_order i s = Some o1 \<and> P o1)"
  by (auto simp: first_unmatched_def dest!: find_Some_iff split: option.splits)

subsection \<open>The invariant of the loop over the legs\<close>

text \<open>An event sent is safe when it asks for nothing that crosses a live sibling order of \<open>s0\<close>.\<close>

fun sent_safe :: "signal_event \<Rightarrow> oms \<Rightarrow> topic \<times> event \<times> bool \<Rightarrow> bool" where
  "sent_safe sg s0 (t, EvOrderRequest rq, ok) =
     (rq_strategy rq = sig_strategy sg \<and>
      \<not> sibling_cross (sig_strategy sg) (instrument_id (sig_instrument sg)) (rq_side rq) (rq_price rq) s0)"
| "sent_safe sg s0 (t, EvAmendRequest ar, ok) =
     (\<not> sibling_cross (sig_strategy sg) (instrument_id (sig_instrument sg)) (ar_side ar) (ar_new_price ar) s0)"
| "sent_safe sg s0 _ = True"

text \<open>A resting order may keep its place for one of the legs.\<close>

definition kept_for :: "signal_event \<Rightarrow> oms \<Rightarrow> oms_order \<Rightarrow> order_leg \<Rightarrow> bool" where
  "kept_for sg s0 o1 leg \<longleftrightarrow>
     exact_match leg o1 \<or>
     (o_side o1 = leg_side leg \<and> oc_stp_enabled (om_cfg s0) \<and>
      sibling_cross (sig_strategy sg) (instrument_id (sig_instrument sg)) (leg_side leg) (leg_price leg) s0)"

definition rec_inv :: "signal_event \<Rightarrow> oms \<Rightarrow> uuid list \<Rightarrow> order_leg list \<Rightarrow> oms \<Rightarrow> uuid list \<Rightarrow> bool" where
  "rec_inv sg s0 resting legs s m \<longleftrightarrow>
     oms_ok s \<and> om_cfg s = om_cfg s0 \<and> set m \<subseteq> set resting \<and> distinct m \<and> length m \<le> length legs \<and>
     (\<forall>i o1. get_order i s0 = Some o1 \<and> i \<notin> set m \<longrightarrow> get_order i s = Some o1) \<and>
     (\<forall>i \<in> set m. \<exists>o1. get_order i s = Some o1 \<and> o_strategy o1 = sig_strategy sg \<and>
        (o_status o1 \<in> set amendable \<longrightarrow>
           get_order i s0 = Some o1 \<and> (\<exists>leg \<in> set legs. kept_for sg s0 o1 leg))) \<and>
     (\<forall>i o1. get_order i s = Some o1 \<and> get_order i s0 = None \<longrightarrow>
        o_status o1 \<in> {PENDING_NEW, REJECTED} \<and> o_strategy o1 = sig_strategy sg) \<and>
     (oc_stp_enabled (om_cfg s0) \<longrightarrow>
        (\<exists>ext. om_sent s = om_sent s0 @ ext \<and> (\<forall>x \<in> set ext. sent_safe sg s0 x)))"

lemma rec_invD:
  assumes "rec_inv sg s0 resting legs s m"
  shows "oms_ok s" "om_cfg s = om_cfg s0" "set m \<subseteq> set resting" "distinct m" "length m \<le> length legs"
    "get_order i s0 = Some o1 \<Longrightarrow> i \<notin> set m \<Longrightarrow> get_order i s = Some o1"
    "i \<in> set m \<Longrightarrow> \<exists>o1. get_order i s = Some o1 \<and> o_strategy o1 = sig_strategy sg \<and>
        (o_status o1 \<in> set amendable \<longrightarrow>
           get_order i s0 = Some o1 \<and> (\<exists>leg \<in> set legs. kept_for sg s0 o1 leg))"
    "get_order i s = Some o1 \<Longrightarrow> get_order i s0 = None \<Longrightarrow>
       o_status o1 \<in> {PENDING_NEW, REJECTED} \<and> o_strategy o1 = sig_strategy sg"
    "oc_stp_enabled (om_cfg s0) \<Longrightarrow>
       \<exists>ext. om_sent s = om_sent s0 @ ext \<and> (\<forall>x \<in> set ext. sent_safe sg s0 x)"
  using assms unfolding rec_inv_def by blast+

lemma rec_invI:
  assumes "oms_ok s" and "om_cfg s = om_cfg s0" and "set m \<subseteq> set resting" and "distinct m"
    and "length m \<le> length legs"
    and "\<And>i o1. get_order i s0 = Some o1 \<Longrightarrow> i \<notin> set m \<Longrightarrow> get_order i s = Some o1"
    and "\<And>i. i \<in> set m \<Longrightarrow> \<exists>o1. get_order i s = Some o1 \<and> o_strategy o1 = sig_strategy sg \<and>
        (o_status o1 \<in> set amendable \<longrightarrow>
           get_order i s0 = Some o1 \<and> (\<exists>leg \<in> set legs. kept_for sg s0 o1 leg))"
    and "\<And>i o1. get_order i s = Some o1 \<Longrightarrow> get_order i s0 = None \<Longrightarrow>
       o_status o1 \<in> {PENDING_NEW, REJECTED} \<and> o_strategy o1 = sig_strategy sg"
    and "oc_stp_enabled (om_cfg s0) \<Longrightarrow>
       \<exists>ext. om_sent s = om_sent s0 @ ext \<and> (\<forall>x \<in> set ext. sent_safe sg s0 x)"
  shows "rec_inv sg s0 resting legs s m"
  unfolding rec_inv_def using assms by blast

lemma rec_inv_sibling:
  assumes "rec_inv sg s0 resting legs s m" and "oms_ok s0" 
    and "\<forall>i \<in> set resting. \<exists>o1. get_order i s0 = Some o1 \<and> o_strategy o1 = sig_strategy sg"
  shows "sibling_cross (sig_strategy sg) iid sd p s = sibling_cross (sig_strategy sg) iid sd p s0"
proof -
  have mem: "o1 \<in> set (dvals (om_orders u)) \<longleftrightarrow> (\<exists>i. get_order i u = Some o1)" if "oms_ok u" for u o1
    using dget_mem [OF oms_okD(1) [OF that]] by (auto simp: dvals_mem get_order_def)
  have ok: "oms_ok s" using assms(1) by (simp add: rec_inv_def)
  have "o1 \<in> set (dvals (om_orders s)) \<longleftrightarrow> o1 \<in> set (dvals (om_orders s0))"
    if sib: "o_strategy o1 \<noteq> sig_strategy sg" for o1
  proof
    assume "o1 \<in> set (dvals (om_orders s))"
    then obtain i where i: "get_order i s = Some o1" using mem [OF ok] by blast
    have nm: "i \<notin> set m" using rec_invD(7) [OF assms(1), of i] i sib by auto
    obtain o0 where o0: "get_order i s0 = Some o0"
      using rec_invD(8) [OF assms(1) i] sib by fastforce
    then have "get_order i s0 = Some o1" using rec_invD(6) [OF assms(1) o0 nm] i by simp
    then show "o1 \<in> set (dvals (om_orders s0))" using mem [OF assms(2)] by blast
  next
    assume "o1 \<in> set (dvals (om_orders s0))"
    then obtain i where i: "get_order i s0 = Some o1" using mem [OF assms(2)] by blast
    have "i \<notin> set m"
      using rec_invD(3) [OF assms(1)] assms(3) i sib by fastforce
    then have "get_order i s = Some o1" by (rule rec_invD(6) [OF assms(1) i])
    then show "o1 \<in> set (dvals (om_orders s))" using mem [OF ok] by blast
  qed
  then show ?thesis unfolding sibling_cross_def by blast
qed


lemma rec_inv_start: "oms_ok s0 \<Longrightarrow> rec_inv sg s0 resting [] s0 []"
  by (auto simp: rec_inv_def intro: exI [of _ "[]"])

lemma sent_ext_snoc:
  assumes "om_sent s = om_sent s0 @ ext \<and> (\<forall>x \<in> set ext. Q x)" and "om_sent t = om_sent s @ [x]" and "Q x"
  shows "\<exists>ext. om_sent t = om_sent s0 @ ext \<and> (\<forall>x \<in> set ext. Q x)"
  using assms by (intro exI [of _ "ext @ [x]"]) auto

text \<open>A matched order stays accounted for when further legs are considered.\<close>

lemma kept_mono:
  assumes "rec_inv sg s0 resting legs s m" and "i \<in> set m"
    and "\<And>o1. get_order i s = Some o1 \<Longrightarrow> get_order i t = Some o1"
  shows "\<exists>o1. get_order i t = Some o1 \<and> o_strategy o1 = sig_strategy sg \<and>
      (o_status o1 \<in> set amendable \<longrightarrow>
         get_order i s0 = Some o1 \<and> (\<exists>l \<in> set (legs @ [leg]). kept_for sg s0 o1 l))"
proof -
  obtain o1 where "get_order i s = Some o1" "o_strategy o1 = sig_strategy sg"
    "o_status o1 \<in> set amendable \<longrightarrow> get_order i s0 = Some o1 \<and> (\<exists>l \<in> set legs. kept_for sg s0 o1 l)"
    using rec_invD(7) [OF assms(1,2)] by blast
  then show ?thesis using assms(3) by auto
qed

text \<open>A leg that only claims a resting order, without touching it.\<close>

lemma rec_inv_claim:
  assumes inv: "rec_inv sg s0 resting legs s m"
    and st: "oms_ok t" "\<And>j. get_order j t = get_order j s" "om_cfg t = om_cfg s" "om_sent t = om_sent s"
    and i: "i \<in> set resting" "i \<notin> set m" "get_order i s = Some o1" "o_strategy o1 = sig_strategy sg"
    and kept: "o_status o1 \<in> set amendable \<Longrightarrow> kept_for sg s0 o1 leg"
    and old: "\<exists>o0. get_order i s0 = Some o0"
  shows "rec_inv sg s0 resting (legs @ [leg]) t (i # m)"
proof (rule rec_invI)
  have o0: "get_order i s0 = Some o1" using rec_invD(6) [OF inv _ i(2)] i(3) old by fastforce
  fix j assume "j \<in> set (i # m)"
  then consider "j = i" | "j \<in> set m" by auto
  then show "\<exists>o1. get_order j t = Some o1 \<and> o_strategy o1 = sig_strategy sg \<and>
      (o_status o1 \<in> set amendable \<longrightarrow>
         get_order j s0 = Some o1 \<and> (\<exists>l \<in> set (legs @ [leg]). kept_for sg s0 o1 l))"
  proof cases
    case 1
    then show ?thesis using o0 i(3,4) kept st(2) by auto
  next
    case 2
    then show ?thesis by (rule kept_mono [OF inv]) (simp add: st(2))
  qed
qed (use rec_invD [OF inv] st i in \<open>simp_all\<close>)

lemma rec_inv_skip:
  assumes inv: "rec_inv sg s0 resting legs s m"
    and st: "oms_ok t" "\<And>j. get_order j t = get_order j s" "om_cfg t = om_cfg s" "om_sent t = om_sent s"
  shows "rec_inv sg s0 resting (legs @ [leg]) t m"
proof (rule rec_invI)
  fix i assume "i \<in> set m"
  then show "\<exists>o1. get_order i t = Some o1 \<and> o_strategy o1 = sig_strategy sg \<and>
      (o_status o1 \<in> set amendable \<longrightarrow>
         get_order i s0 = Some o1 \<and> (\<exists>l \<in> set (legs @ [leg]). kept_for sg s0 o1 l))"
    by (rule kept_mono [OF inv]) (simp add: st(2))
qed (use rec_invD [OF inv] st in \<open>simp_all add: le_SucI\<close>)

lemma rec_inv_place:
  assumes inv: "rec_inv sg s0 resting legs s m" and ok: "oms_ok t"
    and g: "\<And>j. get_order j t = (if j = k then Some oN else get_order j s)"
    and k: "get_order k s = None" "o_status oN \<in> {PENDING_NEW, REJECTED}" "o_strategy oN = sig_strategy sg"
    and c: "om_cfg t = om_cfg s"
    and snt: "om_sent t = om_sent s @ [x]" "oc_stp_enabled (om_cfg s0) \<Longrightarrow> sent_safe sg s0 x"
  shows "rec_inv sg s0 resting (legs @ [leg]) t m"
proof (rule rec_invI)
  have nk: "get_order j s = Some o1 \<Longrightarrow> get_order j t = Some o1" for j o1 using g k(1) by auto
  show "get_order i t = Some o1" if "get_order i s0 = Some o1" "i \<notin> set m" for i o1
    using rec_invD(6) [OF inv that] nk by blast
  show "\<exists>o1. get_order i t = Some o1 \<and> o_strategy o1 = sig_strategy sg \<and>
      (o_status o1 \<in> set amendable \<longrightarrow>
         get_order i s0 = Some o1 \<and> (\<exists>l \<in> set (legs @ [leg]). kept_for sg s0 o1 l))"
    if "i \<in> set m" for i
    using that by (rule kept_mono [OF inv]) (rule nk)
  show "o_status o1 \<in> {PENDING_NEW, REJECTED} \<and> o_strategy o1 = sig_strategy sg"
    if "get_order j t = Some o1" "get_order j s0 = None" for j o1
    using that rec_invD(8) [OF inv, of j o1] g k(2,3) by (cases "j = k") auto
  show "\<exists>ext. om_sent t = om_sent s0 @ ext \<and> (\<forall>x \<in> set ext. sent_safe sg s0 x)"
    if "oc_stp_enabled (om_cfg s0)"
    using rec_invD(9) [OF inv that] sent_ext_snoc [OF _ snt(1), where Q = "sent_safe sg s0"] snt(2) [OF that]
    by blast
qed (use rec_invD(1-5) [OF inv] ok c in \<open>simp_all add: le_SucI\<close>)

lemma rec_inv_amend:
  assumes inv: "rec_inv sg s0 resting legs s m" and ok: "oms_ok t"
    and g: "\<And>j. get_order j t = (if j = i then Some o2 else get_order j s)"
    and i: "i \<in> set resting" "i \<notin> set m" "o_status o2 = PENDING_AMEND" "o_strategy o2 = sig_strategy sg"
    and old: "\<exists>o0. get_order i s0 = Some o0"
    and c: "om_cfg t = om_cfg s"
    and snt: "om_sent t = om_sent s @ [x]" "oc_stp_enabled (om_cfg s0) \<Longrightarrow> sent_safe sg s0 x"
  shows "rec_inv sg s0 resting (legs @ [leg]) t (i # m)"
proof (rule rec_invI)
  show "get_order j t = Some o1" if "get_order j s0 = Some o1" "j \<notin> set (i # m)" for j o1
    using rec_invD(6) [OF inv, of j o1] that g by simp
  show "\<exists>o1. get_order j t = Some o1 \<and> o_strategy o1 = sig_strategy sg \<and>
      (o_status o1 \<in> set amendable \<longrightarrow>
         get_order j s0 = Some o1 \<and> (\<exists>l \<in> set (legs @ [leg]). kept_for sg s0 o1 l))"
    if "j \<in> set (i # m)" for j
  proof (cases "j = i")
    case True
    then show ?thesis using g i(3,4) by (auto simp: amendable_def)
  next
    case False
    with that have "j \<in> set m" by simp
    then show ?thesis by (rule kept_mono [OF inv]) (simp add: g False)
  qed
  show "o_status o1 \<in> {PENDING_NEW, REJECTED} \<and> o_strategy o1 = sig_strategy sg"
    if "get_order j t = Some o1" "get_order j s0 = None" for j o1
    using that rec_invD(8) [OF inv, of j o1] g old by (cases "j = i") auto
  show "\<exists>ext. om_sent t = om_sent s0 @ ext \<and> (\<forall>x \<in> set ext. sent_safe sg s0 x)"
    if "oc_stp_enabled (om_cfg s0)"
    using rec_invD(9) [OF inv that] sent_ext_snoc [OF _ snt(1), where Q = "sent_safe sg s0"] snt(2) [OF that]
    by blast
qed (use rec_invD(1-5) [OF inv] ok c i in simp_all)


definition resting_ok :: "signal_event \<Rightarrow> oms \<Rightarrow> uuid list \<Rightarrow> bool" where
  "resting_ok sg s0 resting \<longleftrightarrow>
     oms_ok s0 \<and> (\<forall>i \<in> set resting. \<exists>o1. get_order i s0 = Some o1 \<and> o_strategy o1 = sig_strategy sg)"

lemma step_ok: "oms_step s t \<Longrightarrow> oms_ok s \<Longrightarrow> oms_ok t"
  by (simp add: oms_step_def)

lemma rec_stp:
  assumes inv: "rec_inv sg s0 resting legs s m" and r: "resting_ok sg s0 resting"
    and b: "stp_blocks sg leg s = (s1, b)"
  shows "oms_ok s1" "\<And>j. get_order j s1 = get_order j s" "om_cfg s1 = om_cfg s" "om_sent s1 = om_sent s"
    "om_uuid_src s1 = om_uuid_src s" "om_uuid_n s1 = om_uuid_n s"
    "b \<longleftrightarrow> oc_stp_enabled (om_cfg s0) \<and>
       sibling_cross (sig_strategy sg) (instrument_id (sig_instrument sg)) (leg_side leg) (leg_price leg) s0"
proof -
  note c = stp_blocks_cases [OF b]
  show "oms_ok s1" using step_ok [OF step_stp [OF b] rec_invD(1) [OF inv]] .
  show "get_order j s1 = get_order j s" for j using c by blast
  show "om_cfg s1 = om_cfg s" "om_sent s1 = om_sent s" "om_uuid_src s1 = om_uuid_src s"
    "om_uuid_n s1 = om_uuid_n s" using c by blast+
  have "sibling_cross (sig_strategy sg) iid sd p s = sibling_cross (sig_strategy sg) iid sd p s0" for iid sd p
    using rec_inv_sibling [OF inv] r by (simp add: resting_ok_def)
  then show "b \<longleftrightarrow> oc_stp_enabled (om_cfg s0) \<and>
       sibling_cross (sig_strategy sg) (instrument_id (sig_instrument sg)) (leg_side leg) (leg_price leg) s0"
    using c rec_invD(2) [OF inv] by simp
qed

lemma rec_leg_place:
  assumes inv: "rec_inv sg s0 resting legs s m" and r: "resting_ok sg s0 resting"
    and b: "stp_blocks sg leg s = (s1, False)"
  shows "rec_inv sg s0 resting (legs @ [leg]) (place_quote sg leg ts s1) m"
proof -
  note st = rec_stp [OF inv r b]
  let ?t = "place_quote sg leg ts s1"
  obtain oN rq ok where e: "o_status oN \<in> {PENDING_NEW, REJECTED}" "o_strategy oN = sig_strategy sg"
      "\<And>j. get_order j ?t = (if j = om_uuid_src s1 (om_uuid_n s1) then Some oN else get_order j s1)"
      "om_sent ?t = om_sent s1 @ [(ORDERS, EvOrderRequest rq, ok)]" "om_cfg ?t = om_cfg s1"
      "rq_strategy rq = sig_strategy sg" "rq_side rq = leg_side leg" "rq_price rq = leg_price leg"
    using submit_effect unfolding place_quote_def by (metis (no_types, lifting))
  have k: "get_order (om_uuid_src s1 (om_uuid_n s1)) s = None"
    using uuid_fresh [OF st(1)] st(2) by simp
  have safe: "sent_safe sg s0 (ORDERS, EvOrderRequest rq, ok)" if "oc_stp_enabled (om_cfg s0)"
    using st(7) that e(6-8) by simp
  show ?thesis
    by (rule rec_inv_place [OF inv step_ok [OF step_place_quote st(1)] _ k e(1,2) _ _ safe])
       (simp_all add: e(3,4,5) st(2,3,4))
qed

lemma rec_leg_amend:
  assumes inv: "rec_inv sg s0 resting legs s m" and r: "resting_ok sg s0 resting"
    and b: "stp_blocks sg leg s = (s1, False)"
    and i: "i \<in> set resting" "i \<notin> set m" "get_order i s = Some c" "o_status c \<in> set amendable"
      "o_side c = leg_side leg" "o_strategy c = sig_strategy sg" "\<exists>o0. get_order i s0 = Some o0"
  shows "rec_inv sg s0 resting (legs @ [leg]) (amend_quote i leg s1) (i # m)"
proof -
  note st = rec_stp [OF inv r b]
  let ?t = "amend_quote i leg s1"
  have "get_order i s1 = Some c" using st(2) i(3) by simp
  from amend_effect [OF this i(4), of leg]
  obtain o2 ar ok where e: "o_status o2 = PENDING_AMEND" "order_static o2 = order_static c"
      "\<And>j. get_order j ?t = (if j = i then Some o2 else get_order j s1)"
      "om_sent ?t = om_sent s1 @ [(ORDERS, EvAmendRequest ar, ok)]" "om_cfg ?t = om_cfg s1"
      "ar_side ar = o_side c" "ar_new_price ar = leg_price leg"
    by (metis (no_types, lifting))
  have safe: "sent_safe sg s0 (ORDERS, EvAmendRequest ar, ok)" if "oc_stp_enabled (om_cfg s0)"
    using st(7) that e(6,7) i(5) by simp
  have own: "o_strategy o2 = sig_strategy sg" using e(2) i(6) by (simp add: order_static_def)
  show ?thesis
    by (rule rec_inv_amend [OF inv step_ok [OF step_amend_quote st(1)] _ i(1,2) e(1) own i(7) _ _ safe])
       (simp_all add: e(3,4,5) st(2,3,4))
qed

lemma rec_leg:
  assumes inv: "rec_inv sg s0 resting legs s m" and r: "resting_ok sg s0 resting"
    and l: "reconcile_leg sg ts resting leg (s, m) = (t, m')"
  shows "rec_inv sg s0 resting (legs @ [leg]) t m'"
proof -
  have own: "o_strategy o1 = sig_strategy sg \<and> (\<exists>o0. get_order i s0 = Some o0)"
    if "i \<in> set resting" "i \<notin> set m" "get_order i s = Some o1" for i o1
    using that r rec_invD(6) [OF inv] unfolding resting_ok_def by (metis option.inject)
  note ok = rec_invD(1) [OF inv]
  show ?thesis
  proof (cases "first_unmatched resting m (exact_match leg) s")
    case (Some i)
    from first_unmatched_Some [OF this] obtain o1
      where i: "i \<in> set resting" "i \<notin> set m" "get_order i s = Some o1" "exact_match leg o1" by blast
    have "rec_inv sg s0 resting (legs @ [leg]) s (i # m)"
      using rec_inv_claim [OF inv ok refl refl refl i(1-3)] own [OF i(1-3)] i(4) by (auto simp: kept_for_def)
    then show ?thesis using l Some by (simp add: reconcile_leg_def)
  next
    case no_exact: None
    show ?thesis
    proof (cases "first_unmatched resting m (\<lambda>o1. o_side o1 = leg_side leg) s")
      case None
      obtain s1 b where b: "stp_blocks sg leg s = (s1, b)" by fastforce
      show ?thesis
      proof (cases b)
        case True
        then show ?thesis using l no_exact None b rec_inv_skip [OF inv rec_stp(1-4) [OF inv r b]]
          by (simp add: reconcile_leg_def)
      next
        case False
        then show ?thesis using l no_exact None b rec_leg_place [OF inv r, of leg s1 ts]
          by (auto simp: reconcile_leg_def)
      qed
    next
      case (Some i)
      from first_unmatched_Some [OF this] obtain c
        where i: "i \<in> set resting" "i \<notin> set m" "get_order i s = Some c" "o_side c = leg_side leg" by blast
      note oi = own [OF i(1-3)]
      show ?thesis
      proof (cases "o_status c \<in> set amendable")
        case False
        have "rec_inv sg s0 resting (legs @ [leg]) s (i # m)"
          using rec_inv_claim [OF inv ok refl refl refl i(1-3)] oi False by auto
        then show ?thesis using l no_exact Some i False
          by (auto simp: reconcile_leg_def split: if_splits)
      next
        case True
        then have np: "o_status c \<noteq> PENDING_AMEND \<and> o_status c \<noteq> PENDING_CANCEL" by (auto simp: amendable_def)
        obtain s1 b where b: "stp_blocks sg leg s = (s1, b)" by fastforce
        note st = rec_stp [OF inv r b]
        show ?thesis
        proof (cases b)
          case b1: True
          have "rec_inv sg s0 resting (legs @ [leg]) s1 (i # m)"
            using rec_inv_claim [OF inv st(1-4) i(1-3)] oi st(7) b1 i(4) by (auto simp: kept_for_def)
          then show ?thesis using l no_exact Some i True np b b1 by (simp add: reconcile_leg_def)
        next
          case b0: False
          then show ?thesis using l no_exact Some i True np b oi rec_leg_amend [OF inv r, of leg s1 i c]
            by (auto simp: reconcile_leg_def)
        qed
      qed
    qed
  qed
qed

lemma rec_legs:
  assumes "rec_inv sg s0 resting done s m" and r: "resting_ok sg s0 resting"
    and "fold (reconcile_leg sg ts resting) legs (s, m) = (t, m')"
  shows "rec_inv sg s0 resting (done @ legs) t m'"
  using assms(1,3)
proof (induction legs arbitrary: s m "done")
  case Nil
  then show ?case by simp
next
  case (Cons leg legs)
  obtain s1 m1 where l: "reconcile_leg sg ts resting leg (s, m) = (s1, m1)" by fastforce
  from rec_leg [OF Cons.prems(1) r l] have "rec_inv sg s0 resting (done @ [leg]) s1 m1" .
  from Cons.IH [OF this] Cons.prems(2) l show ?case by simp
qed


lemma resting_orders_ok:
  assumes "oms_ok s"
  shows "resting_ok sg s (resting_orders sg s)"
proof -
  have "\<exists>o1. get_order i s = Some o1 \<and> o_strategy o1 = sig_strategy sg"
    if i: "i \<in> set (resting_orders sg s)" for i
  proof -
    obtain o1 where o1: "o1 \<in> set (dvals (om_orders s))" "o_id o1 = i" "o_strategy o1 = sig_strategy sg"
      using i by (auto simp: resting_orders_def)
    then obtain k where "get_order k s = Some o1"
      using dget_mem [OF oms_okD(1) [OF assms]] by (auto simp: dvals_mem get_order_def)
    with oms_okD(4) [OF assms this] o1 show ?thesis by auto
  qed
  with assms show ?thesis by (simp add: resting_ok_def)
qed

lemma resting_orders_mem:
  assumes "oms_ok s" and "get_order i s = Some o1" and "o_strategy o1 = sig_strategy sg"
    and "instrument_id (o_instrument o1) = instrument_id (sig_instrument sg)"
    and "o_parent_leg o1 = None" and "o_status o1 \<in> set active_statuses"
  shows "i \<in> set (resting_orders sg s)"
proof -
  have "o1 \<in> set (dvals (om_orders s))"
    using dget_mem [OF oms_okD(1) [OF assms(1)]] assms(2) by (auto simp: dvals_mem get_order_def)
  then show ?thesis using oms_okD(4) [OF assms(1,2)] assms(3-6) by (auto simp: resting_orders_def)
qed

text \<open>The cancelling loop at the end sends nothing but cancel requests.\<close>

lemma cancel_if_sent_safe:
  "om_sent (cancel_if P i s) = om_sent s \<or>
   (\<exists>cr ok. om_sent (cancel_if P i s) = om_sent s @ [(ORDERS, EvCancelRequest cr, ok)])"
proof -
  have "om_sent (fst (cancel_order i s)) = om_sent s \<or>
      (\<exists>cr ok. om_sent (fst (cancel_order i s)) = om_sent s @ [(ORDERS, EvCancelRequest cr, ok)])"
    by (auto simp: cancel_order_def try_transition_def publish_sent split: option.splits sum.splits)
  then show ?thesis by (auto simp: cancel_if_def safe_cancel_def split: option.splits)
qed

lemma fold_cancel_sent_safe:
  "\<exists>ext. om_sent (fold (cancel_if P) is s) = om_sent s @ ext \<and>
         (\<forall>x \<in> set ext. \<exists>cr ok. x = (ORDERS, EvCancelRequest cr, ok))"
proof (induction "is" arbitrary: s)
  case Nil
  then show ?case by simp
next
  case (Cons i js)
  obtain e1 where "om_sent (cancel_if P i s) = om_sent s @ e1"
      "\<forall>x \<in> set e1. \<exists>cr ok. x = (ORDERS, EvCancelRequest cr, ok)"
    using cancel_if_sent_safe [of P i s] by (metis append_Nil2 empty_iff empty_set set_ConsD)
  moreover obtain e2 where "om_sent (fold (cancel_if P) js (cancel_if P i s)) = om_sent (cancel_if P i s) @ e2"
      "\<forall>x \<in> set e2. \<exists>cr ok. x = (ORDERS, EvCancelRequest cr, ok)"
    using Cons.IH by blast
  ultimately show ?case by (intro exI [of _ "e1 @ e2"]) auto
qed

text \<open>The state after a reconciliation, in terms of the loop's result.\<close>

lemma reconcile_result:
  assumes "oms_ok s"
  obtains s1 m where "rec_inv sg s (resting_orders sg s) legs s1 m"
    and "reconcile_immediate sg legs ts s =
      fold (cancel_if (\<lambda>o1. o_id o1 \<notin> set m \<and> o_status o1 \<noteq> PENDING_AMEND)) (resting_orders sg s) s1"
proof -
  obtain s1 m where f: "fold (reconcile_leg sg ts (resting_orders sg s)) legs (s, []) = (s1, m)" by fastforce
  from rec_legs [OF rec_inv_start [OF assms] resting_orders_ok [OF assms] f]
  have "rec_inv sg s (resting_orders sg s) legs s1 m" by simp
  then show thesis by (rule that) (simp add: reconcile_immediate_def Let_def f)
qed

text \<open>
  The plain quotes of the signal's strategy and instrument that rest at the venue with nothing
  pending.
\<close>

definition standing_quotes :: "signal_event \<Rightarrow> oms \<Rightarrow> uuid set" where
  "standing_quotes sg s =
     {i. \<exists>o1. get_order i s = Some o1 \<and> o_strategy o1 = sig_strategy sg \<and>
          instrument_id (o_instrument o1) = instrument_id (sig_instrument sg) \<and>
          o_parent_leg o1 = None \<and> o_status o1 \<in> set amendable}"

lemma standing_after:
  assumes ok: "oms_ok s" and inv: "rec_inv sg s (resting_orders sg s) legs s1 m"
    and t: "t = fold (cancel_if (\<lambda>o1. o_id o1 \<notin> set m \<and> o_status o1 \<noteq> PENDING_AMEND)) (resting_orders sg s) s1"
    and i: "i \<in> standing_quotes sg t"
  shows "i \<in> set m \<and> (\<exists>o1. get_order i t = Some o1 \<and> get_order i s = Some o1 \<and>
    (\<exists>leg \<in> set legs. kept_for sg s o1 leg))"
proof -
  let ?P = "\<lambda>o1. o_id o1 \<notin> set m \<and> o_status o1 \<noteq> PENDING_AMEND"
  obtain o2 where o2: "get_order i t = Some o2" "o_strategy o2 = sig_strategy sg"
      "instrument_id (o_instrument o2) = instrument_id (sig_instrument sg)"
      "o_parent_leg o2 = None" "o_status o2 \<in> set amendable"
    using i unfolding standing_quotes_def by blast
  obtain o1 where o1: "get_order i s1 = Some o1"
      "o2 = (if i \<in> set (resting_orders sg s) then cancel_effect (om_now s1) ?P o1 else o1)"
    using o2(1) unfolding t fold_cancel_get by (auto split: if_splits)
  have same: "o2 = o1"
    using o1(2) o2(5) by (auto simp: cancel_effect_def amendable_def split: if_splits)
  have a1: "o_status o1 \<in> set amendable" using o2(5) same by simp
  have act: "o_status o1 \<in> set active_statuses" using a1 by (auto simp: active_statuses_def)
  have id1: "o_id o1 = i" using oms_okD(4) [OF rec_invD(1) [OF inv] o1(1)] .
  obtain o0 where o0: "get_order i s = Some o0"
    using rec_invD(8) [OF inv o1(1)] a1 by (fastforce simp: amendable_def)
  have im: "i \<in> set m"
  proof (rule ccontr)
    assume nm: "i \<notin> set m"
    then have "get_order i s1 = Some o0" by (rule rec_invD(6) [OF inv o0])
    then have "o0 = o1" using o1(1) by simp
    then have "i \<in> set (resting_orders sg s)"
      using resting_orders_mem [OF ok o0] o2(2-4) act same by simp
    moreover have "o_status o1 \<in> {ACKNOWLEDGED, PARTIALLY_FILLED, PENDING_AMEND} \<and> o_status o1 \<noteq> PENDING_AMEND"
      using a1 by (auto simp: amendable_def)
    ultimately have "o_status o2 = PENDING_CANCEL"
      using o1(2) nm id1 by (auto simp: cancel_effect_def validate_pending_cancel)
    then show False using o2(5) by (simp add: amendable_def)
  qed
  then show ?thesis using rec_invD(7) [OF inv im] o1(1) a1 o2(1) same by auto
qed


subsection \<open>Properties\<close>

definition sample_quote_leg :: "dec \<Rightarrow> dec \<Rightarrow> order_leg" where
  "sample_quote_leg p q =
     \<lparr>leg_id = ''bid'', leg_side = BUY, leg_quantity = q, leg_price = Some p,
      leg_type = OT_LIMIT, leg_tif = TIF_GTC, leg_intent = PASSIVE\<rparr>"

definition sample_signal :: "strategy_id \<Rightarrow> order_leg list \<Rightarrow> signal_event" where
  "sample_signal sid legs =
     \<lparr>ts_event = 1, ts_ingest = 1, source = ''strategy'', sig_id = 99, sig_strategy = sid,
      sig_instrument = sample_instrument, sig_legs = legs, sig_atomic = False, sig_rationale = []\<rparr>"





text \<open>
  The amendment of a partially filled quote never settles. An amend asks for the leg's full
  quantity, while a quote matches a leg by what is left of it, so once the venue has confirmed the
  amend the order still does not match the leg it was amended for and the next signal with the
  same leg amends it again.
\<close>

theorem amended_partial_never_matches:
  assumes "get_order i s = Some o1" and "o_status o1 = PENDING_AMEND" and "0 < o_cumulative o1"
    and "re_order_id ev = i" and "am_new_price ev = leg_price leg" and "am_new_quantity ev = Some (leg_quantity leg)"
    and "o_side o1 = leg_side leg" and "leg_price leg \<noteq> None"
    and "dfits k (leg_quantity leg - o_cumulative o1)"
  shows "\<exists>o2. get_order i (handle_amend ev s) = Some o2 \<and> o_status o2 = ACKNOWLEDGED \<and>
    o_price o2 = leg_price leg \<and> o_quantity o2 = leg_quantity leg \<and> \<not> exact_match leg o2"
proof -
  have "validate_transition (Some (o_status o1)) ACKNOWLEDGED = Inr ()"
    using assms(2) by (simp add: validate_transition_def)
  then show ?thesis using assms
    by (auto simp: handle_amend_def try_transition_def transition_to_def commit_amend_def
        exact_match_def leaves_quantity_def dsub_exact [OF assms(9)] split: option.splits)
qed

definition sample_amending :: oms where
  "sample_amending = upd_order 0 (\<lambda>o1. o1\<lparr>o_status := PENDING_AMEND, o_cumulative := 2\<rparr>) sample_adopted"

theorem amended_partial_never_matches_witness:
  "\<exists>o2. get_order 0 (handle_amend \<lparr>ts_event = 9, ts_ingest = 9, source = ''gw'', re_order_id = 0,
       re_coid = ''mm-000000000000'', re_reason = [], am_new_price = Some 101, am_new_quantity = Some 5,
       am_new_exchange_id = None\<rparr> sample_amending) = Some o2 \<and> \<not> exact_match (sample_quote_leg 101 5) o2"
proof -
  have g: "get_order 0 sample_amending = Some ((the (get_order 0 sample_adopted))\<lparr>o_status := PENDING_AMEND, o_cumulative := 2\<rparr>)"
    by (simp add: sample_amending_def sample_adopted_order)
  show ?thesis
    using amended_partial_never_matches [OF g, of "\<lparr>ts_event = 9, ts_ingest = 9, source = ''gw'', re_order_id = 0,
       re_coid = ''mm-000000000000'', re_reason = [], am_new_price = Some 101, am_new_quantity = Some 5,
       am_new_exchange_id = None\<rparr>" "sample_quote_leg 101 5" 0]
    by (auto simp: sample_adopted_order new_order_def sample_quote_leg_def dfits_def)
qed

text \<open>
  A fill that races an amend loses the amend. A partially filled order cannot go back to
  ACKNOWLEDGED, so when the venue then confirms the amend the handler drops the confirmation: the
  OMS keeps the old price and quantity although the venue's order has the new ones.
\<close>

theorem amend_confirmation_lost_after_fill:
  assumes "get_order i s = Some o1" and "o_status o1 = PARTIALLY_FILLED" and "re_order_id ev = i"
  shows "get_order i (handle_amend ev s) = Some (o1\<lparr>o_pending_amend := None\<rparr>)"
  using assms
  by (simp add: handle_amend_def try_transition_def transition_to_def validate_transition_def
      clear_pending_amend_def)

theorem amend_confirmation_lost_after_fill_witness:
  "get_order 0 (handle_amend \<lparr>ts_event = 9, ts_ingest = 9, source = ''gw'', re_order_id = 0,
       re_coid = ''mm-000000000000'', re_reason = [], am_new_price = Some 101, am_new_quantity = Some 5,
       am_new_exchange_id = None\<rparr> (upd_order 0 (\<lambda>o1. o1\<lparr>o_status := PARTIALLY_FILLED\<rparr>) sample_adopted)) =
   Some ((the (get_order 0 sample_adopted))\<lparr>o_status := PARTIALLY_FILLED, o_pending_amend := None\<rparr>)"
  using amend_confirmation_lost_after_fill [of 0 "upd_order 0 (\<lambda>o1. o1\<lparr>o_status := PARTIALLY_FILLED\<rparr>) sample_adopted"]
  by (simp add: sample_adopted_order)

end
