(* ===== verification/OMS_Housekeeping.thy ===== *)
theory OMS_Housekeeping
  imports OMS_Properties
begin

text \<open>
  What keeps the OMS healthy over time: the signal cache and its eviction, a decision being used
  once, client order ids being read back, recovery of amends whose answer was lost, and the
  adoption of venue orders.
\<close>

definition sample_sig :: signal_event where
  "sample_sig =
     \<lparr>ts_event = 1, ts_ingest = 1, source = ''strategy'', sig_id = 1, sig_strategy = ''mm'',
      sig_instrument = sample_instrument, sig_legs = [], sig_atomic = False, sig_rationale = []\<rparr>"

subsection \<open>Client order ids\<close>

lemma hex_digit_ok: "n < 16 \<Longrightarrow> hex_digit n \<in> set ''0123456789abcdef'' \<and> hex_digit n \<noteq> CHR ''-''"
proof -
  assume "n < 16"
  then have "hex_digit n \<in> set ''0123456789abcdef''" unfolding hex_digit_def by (intro nth_mem) simp
  then show ?thesis by auto
qed

lemma uuid_hex12_ok:
  "length (uuid_hex12 u) = 12" "\<forall>c \<in> set (uuid_hex12 u). c \<in> set ''0123456789abcdef'' \<and> c \<noteq> CHR ''-''"
proof -
  show "length (uuid_hex12 u) = 12" by (simp add: uuid_hex12_def)
  have "hex_digit (u div 16 ^ (31 - i) mod 16) \<in> set ''0123456789abcdef'' \<and>
      hex_digit (u div 16 ^ (31 - i) mod 16) \<noteq> CHR ''-''" for i
    by (rule hex_digit_ok) simp
  note d = this
  show "\<forall>c \<in> set (uuid_hex12 u). c \<in> set ''0123456789abcdef'' \<and> c \<noteq> CHR ''-''"
  proof
    fix c assume "c \<in> set (uuid_hex12 u)"
    then obtain i where "c = hex_digit (u div 16 ^ (31 - i) mod 16)"
      unfolding uuid_hex12_def set_map by (elim imageE)
    then show "c \<in> set ''0123456789abcdef'' \<and> c \<noteq> CHR ''-''" using d [of i] by fast
  qed
qed

lemma span_append:
  assumes "\<forall>c \<in> set t. c \<noteq> d"
  shows "takeWhile (\<lambda>c. c \<noteq> d) (rev t @ d # r) = rev t" "dropWhile (\<lambda>c. c \<noteq> d) (rev t @ d # r) = d # r"
proof -
  show "takeWhile (\<lambda>c. c \<noteq> d) (rev t @ d # r) = rev t"
    using assms by (subst takeWhile_append2) auto
  show "dropWhile (\<lambda>c. c \<noteq> d) (rev t @ d # r) = d # r"
    using assms by (subst dropWhile_append2) auto
qed

lemma rpartition_dash_append:
  assumes "\<forall>c \<in> set tl1. c \<noteq> CHR ''-''"
  shows "rpartition_dash (h @ ''-'' @ tl1) = (h, ''-'', tl1)"
proof -
  have "rev (h @ ''-'' @ tl1) = rev tl1 @ CHR ''-'' # rev h" by simp
  then show ?thesis
    unfolding rpartition_dash_def Let_def by (simp only: span_append [OF assms] list.distinct if_False list.sel rev_rev_ident)
qed

text \<open>
  C25: the owner of an order can be read back from the client order id the OMS minted for it,
  whatever the strategy's name, dashes included.
\<close>

theorem coid_round_trip:
  assumes "sid \<noteq> []"
  shows "strategy_id_from_client_order_id (mint_coid sid u) = sid"
proof -
  have "rpartition_dash (mint_coid sid u) = (sid, ''-'', uuid_hex12 u)"
    unfolding mint_coid_def using uuid_hex12_ok(2) by (intro rpartition_dash_append) blast
  then show ?thesis
    using assms uuid_hex12_ok [of u] by (auto simp: strategy_id_from_client_order_id_def list_all_iff)
qed

theorem coid_round_trip_witness:
  "strategy_id_from_client_order_id (mint_coid ''pairs-btc-eth'' (2 ^ 127)) = ''pairs-btc-eth''"
  by (rule coid_round_trip) simp

subsection \<open>The signal cache\<close>

lemma fold_dpop_takeWhile:
  "dict_ok d \<Longrightarrow> fold dpop (map fst (takeWhile P d)) d = dropWhile P d"
proof -
  have pop_hd: "dict_ok ((k, v) # d) \<Longrightarrow> dpop k ((k, v) # d) = d" for k v and d :: "('a, 'b) dict"
    by (simp add: dpop_def dict_ok_def)
  show "dict_ok d \<Longrightarrow> fold dpop (map fst (takeWhile P d)) d = dropWhile P d"
  proof (induction d)
    case Nil
    then show ?case by simp
  next
    case (Cons e d)
    obtain k v where e: "e = (k, v)" by fastforce
    then show ?case using Cons pop_hd [of k v d] by (auto simp: dict_ok_def)
  qed
qed

definition cache_ok :: "oms \<Rightarrow> bool" where
  "cache_ok s \<longleftrightarrow>
     dict_ok (om_signals s) \<and> sorted (map (\<lambda>(k, sg, r). r) (om_signals s)) \<and>
     (\<forall>(k, sg, r) \<in> set (om_signals s). r \<le> om_now s)"

lemma sorted_dropWhile_ge:
  "sorted (map f xs) \<Longrightarrow> \<forall>x \<in> set (dropWhile (\<lambda>x. f x < (c::int)) xs). c \<le> f x"
  by (induction xs) (fastforce split: if_splits)+

text \<open>
  The signal cache does not grow without bound: when a signal that is not cached yet arrives,
  the cache afterwards holds it together with exactly those cached signals that are no older than
  the time to live, still in the order of their arrival.
\<close>

theorem cache_eviction:
  assumes "cache_ok s" and "dget (om_signals s) (sig_id sg) = None"
  shows "om_signals (on_signal (EvSignal sg) s) =
           filter (\<lambda>(k, sg, r). om_now s - oc_signal_ttl_ns (om_cfg s) \<le> r) (om_signals s)
             @ [(sig_id sg, sg, om_now s)] \<and>
         cache_ok (on_signal (EvSignal sg) s)"
proof -
  let ?c = "om_now s - oc_signal_ttl_ns (om_cfg s)"
  let ?d = "dropWhile (\<lambda>(k, sg, r). r < ?c) (om_signals s)"
  have P: "(\<lambda>(k, sg, r). r < ?c) = (\<lambda>e. (\<lambda>(k, sg, r). r) e < ?c)" by auto
  have ok: "dict_ok (om_signals s)" "sorted (map (\<lambda>(k, sg, r). r) (om_signals s))"
      "\<forall>(k, sg, r) \<in> set (om_signals s). r \<le> om_now s" using assms(1) by (auto simp: cache_ok_def)
  have "om_signals (evict_stale_signals s) = ?d" "om_now (evict_stale_signals s) = om_now s"
    using fold_dpop_takeWhile [OF ok(1)] by (simp_all add: evict_stale_signals_def Let_def)
  moreover have none: "dget ?d (sig_id sg) = None"
    using assms(2) set_dropWhileD [of _ "\<lambda>(k, sg, r). r < ?c" "om_signals s"]
    by (auto simp: dget_None dkeys_def)
  ultimately have e: "om_signals (on_signal (EvSignal sg) s) = ?d @ [(sig_id sg, sg, om_now s)]"
      "om_now (on_signal (EvSignal sg) s) = om_now s"
    by (simp_all add: on_signal_def Let_def dset_new [OF none])
  have ge: "\<forall>e \<in> set ?d. ?c \<le> (\<lambda>(k, sg, r). r) e"
    unfolding P by (rule sorted_dropWhile_ge [OF ok(2)])
  have split: "om_signals s = takeWhile (\<lambda>(k, sg, r). r < ?c) (om_signals s) @ ?d" by simp
  have "filter (\<lambda>(k, sg, r). ?c \<le> r) (takeWhile (\<lambda>(k, sg, r). r < ?c) (om_signals s)) = []"
    by (auto simp: filter_empty_conv dest: set_takeWhileD)
  moreover have "filter (\<lambda>(k, sg, r). ?c \<le> r) ?d = ?d" using ge by (auto intro: filter_True)
  ultimately have f: "filter (\<lambda>(k, sg, r). ?c \<le> r) (om_signals s) = ?d"
    by (subst split) (simp only: filter_append append_Nil)
  have sub: "set ?d \<subseteq> set (om_signals s)" by (auto dest: set_dropWhileD)
  have "distinct (map fst (takeWhile (\<lambda>(k, sg, r). r < ?c) (om_signals s) @ ?d))"
      "sorted (map (\<lambda>(k, sg, r). r) (takeWhile (\<lambda>(k, sg, r). r < ?c) (om_signals s) @ ?d))"
    using ok(1,2) unfolding dict_ok_def takeWhile_dropWhile_id by blast+
  then have d: "dict_ok ?d" "sorted (map (\<lambda>(k, sg, r). r) ?d)"
    unfolding dict_ok_def map_append distinct_append sorted_append by blast+
  have "dict_ok (?d @ [(sig_id sg, sg, om_now s)])"
    using dict_ok_dset [OF d(1)] dset_new [OF none] by metis
  moreover have "\<forall>x \<in> set (map (\<lambda>(k, sg, r). r) ?d). x \<le> om_now s" using ok(3) sub by auto
  then have "sorted (map (\<lambda>(k, sg, r). r) (?d @ [(sig_id sg, sg, om_now s)]))"
    using d(2) by (simp add: sorted_append)
  ultimately have "cache_ok (on_signal (EvSignal sg) s)"
    unfolding cache_ok_def e using ok(3) sub by auto
  with e f show ?thesis by simp
qed


definition sample_cache :: oms where
  "sample_cache = sample_oms\<lparr>om_now := 400000000000, om_signals :=
     [(1, sample_sig, 0), (2, sample_sig, 200000000000)]\<rparr>"

theorem cache_eviction_witness:
  "dkeys (om_signals (on_signal (EvSignal (sample_sig\<lparr>sig_id := 3\<rparr>)) sample_cache)) = [2, 3]"
proof -
  have "cache_ok sample_cache" "dget (om_signals sample_cache) (sig_id (sample_sig\<lparr>sig_id := 3\<rparr>)) = None"
    by (simp_all add: cache_ok_def sample_cache_def dict_ok_def)
  from cache_eviction [OF this] show ?thesis
    by (simp add: sample_cache_def sample_oms_def oms_init_def sample_config_def dkeys_def)
qed

subsection \<open>A decision is used once\<close>

lemma signals_upd [simp]: "om_signals (upd_order i f s) = om_signals s"
  by (simp add: upd_order_def)

lemma signals_open_orders [simp]: "om_signals (publish_open_orders s) = om_signals s"
  by (simp add: publish_open_orders_def)

lemma signals_try [simp]: "om_signals (fst (try_transition i st n s)) = om_signals s"
  by (simp add: try_transition_def split: option.splits sum.splits)

lemma signals_try': "try_transition i st n s = (t, b) \<Longrightarrow> om_signals t = om_signals s"
  using signals_try [of i st n s] by simp

lemma signals_publish': "safe_publish tp e s = (t, b) \<Longrightarrow> om_signals t = om_signals s"
  using publish_orders(8) [of tp e s] by simp

lemma signals_cancel [simp]: "om_signals (cancel_if P i s) = om_signals s"
  by (auto simp: cancel_if_def safe_cancel_def cancel_order_def dest: signals_try'
      split: option.splits prod.splits bool.splits)

lemma signals_fold:
  "(\<And>x t. om_signals (f x t) = om_signals t) \<Longrightarrow> om_signals (fold f xs s) = om_signals s"
  by (induction xs arbitrary: s) auto

lemma signals_retire [simp]: "om_signals (retire_algo lid s) = om_signals s"
  by (simp add: retire_algo_def)

lemma signals_submit [simp]: "om_signals (submit_order sid ins sd ty q p tif parent up s) = om_signals s"
  by (auto simp: submit_order_def Let_def uuid4_def track_order_def dest!: signals_publish'
      split: prod.splits bool.splits)

lemma signals_amend [simp]: "om_signals (amend_quote i leg s) = om_signals s"
  by (auto simp: amend_quote_def dest: signals_try' split: option.splits prod.splits bool.splits)

lemma signals_stp: "stp_blocks sg leg s = (t, b) \<Longrightarrow> om_signals t = om_signals s"
  by (auto simp: stp_blocks_def split: if_splits option.splits)

lemma signals_leg: "om_signals (fst (reconcile_leg sg ts r leg (s, m))) = om_signals s"
  by (auto simp: reconcile_leg_def place_quote_def dest: signals_stp
      split: option.splits prod.splits bool.splits)

lemma signals_legs: "om_signals (fst (fold (reconcile_leg sg ts r) legs st)) = om_signals (fst st)"
proof (induction legs arbitrary: st)
  case Nil
  then show ?case by simp
next
  case (Cons leg legs)
  then show ?case using signals_leg [of sg ts r leg "fst st" "snd st"] by simp
qed

lemma signals_immediate [simp]: "om_signals (reconcile_immediate sg legs ts s) = om_signals s"
  using signals_legs [of sg ts "resting_orders sg s" legs "(s, [])"]
  by (cases "fold (reconcile_leg sg ts (resting_orders sg s)) legs (s, [])")
     (simp add: reconcile_immediate_def Let_def signals_fold)

lemma signals_drive [simp]: "om_signals (drive_algo lid s) = om_signals s"
  by (auto simp: drive_algo_def submit_child_def Let_def split: option.splits prod.splits)

lemma signals_withdraw [simp]: "om_signals (withdraw_leg sg ds lid s) = om_signals s"
  by (auto simp: withdraw_leg_def cancel_children_def signals_fold split: option.splits prod.splits)

lemma signals_start [simp]: "om_signals (start_leg sg la s) = om_signals s"
  by (simp add: start_leg_def split: prod.splits)

lemma signals_sliced [simp]: "om_signals (reconcile_sliced sg sl s) = om_signals s"
  by (simp add: reconcile_sliced_def Let_def signals_fold)

lemma signals_route: "om_signals (fst (route_legs sg ctx legs s)) = om_signals s"
proof (induction legs arbitrary: s)
  case Nil
  then show ?case by simp
next
  case (Cons leg legs)
  show ?case
  proof (cases "route (oc_router (om_cfg s)) leg ctx")
    case (Inl e)
    then show ?thesis by simp
  next
    case (Inr d)
    have "om_signals (fst (route_legs sg ctx legs (emit_routed sg leg (decision_algo_name d) s))) = om_signals s"
      unfolding Cons.IH by (simp add: emit_routed_def)
    then show ?thesis using Inr by (auto split: prod.splits sum.splits option.splits)
  qed
qed

lemma signals_quotes: "om_signals (fst (reconcile_quotes sg ts s)) = om_signals s"
proof -
  let ?ctx = "\<lparr>rc_now_ns = om_now s, rc_instrument = sig_instrument sg,
      rc_last_mark = dget (om_marks s) (instrument_id (sig_instrument sg))\<rparr>"
  obtain s1 r where r: "route_legs sg ?ctx (sig_legs sg) s = (s1, r)" by fastforce
  then have "om_signals s1 = om_signals s" using signals_route [of sg ?ctx "sig_legs sg" s] by simp
  then show ?thesis by (auto simp: reconcile_quotes_def r Let_def split: sum.splits)
qed

text \<open>
  A risk decision is acted on at most once. Handling it takes its signal out of the cache,
  approved or not and even when routing raises, so the same decision delivered again, or one that
  refers to an unknown or evicted signal, changes nothing.
\<close>

theorem decision_used_once:
  "dget (om_signals (fst (on_risk_decision (EvDecision d) s))) (rd_signal_id d) = None \<and>
   on_risk_decision (EvDecision d) (fst (on_risk_decision (EvDecision d) s)) =
     (fst (on_risk_decision (EvDecision d) s), Inr ())"
proof -
  have "dget (om_signals (fst (on_risk_decision (EvDecision d) s))) (rd_signal_id d) = None"
    by (auto simp: on_risk_decision_def Let_def cancel_resting_def signals_fold signals_quotes
        split: option.splits prod.splits)
  then show ?thesis by (simp add: on_risk_decision_def [of _ "fst _"])
qed

subsection \<open>Amends whose answer was lost\<close>

definition amend_stale :: "timestamp \<Rightarrow> int \<Rightarrow> oms_order \<Rightarrow> bool" where
  "amend_stale n timeout o1 \<longleftrightarrow> o_status o1 = PENDING_AMEND \<and> timeout \<le> n - o_last_update o1"

definition sweep_effect :: "timestamp \<Rightarrow> int \<Rightarrow> oms_order \<Rightarrow> oms_order" where
  "sweep_effect n timeout o1 =
     (if amend_stale n timeout o1
      then o1\<lparr>o_status := (if leaves_quantity o1 = 0 then FILLED else ACKNOWLEDGED),
              o_last_update := n, o_pending_amend := None\<rparr>
      else o1)"

lemma sweep_one_get:
  "get_order j (sweep_one n i s) =
     (if j = i then map_option (sweep_effect n (oc_amend_timeout_ns (om_cfg s))) (get_order j s) else get_order j s)"
  by (auto simp: sweep_one_def sweep_effect_def amend_stale_def clear_pending_amend_def
      try_transition_def transition_to_def validate_transition_def leaves_quantity_def split: option.splits)

lemma sweep_one_cfg [simp]: "om_cfg (sweep_one n i s) = om_cfg s"
  by (auto simp: sweep_one_def clear_pending_amend_def try_transition_def
      split: option.splits sum.splits)

lemma sweep_effect_idem [simp]: "sweep_effect n d (sweep_effect n d o1) = sweep_effect n d o1"
  by (auto simp: sweep_effect_def amend_stale_def)

lemma fold_sweep_get:
  "get_order j (fold (sweep_one n) is s) =
     (if j \<in> set is then map_option (sweep_effect n (oc_amend_timeout_ns (om_cfg s))) (get_order j s)
      else get_order j s)"
  by (induction "is" arbitrary: s) (auto simp: sweep_one_get option.map_comp comp_def)


definition sample_stuck :: oms where
  "sample_stuck = sample_oms\<lparr>om_now := 9000000000, om_uuid_n := 1,
     om_orders := [(0, (new_order 0 ''mm-000000000000'' ''mm'' sample_instrument BUY OT_LIMIT 5 (Some 100)
       TIF_GTC 1000 None)\<lparr>o_status := PENDING_AMEND, o_last_update := 1000\<rparr>)]\<rparr>"


subsection \<open>Venue state\<close>

text \<open>
  Adopting a venue order is idempotent on its client order id: adopting it again returns the
  same id and tracks no second order, and the filled quantity only ever ratchets forward.
\<close>

theorem adopt_idempotent:
  assumes "oms_ok s" and "adopt_order ins c sd ty q cum p tif exch created s = (s1, i)"
    and "adopt_order ins' c sd' ty' q' cum' p' tif' exch' created' s1 = (s2, j)"
  shows "j = i \<and> dkeys (om_orders s2) = dkeys (om_orders s1) \<and> om_sent s2 = om_sent s1 \<and>
    (\<forall>o1 o2. get_order i s1 = Some o1 \<and> get_order i s2 = Some o2 \<longrightarrow>
       o_cumulative o2 = (if order_is_terminal o1 then o_cumulative o1 else max (o_cumulative o1) cum'))"
proof -
  have "dget (om_coids s1) c = Some i"
    using assms(2) by (auto simp: adopt_order_def Let_def uuid4_def track_order_def new_order_def
        refresh_adopted_order_def upd_order_def split: option.splits if_splits)
  then have "s2 = refresh_adopted_order i q' cum' p' s1" "j = i"
    using assms(3) by (auto simp: adopt_order_def)
  then show ?thesis
    by (auto simp: refresh_adopted_order_def upd_order_def dkeys_dmod get_order_def max_def
        split: option.splits if_splits)
qed

theorem adopt_idempotent_witness:
  "snd (adopt_order sample_instrument ''mm-000000000000'' BUY OT_LIMIT 5 2 (Some 100) TIF_GTC None None sample_adopted) = 0"
proof -
  have "adopt_order sample_instrument ''mm-000000000000'' BUY OT_LIMIT 5 0 (Some 100) TIF_GTC None None sample_oms =
      (sample_adopted, 0)"
    unfolding sample_adopted_def
    by (simp add: adopt_order_def sample_oms_def oms_init_def uuid4_def Let_def)
  from adopt_idempotent [OF sample_ok(1) this, of sample_instrument BUY OT_LIMIT 5 2 "Some 100" TIF_GTC None None]
  show ?thesis by (metis prod.collapse)
qed

text \<open>
  The venue cannot report every terminal state. \<open>terminalize_from_venue\<close> brings an open order
  to the reported state exactly when the table has that transition; otherwise the error is
  swallowed and the order stays open. In particular an acknowledged or partially filled order
  that the venue reports as rejected stays working for ever.
\<close>

theorem terminalize_outcome:
  assumes "get_order i s = Some o1" and "\<not> order_is_terminal o1" and "status_is_terminal st"
  shows "\<exists>o2. get_order i (terminalize_from_venue i st cum s) = Some o2 \<and>
    o_status o2 = (if validate_transition (Some (o_status o1)) st = Inr () then st else o_status o1) \<and>
    (o_status o1 \<in> {ACKNOWLEDGED, PARTIALLY_FILLED} \<and> st = REJECTED \<longrightarrow> \<not> order_is_terminal o2)"
  using assms validate_cases [of "Some (o_status o1)" st]
  by (auto simp: terminalize_from_venue_def Let_def try_transition_def transition_to_def
      order_is_terminal_def validate_transition_def split: option.splits)

theorem terminalize_outcome_witness:
  "\<exists>o2. get_order 0 (terminalize_from_venue 0 REJECTED None sample_adopted) = Some o2 \<and> \<not> order_is_terminal o2"
  using terminalize_outcome [OF sample_adopted_order, of REJECTED None]
  by (auto simp: new_order_def order_is_terminal_def status_is_terminal_def)

end
