(* ===== verification/Floats.thy ===== *)
theory Floats
  imports Decimals
begin

text \<open>
  Python's \<open>float\<close> where the risk rules use it: a float is the rational number it stands for, and
  a conversion or a product is the exact result rounded to 53 significant bits, half to even. The
  exponent range of the format (numbers beyond \<open>2 ^ 1024\<close> or below \<open>2 ^ -1022\<close>) is not reached by
  the ratios, probabilities and durations the rules work on.
\<close>

function halvings :: "rat \<Rightarrow> nat" where
  "halvings y = (if y < 2 ^ 53 then 0 else Suc (halvings (y / 2)))"
  by pat_completeness auto
termination
proof (relation "measure (\<lambda>y. nat \<lfloor>y\<rfloor>)")
  fix y :: rat
  assume "\<not> y < 2 ^ 53"
  then have y: "2 ^ 53 \<le> y" by simp
  then have "y / 2 \<le> y - 1" by simp
  then have "\<lfloor>y / 2\<rfloor> \<le> \<lfloor>y\<rfloor> - 1" by linarith
  moreover have "0 < \<lfloor>y\<rfloor>" using y by simp
  ultimately show "(y / 2, y) \<in> measure (\<lambda>y. nat \<lfloor>y\<rfloor>)" by simp
qed simp

function doublings :: "rat \<Rightarrow> nat" where
  "doublings y = (if y \<le> 0 \<or> 2 ^ 52 \<le> y then 0 else Suc (doublings (y * 2)))"
  by pat_completeness auto
termination
proof (relation "measure (\<lambda>y. nat \<lfloor>2 ^ 54 / y\<rfloor>)")
  fix y :: rat
  assume "\<not> (y \<le> 0 \<or> 2 ^ 52 \<le> y)"
  then have y: "0 < y" "y < 2 ^ 52" by auto
  then have b: "4 < 2 ^ 54 / y" by (simp add: field_simps)
  have e: "2 ^ 54 / (y * 2) = (2 ^ 54 / y) / 2" by simp
  have "z / 2 \<le> z - 1" if "4 < z" for z :: rat using that by linarith
  from this [OF b] have "2 ^ 54 / (y * 2) \<le> 2 ^ 54 / y - 1" by (simp only: e)
  then have "\<lfloor>2 ^ 54 / (y * 2)\<rfloor> \<le> \<lfloor>2 ^ 54 / y\<rfloor> - 1" by linarith
  moreover have "0 < \<lfloor>2 ^ 54 / y\<rfloor>" using b by linarith
  ultimately show "(y * 2, y) \<in> measure (\<lambda>y. nat \<lfloor>2 ^ 54 / y\<rfloor>)" by simp
qed simp

declare halvings.simps [simp del] doublings.simps [simp del]

definition float_pos :: "rat \<Rightarrow> rat" where
  "float_pos x =
     (let e = int (halvings x) - int (doublings x)
      in of_int (round_he (x / 2 powi e)) * 2 powi e)"

definition float_of :: "rat \<Rightarrow> rat" where
  "float_of x = (if x = 0 then 0 else if x < 0 then - float_pos (- x) else float_pos x)"

text \<open>\<open>int(seconds * 1_000_000_000)\<close> on a float.\<close>

definition seconds_to_ns :: "rat \<Rightarrow> int" where
  "seconds_to_ns secs = trunc (float_of (secs * 1000000000))"

text \<open>
  \<open>Decimal(str(x))\<close> of a positive float: the decimal of the fewest significant digits, 17 at most,
  that rounds to the float again.
\<close>

definition float_digits :: "rat \<Rightarrow> nat \<Rightarrow> rat" where
  "float_digits x n =
     (let u = 10 powi (dec_exp x + 28 - int n) in of_int (round_he (x / u)) * u)"

definition float_text :: "rat \<Rightarrow> dec" where
  "float_text x =
     (if x = 0 then 0
      else case find (\<lambda>n. float_of (float_digits x n) = x) [1 ..< 18] of
             None \<Rightarrow> x
           | Some n \<Rightarrow> float_digits x n)"

lemma float_of_0 [simp]: "float_of 0 = 0"
  by (simp add: float_of_def)

lemma seconds_to_ns_60: "seconds_to_ns 60 = 60000000000"
proof -
  have h: "halvings 60000000000 = 0" by (subst halvings.simps) simp
  have d: "doublings 60000000000 = 17"
    by (simp add: doublings.simps)
  show ?thesis
    by (simp add: seconds_to_ns_def float_of_def float_pos_def h d power_int_minus trunc_def)
qed

subsection \<open>Laws of rounding to a float\<close>

definition float_exp :: "rat \<Rightarrow> int" where
  "float_exp x = int (halvings x) - int (doublings x)"

lemma halvings_bounds: "2 ^ 52 \<le> y \<Longrightarrow> 2 ^ 52 * 2 ^ halvings y \<le> y \<and> y < 2 ^ 53 * 2 ^ halvings y"
proof (induction y rule: halvings.induct)
  case (1 y)
  show ?case
  proof (cases "y < 2 ^ 53")
    case False
    with 1(1) [OF False] have "2 ^ 52 * 2 ^ halvings (y / 2) \<le> y / 2 \<and> y / 2 < 2 ^ 53 * 2 ^ halvings (y / 2)" by simp
    with False show ?thesis by (subst (1 2) halvings.simps) (simp add: field_simps)
  qed (use 1(2) in \<open>subst (1 2) halvings.simps, simp\<close>)
qed

lemma doublings_bounds: "0 < y \<Longrightarrow> y < 2 ^ 53 \<Longrightarrow> 2 ^ 52 \<le> y * 2 ^ doublings y \<and> y * 2 ^ doublings y < 2 ^ 53"
proof (induction y rule: doublings.induct)
  case (1 y)
  show ?case
  proof (cases "2 ^ 52 \<le> y")
    case True
    with 1(3) show ?thesis by (subst (1 2) doublings.simps) simp
  next
    case False
    with 1 have "2 ^ 52 \<le> y * 2 * 2 ^ doublings (y * 2) \<and> y * 2 * 2 ^ doublings (y * 2) < 2 ^ 53" by simp
    with 1(2) False show ?thesis by (subst (1 2) doublings.simps) (simp add: ac_simps)
  qed
qed

lemma float_exp_bounds:
  assumes "0 < x"
  shows "2 ^ 52 * 2 powi float_exp x \<le> x" and "x < 2 ^ 53 * 2 powi float_exp x"
proof -
  have "2 ^ 52 * 2 powi float_exp x \<le> x \<and> x < 2 ^ 53 * 2 powi float_exp x"
  proof (cases "x < 2 ^ 53")
    case True
    then have h: "halvings x = 0" by (subst halvings.simps) simp
    show ?thesis using doublings_bounds [OF assms True]
      by (simp add: float_exp_def h power_int_minus field_simps)
  next
    case False
    then have "doublings x = 0" by (subst doublings.simps) simp
    with halvings_bounds [of x] False show ?thesis by (simp add: float_exp_def)
  qed
  then show "2 ^ 52 * 2 powi float_exp x \<le> x" and "x < 2 ^ 53 * 2 powi float_exp x" by auto
qed

lemma two_powi_pos [simp]: "(0::rat) < 2 powi e"
  by simp

lemma two_powi_mono: "e < f \<Longrightarrow> 2 * 2 powi e \<le> (2 powi f :: rat)"
proof -
  assume "e < f"
  then have "(2::rat) powi (e + 1) \<le> 2 powi f" by (intro power_int_increasing) auto
  then show ?thesis by (simp add: power_int_add)
qed

lemma float_exp_unique:
  assumes "2 ^ 52 * 2 powi e \<le> x" and "x < 2 ^ 53 * 2 powi e"
  shows "float_exp x = e"
proof -
  have "0 < 2 ^ 52 * (2 powi e :: rat)" by simp
  with assms(1) have pos: "0 < x" by linarith
  show ?thesis
  proof (rule ccontr)
    assume "float_exp x \<noteq> e"
    then consider "float_exp x < e" | "e < float_exp x" by linarith
    then show False
      using two_powi_mono [of "float_exp x" e] two_powi_mono [of e "float_exp x"]
        float_exp_bounds [OF pos] assms by cases (simp_all add: field_simps)
  qed
qed

lemma float_pos_eq: "float_pos x = of_int (round_he (x / 2 powi float_exp x)) * 2 powi float_exp x"
  by (simp add: float_pos_def float_exp_def Let_def)

lemma float_pos_bounds:
  assumes "0 < x"
  shows "2 ^ 52 * 2 powi float_exp x \<le> float_pos x" and "float_pos x \<le> 2 ^ 53 * 2 powi float_exp x"
proof -
  let ?u = "2 powi float_exp x :: rat"
  have "2 ^ 52 \<le> x / ?u" "x / ?u \<le> 2 ^ 53"
    using float_exp_bounds [OF assms] by (simp_all add: field_simps)
  then have "2 ^ 52 \<le> round_he (x / ?u)" "round_he (x / ?u) \<le> 2 ^ 53"
    by (auto intro: round_he_ge round_he_le)
  then have "(2 ^ 52 :: rat) \<le> of_int (round_he (x / ?u))" "of_int (round_he (x / ?u)) \<le> (2 ^ 53 :: rat)"
    by (metis of_int_le_iff of_int_numeral of_int_power)+
  then show "2 ^ 52 * ?u \<le> float_pos x" "float_pos x \<le> 2 ^ 53 * ?u"
    unfolding float_pos_eq by (simp_all only: mult_le_cancel_right_pos two_powi_pos)
qed

lemma float_pos_mono:
  assumes "0 < x" and "x \<le> y"
  shows "float_pos x \<le> float_pos y"
proof -
  have y: "0 < y" using assms by simp
  consider "float_exp x = float_exp y" | "float_exp x < float_exp y" | "float_exp y < float_exp x" by linarith
  then show ?thesis
  proof cases
    case 1
    have "x / 2 powi float_exp x \<le> y / 2 powi float_exp x" using assms by (simp add: divide_right_mono)
    from round_he_mono [OF this] show ?thesis by (simp add: float_pos_eq 1)
  next
    case 2
    from two_powi_mono [OF this] float_pos_bounds(2) [OF assms(1)] float_pos_bounds(1) [OF y]
    show ?thesis by simp
  next
    case 3
    from two_powi_mono [OF this] float_exp_bounds(1) [OF assms(1)] float_exp_bounds(2) [OF y] assms
    show ?thesis by simp
  qed
qed

lemma float_of_mono: "x \<le> y \<Longrightarrow> float_of x \<le> float_of y"
proof -
  have p: "0 < z \<Longrightarrow> 0 < float_pos z" for z
    using float_pos_bounds(1) [of z] by (rule less_le_trans [rotated]) auto
  assume "x \<le> y"
  then show ?thesis
    using p [of y] p [of "- x"] float_pos_mono [of x y] float_pos_mono [of "- y" "- x"]
    by (auto simp: float_of_def)
qed

lemma float_of_nonneg: "0 \<le> x \<Longrightarrow> 0 \<le> float_of x"
  using float_of_mono [of 0 x] by simp

lemma float_pos_idem:
  assumes "0 < x"
  shows "float_pos (float_pos x) = float_pos x"
proof -
  let ?e = "float_exp x" and ?m = "round_he (x / 2 powi float_exp x)"
  have f: "float_pos x = of_int ?m * 2 powi ?e" by (rule float_pos_eq)
  note b = float_pos_bounds [OF assms]
  show ?thesis
  proof (cases "float_pos x < 2 ^ 53 * 2 powi ?e")
    case True
    with b(1) have "float_exp (float_pos x) = ?e" by (intro float_exp_unique)
    then show ?thesis by (subst float_pos_eq) (simp add: f)
  next
    case False
    with b(2) have v: "float_pos x = 2 ^ 53 * 2 powi ?e" by simp
    then have "float_exp (float_pos x) = ?e + 1" by (intro float_exp_unique) (simp_all add: power_int_add)
    then show ?thesis by (subst float_pos_eq) (simp add: v power_int_add)
  qed
qed

lemma float_of_idem [simp]: "float_of (float_of x) = float_of x"
proof -
  have p: "0 < z \<Longrightarrow> 0 < float_pos z" for z
    using float_pos_bounds(1) [of z] by (rule less_le_trans [rotated]) auto
  show ?thesis using p [of x] p [of "- x"] float_pos_idem [of x] float_pos_idem [of "- x"]
    by (auto simp: float_of_def)
qed

lemma float_error: "\<bar>float_of x - x\<bar> \<le> \<bar>x\<bar> / 2 ^ 53"
proof -
  have p: "\<bar>float_pos z - z\<bar> \<le> z / 2 ^ 53" if "0 < z" for z
  proof -
    let ?u = "2 powi float_exp z :: rat"
    have "float_pos z - z = (of_int (round_he (z / ?u)) - z / ?u) * ?u"
      unfolding float_pos_eq by (simp add: left_diff_distrib)
    then have "\<bar>float_pos z - z\<bar> = \<bar>of_int (round_he (z / ?u)) - z / ?u\<bar> * ?u" by (simp add: abs_mult)
    also have "\<dots> \<le> 1 / 2 * ?u" by (intro mult_right_mono round_he_error) simp
    also have "\<dots> \<le> z / 2 ^ 53" using float_exp_bounds(1) [OF that] by simp
    finally show ?thesis .
  qed
  have "\<bar>- z - x\<bar> = \<bar>z + x\<bar>" for z using abs_minus_cancel [of "z + x"] by simp
  then show ?thesis using p [of x] p [of "- x"] by (auto simp: float_of_def)
qed

lemma float_of_int:
  assumes "\<bar>k\<bar> < 2 ^ 53"
  shows "float_of (of_int k) = of_int k"
proof -
  have pos: "float_pos (of_int j) = of_int j" if "0 < j" "j < 2 ^ 53" for j :: int
  proof -
    have "(of_int j :: rat) < of_int (2 ^ 53)" using that(2) by (simp only: of_int_less_iff)
    then have "halvings (of_int j) = 0" by (subst halvings.simps) simp
    then have e: "float_exp (of_int j) = - int (doublings (of_int j))" by (simp add: float_exp_def)
    have q: "(of_int j :: rat) / 2 powi (- int (doublings (of_int j))) = of_int (j * 2 ^ doublings (of_int j))"
      by (simp add: power_int_minus field_simps)
    show ?thesis unfolding float_pos_eq e q round_he_of_int by (simp add: power_int_minus field_simps)
  qed
  show ?thesis using assms pos [of k] pos [of "- k"] by (auto simp: float_of_def)
qed

lemma float_of_numeral [simp]:
  "numeral n < (2 ^ 53 :: int) \<Longrightarrow> float_of (numeral n) = numeral n" "float_of 1 = 1"
  using float_of_int [of "numeral n"] float_of_int [of 1] by simp_all

end
