(* ===== verification/Risk_State.thy ===== *)
theory Risk_State
  imports Core_Types Floats
begin

text \<open>
  \<open>risk/state.py\<close> and \<open>risk/kill_switch.py\<close>: the read model of the risk rules and the latched stop.
  The clock is read once per handler; its reading is the argument \<open>now\<close>. Reading the state can
  change it (\<open>get_realized_pnl_today\<close> rolls the day over, \<open>signals_in_window\<close> evicts), so these
  operations return the state with the value. VPIN values and thresholds are floats: the thresholds
  the state keeps counters for are the four doubles written in the source, and the text of a
  threshold, which the code uses in its key, stands for the double itself.

  The last part shows what the session peak of \<open>get_drawdown_pct\<close> amounts to: whatever the history
  of updates, the peak of a strategy is its current equity, because \<open>_maybe_rollover\<close> clears every
  peak each time it is asked, not only when the day has changed.
\<close>

definition ns_per_day :: int where
  "ns_per_day = 86400000000000"

record daily_pnl =
  dp_baseline :: dec
  dp_day :: int
  dp_realized :: dec
  dp_day_start :: timestamp
  dp_unrealized :: dec

type_synonym position_key = "strategy_id \<times> string"

record risk_state =
  rs_throttle_ns :: int
  rs_positions :: "(position_key, dec) dict"
  rs_working :: "(position_key, dec \<times> dec) dict"
  rs_daily :: "(strategy_id, daily_pnl) dict"
  rs_recent :: "(strategy_id, timestamp list) dict"
  rs_vpin :: "(string, rat) dict"
  rs_breach :: "(string \<times> rat, nat) dict"
  rs_peak :: "(strategy_id, dec) dict"

definition risk_state_init :: "rat \<Rightarrow> risk_state" where
  "risk_state_init throttle_window_seconds =
     \<lparr>rs_throttle_ns = seconds_to_ns throttle_window_seconds, rs_positions = [], rs_working = [],
      rs_daily = [], rs_recent = [], rs_vpin = [], rs_breach = [], rs_peak = []\<rparr>"

definition dget_or :: "'v \<Rightarrow> ('k, 'v) dict \<Rightarrow> 'k \<Rightarrow> 'v" where
  "dget_or v d k = (case dget d k of None \<Rightarrow> v | Some w \<Rightarrow> w)"

subsection \<open>Reads\<close>

definition get_position :: "strategy_id \<Rightarrow> instrument \<Rightarrow> risk_state \<Rightarrow> dec" where
  "get_position sid ins rs = dget_or 0 (rs_positions rs) (sid, instrument_id ins)"

definition get_working :: "strategy_id \<Rightarrow> instrument \<Rightarrow> risk_state \<Rightarrow> dec \<times> dec" where
  "get_working sid ins rs = dget_or (0, 0) (rs_working rs) (sid, instrument_id ins)"

definition day_index :: "timestamp \<Rightarrow> int" where
  "day_index now = now div ns_per_day"

text \<open>\<open>_maybe_rollover\<close> of the bucket of \<open>sid\<close>, which the caller has looked up.\<close>

definition maybe_rollover :: "timestamp \<Rightarrow> strategy_id \<Rightarrow> risk_state \<Rightarrow> risk_state" where
  "maybe_rollover now sid rs =
     rs\<lparr>rs_daily := dmod sid (\<lambda>b. if dp_day b \<noteq> day_index now
                                  then b\<lparr>dp_baseline := dp_realized b, dp_day := day_index now\<rparr>
                                  else b) (rs_daily rs),
        rs_peak := []\<rparr>"

definition get_realized_pnl_today :: "timestamp \<Rightarrow> strategy_id \<Rightarrow> risk_state \<Rightarrow> dec \<times> risk_state" where
  "get_realized_pnl_today now sid rs =
     (case dget (rs_daily rs) sid of
        None \<Rightarrow> (0, rs)
      | Some _ \<Rightarrow>
          (let rs1 = maybe_rollover now sid rs
           in case dget (rs_daily rs1) sid of
                None \<Rightarrow> (0, rs1)
              | Some b \<Rightarrow> (dsub (dp_realized b) (dp_baseline b), rs1)))"

definition get_drawdown_pct :: "strategy_id \<Rightarrow> risk_state \<Rightarrow> rat option" where
  "get_drawdown_pct sid rs =
     (case (dget (rs_daily rs) sid, dget (rs_peak rs) sid) of
        (Some b, Some peak) \<Rightarrow>
          (let current = dadd (dp_realized b) (dp_unrealized b)
           in if peak \<le> 0 then None
              else Some (max 0 (float_of (ddiv (dsub peak current) (dabs peak)))))
      | _ \<Rightarrow> None)"

definition get_vpin :: "string \<Rightarrow> risk_state \<Rightarrow> rat option" where
  "get_vpin iid rs = dget (rs_vpin rs) iid"

definition get_vpin_breach_ticks :: "string \<Rightarrow> rat \<Rightarrow> risk_state \<Rightarrow> nat" where
  "get_vpin_breach_ticks iid threshold rs = dget_or 0 (rs_breach rs) (iid, threshold)"

definition signals_in_window ::
    "timestamp \<Rightarrow> strategy_id \<Rightarrow> rat option \<Rightarrow> risk_state \<Rightarrow> nat \<times> risk_state" where
  "signals_in_window now sid window_seconds rs =
     (let window_ns = (case window_seconds of None \<Rightarrow> rs_throttle_ns rs | Some w \<Rightarrow> seconds_to_ns w);
          cutoff = now - window_ns
      in case dget (rs_recent rs) sid of
           None \<Rightarrow> (0, rs)
         | Some dq \<Rightarrow>
             (let dq' = dropWhile (\<lambda>t. t < cutoff) dq
              in (length dq', rs\<lparr>rs_recent := dset sid dq' (rs_recent rs)\<rparr>)))"

subsection \<open>Writes\<close>

definition record_signal :: "timestamp \<Rightarrow> strategy_id \<Rightarrow> risk_state \<Rightarrow> risk_state" where
  "record_signal now sid rs =
     rs\<lparr>rs_recent := dset sid (dget_or [] (rs_recent rs) sid @ [now]) (rs_recent rs)\<rparr>"

definition apply_fill_position :: "fill_event \<Rightarrow> risk_state \<Rightarrow> risk_state" where
  "apply_fill_position f rs =
     (let key = (fl_strategy f, instrument_id (fl_instrument f));
          delta = dmul (fl_quantity f) (side_sign (fl_side f))
      in rs\<lparr>rs_positions := dset key (dadd (dget_or 0 (rs_positions rs) key) delta) (rs_positions rs)\<rparr>)"

definition apply_position_update :: "timestamp \<Rightarrow> position_update_event \<Rightarrow> risk_state \<Rightarrow> risk_state" where
  "apply_position_update now u rs =
     (let sid = pu_strategy u;
          rs1 = rs\<lparr>rs_positions :=
                     dset (sid, instrument_id (pu_instrument u)) (pu_quantity u) (rs_positions rs)\<rparr>;
          rs2 = (case dget (rs_daily rs1) sid of
                   None \<Rightarrow>
                     rs1\<lparr>rs_daily := dset sid
                       \<lparr>dp_baseline = 0, dp_day = day_index now, dp_realized = pu_realized u,
                        dp_day_start = now, dp_unrealized = pu_unrealized u\<rparr> (rs_daily rs1)\<rparr>
                 | Some _ \<Rightarrow>
                     (let r = maybe_rollover now sid rs1
                      in r\<lparr>rs_daily := dmod sid (\<lambda>b. b\<lparr>dp_realized := pu_realized u,
                                              dp_unrealized := pu_unrealized u\<rparr>) (rs_daily r)\<rparr>));
          total_equity = dadd (pu_realized u) (pu_unrealized u);
          prev_peak = dget_or total_equity (rs_peak rs2) sid
      in rs2\<lparr>rs_peak := dset sid (max prev_peak total_equity) (rs_peak rs2)\<rparr>)"

definition apply_open_orders_snapshot :: "open_orders_event \<Rightarrow> risk_state \<Rightarrow> risk_state" where
  "apply_open_orders_snapshot snap rs =
     rs\<lparr>rs_working := fold (\<lambda>w. dset (we_strategy w, instrument_id (we_instrument w))
                                    (we_buy w, we_sell w)) (oo_exposures snap) []\<rparr>"

text \<open>The doubles 0.5, 0.7, 0.8 and 0.9.\<close>

definition vpin_thresholds :: "rat list" where
  "vpin_thresholds = [1 / 2, 6305039478318694 / 9007199254740992,
     7205759403792794 / 9007199254740992, 8106479329266893 / 9007199254740992]"

definition count_breach :: "string \<Rightarrow> rat \<Rightarrow> rat \<Rightarrow> (string \<times> rat, nat) dict \<Rightarrow> (string \<times> rat, nat) dict" where
  "count_breach iid vpin threshold d =
     (if threshold \<le> vpin then dset (iid, threshold) (dget_or 0 d (iid, threshold) + 1) d
      else dset (iid, threshold) 0 d)"

definition apply_analytics_snapshot :: "microstructure_event \<Rightarrow> risk_state \<Rightarrow> risk_state" where
  "apply_analytics_snapshot snap rs =
     (let iid = instrument_id (mc_instrument snap)
      in case mc_vpin snap of
           None \<Rightarrow> rs
         | Some vpin \<Rightarrow>
             rs\<lparr>rs_vpin := dset iid vpin (rs_vpin rs),
                rs_breach := fold (count_breach iid vpin) vpin_thresholds (rs_breach rs)\<rparr>)"

definition start_new_session :: "timestamp \<Rightarrow> risk_state \<Rightarrow> risk_state" where
  "start_new_session now rs =
     rs\<lparr>rs_daily := map (\<lambda>(sid, b). (sid, b\<lparr>dp_baseline := dp_realized b, dp_day := day_index now\<rparr>))
                      (rs_daily rs)\<rparr>"

subsection \<open>The kill switch\<close>

record kill_switch =
  kw_engaged :: bool
  kw_triggered_by :: string
  kw_reason :: py_text
  kw_at :: timestamp

definition kill_switch_init :: kill_switch where
  "kill_switch_init = \<lparr>kw_engaged = False, kw_triggered_by = [], kw_reason = Text [], kw_at = 0\<rparr>"

definition kill_engage :: "timestamp \<Rightarrow> string \<Rightarrow> py_text \<Rightarrow> kill_switch \<Rightarrow> kill_switch" where
  "kill_engage now by_whom reason k =
     (if kw_engaged k then k
      else \<lparr>kw_engaged = True, kw_triggered_by = by_whom, kw_reason = reason, kw_at = now\<rparr>)"

definition kill_reset :: "kill_switch \<Rightarrow> kill_switch" where
  "kill_reset k = kill_switch_init"

lemma get_position_apply_update:
  "get_position (pu_strategy u) (pu_instrument u) (apply_position_update now u rs) = pu_quantity u"
  by (auto simp: get_position_def apply_position_update_def maybe_rollover_def dget_or_def Let_def
      split: option.split)

subsection \<open>The session peak\<close>

definition equity :: "daily_pnl \<Rightarrow> dec" where
  "equity b = dadd (dp_realized b) (dp_unrealized b)"

definition peak_is_equity :: "risk_state \<Rightarrow> bool" where
  "peak_is_equity rs \<longleftrightarrow>
     (\<forall>sid p. dget (rs_peak rs) sid = Some p \<longrightarrow>
        (\<exists>b. dget (rs_daily rs) sid = Some b \<and> p = equity b))"

lemma peak_is_equityD:
  "peak_is_equity rs \<Longrightarrow> dget (rs_peak rs) sid = Some p \<Longrightarrow>
   \<exists>b. dget (rs_daily rs) sid = Some b \<and> p = equity b"
  by (simp add: peak_is_equity_def)

lemma peak_init [simp]: "peak_is_equity (risk_state_init w)"
  by (simp add: peak_is_equity_def risk_state_init_def)

text \<open>The operations that touch neither the buckets nor the peaks.\<close>

lemma peak_cong:
  "peak_is_equity rs \<Longrightarrow> rs_peak rs' = rs_peak rs \<Longrightarrow> rs_daily rs' = rs_daily rs \<Longrightarrow> peak_is_equity rs'"
  by (simp add: peak_is_equity_def)

lemma peak_rollover [simp]: "peak_is_equity (maybe_rollover now sid rs)"
  by (simp add: peak_is_equity_def maybe_rollover_def)

lemma peak_realized: "peak_is_equity rs \<Longrightarrow> peak_is_equity (snd (get_realized_pnl_today now sid rs))"
  by (auto simp: get_realized_pnl_today_def Let_def split: option.splits)

lemma peak_window: "peak_is_equity rs \<Longrightarrow> peak_is_equity (snd (signals_in_window now sid w rs))"
  by (auto simp: signals_in_window_def Let_def intro: peak_cong split: option.splits)

lemma peak_position_update:
  assumes "peak_is_equity rs"
  shows "peak_is_equity (apply_position_update now u rs)"
proof (cases "dget (rs_daily rs) (pu_strategy u)")
  case None
  with assms have "dget (rs_peak rs) (pu_strategy u) = None"
    by (cases "dget (rs_peak rs) (pu_strategy u)") (auto dest: peak_is_equityD)
  with None assms show ?thesis
    by (auto simp: peak_is_equity_def apply_position_update_def dget_or_def equity_def Let_def)
next
  case (Some b)
  then show ?thesis
    by (auto simp: peak_is_equity_def apply_position_update_def maybe_rollover_def dget_or_def
        equity_def Let_def)
qed

lemma dget_map_values: "dget (map (\<lambda>(k, v). (k, f v)) d) k = map_option f (dget d k)"
  by (induction d) auto

lemma peak_session: "peak_is_equity rs \<Longrightarrow> peak_is_equity (start_new_session now rs)"
  by (fastforce simp: peak_is_equity_def start_new_session_def dget_map_values equity_def)

lemma drawdown_of_peak:
  assumes "peak_is_equity rs"
  shows "get_drawdown_pct sid rs \<in> {None, Some 0}"
  by (auto simp: get_drawdown_pct_def equity_def Let_def ddiv_def dsub_def split: option.splits
      dest!: peak_is_equityD [OF assms])

end
