(* ===== verification/Risk_Rules.thy ===== *)
theory Risk_Rules
  imports Risk_State
begin

text \<open>
  \<open>risk/base.py\<close> and \<open>risk/rules/\<close>: the verdict of a rule on one leg and the eight built-in rules,
  with the validation of their constructors. A rule takes the signal, the position of the leg in it
  (the rule tells the leg from its siblings by object identity) and the state; it returns a verdict
  or the exception it raises, and the state, which reads may have changed.
\<close>

record rule_result =
  rr_rule_name :: string
  rr_approved :: bool
  rr_severity :: severity
  rr_reason :: py_text
  rr_quantity :: "dec option"

definition rule_approve :: "string \<Rightarrow> dec option \<Rightarrow> py_text \<Rightarrow> rule_result" where
  "rule_approve rule clamp_to reason =
     \<lparr>rr_rule_name = rule, rr_approved = True, rr_severity = INFO, rr_reason = reason,
      rr_quantity = clamp_to\<rparr>"

definition rule_reject :: "string \<Rightarrow> py_text \<Rightarrow> severity \<Rightarrow> rule_result" where
  "rule_reject rule reason sev =
     \<lparr>rr_rule_name = rule, rr_approved = False, rr_severity = sev, rr_reason = reason,
      rr_quantity = None\<rparr>"

datatype risk_rule =
    MaxPositionRule dec dec
  | MaxOrderSizeRule dec
  | MaxNotionalRule dec
  | ThrottleRule int rat
  | DailyLossLimitRule dec
  | DrawdownRule rat rat
  | AllowlistRule "string list"
  | VpinRule rat int

fun rule_name :: "risk_rule \<Rightarrow> string" where
  "rule_name (MaxPositionRule _ _) = ''max_position''"
| "rule_name (MaxOrderSizeRule _) = ''max_order_size''"
| "rule_name (MaxNotionalRule _) = ''max_notional''"
| "rule_name (ThrottleRule _ _) = ''throttle''"
| "rule_name (DailyLossLimitRule _) = ''daily_loss_limit''"
| "rule_name (DrawdownRule _ _) = ''drawdown_circuit_breaker''"
| "rule_name (AllowlistRule _) = ''instrument_allowlist''"
| "rule_name (VpinRule _ _) = ''vpin_circuit_breaker''"

subsection \<open>Constructors\<close>

definition max_position_init :: "dec \<Rightarrow> dec \<Rightarrow> py_error + risk_rule" where
  "max_position_init max_long max_short =
     (if max_long < 0 \<or> max_short < 0 then Inl ValueError else Inr (MaxPositionRule max_long max_short))"

definition max_order_size_init :: "dec \<Rightarrow> py_error + risk_rule" where
  "max_order_size_init q = (if q \<le> 0 then Inl ValueError else Inr (MaxOrderSizeRule q))"

definition max_notional_init :: "dec \<Rightarrow> py_error + risk_rule" where
  "max_notional_init n = (if n \<le> 0 then Inl ValueError else Inr (MaxNotionalRule n))"

definition throttle_init :: "int \<Rightarrow> rat \<Rightarrow> py_error + risk_rule" where
  "throttle_init max_signals window_seconds =
     (if max_signals \<le> 0 \<or> window_seconds \<le> 0 then Inl ValueError
      else Inr (ThrottleRule max_signals window_seconds))"

definition daily_loss_init :: "dec \<Rightarrow> py_error + risk_rule" where
  "daily_loss_init max_loss = (if max_loss \<le> 0 then Inl ValueError else Inr (DailyLossLimitRule (dneg max_loss)))"

definition drawdown_init :: "rat \<Rightarrow> rat \<Rightarrow> py_error + risk_rule" where
  "drawdown_init warn_pct kill_pct =
     (if \<not> (0 < warn_pct \<and> warn_pct \<le> 1) then Inl ValueError
      else if \<not> (warn_pct \<le> kill_pct \<and> kill_pct \<le> 1) then Inl ValueError
      else Inr (DrawdownRule warn_pct kill_pct))"

definition allowlist_init :: "string list \<Rightarrow> py_error + risk_rule" where
  "allowlist_init ids = (if ids = [] then Inl ValueError else Inr (AllowlistRule ids))"

definition vpin_init :: "rat \<Rightarrow> int \<Rightarrow> py_error + risk_rule" where
  "vpin_init threshold sustained_ticks =
     (if \<not> (0 \<le> threshold \<and> threshold \<le> 1) then Inl ValueError
      else if sustained_ticks \<le> 0 then Inl ValueError
      else Inr (VpinRule threshold sustained_ticks))"

subsection \<open>Evaluation\<close>

text \<open>The quantities of the legs on the same side other than leg \<open>i\<close>.\<close>

definition same_side_siblings :: "signal_event \<Rightarrow> nat \<Rightarrow> dec" where
  "same_side_siblings sg i =
     dsum (map (\<lambda>(j, o1). leg_quantity o1)
            (filter (\<lambda>(j, o1). j \<noteq> i \<and> leg_side o1 = leg_side (sig_legs sg ! i))
               (enumerate 0 (sig_legs sg))))"

definition position_headroom :: "dec \<Rightarrow> dec \<Rightarrow> signal_event \<Rightarrow> nat \<Rightarrow> risk_state \<Rightarrow> dec" where
  "position_headroom max_long max_short sg i rs =
     (let current = get_position (sig_strategy sg) (sig_instrument sg) rs;
          siblings = same_side_siblings sg i
      in case leg_side (sig_legs sg ! i) of
           BUY \<Rightarrow> dsub max_long (dadd current siblings)
         | SELL \<Rightarrow> dadd (dsub current siblings) max_short)"

definition eval_max_position ::
    "dec \<Rightarrow> dec \<Rightarrow> signal_event \<Rightarrow> nat \<Rightarrow> risk_state \<Rightarrow> rule_result" where
  "eval_max_position max_long max_short sg i rs =
     (let headroom = position_headroom max_long max_short sg i rs
      in if headroom \<le> 0 then
           rule_reject ''max_position''
             (Fmt ''position cap reached: current={}, same_side_siblings={}, max_long={}, max_short={}''
                [get_position (sig_strategy sg) (sig_instrument sg) rs, same_side_siblings sg i,
                 max_long, dneg max_short]) BLOCK
         else if headroom < leg_quantity (sig_legs sg ! i)
         then rule_approve ''max_position'' (Some headroom) (Text [])
         else rule_approve ''max_position'' None (Text []))"

definition eval_max_order_size :: "dec \<Rightarrow> signal_event \<Rightarrow> nat \<Rightarrow> rule_result" where
  "eval_max_order_size max_quantity sg i =
     (let q = leg_quantity (sig_legs sg ! i)
      in if q \<le> max_quantity then rule_approve ''max_order_size'' None (Text [])
         else rule_approve ''max_order_size'' (Some max_quantity)
                (Fmt ''clamped {} => {} (max_order_size limit)'' [q, max_quantity]))"

definition eval_max_notional :: "dec \<Rightarrow> signal_event \<Rightarrow> nat \<Rightarrow> rule_result" where
  "eval_max_notional max_notional sg i =
     (let leg = sig_legs sg ! i
      in case leg_price leg of
           None \<Rightarrow> rule_approve ''max_notional'' None (Text [])
         | Some price \<Rightarrow>
             if price \<le> 0 then rule_approve ''max_notional'' None (Text [])
             else
               let notional = dmul price (leg_quantity leg)
               in if notional \<le> max_notional then rule_approve ''max_notional'' None (Text [])
                  else
                    let clamped_qty = ddiv max_notional price
                    in if clamped_qty \<le> 0 then
                         rule_reject ''max_notional''
                           (Fmt ''notional {} > cap {} and clamped quantity would be zero''
                              [notional, max_notional]) BLOCK
                       else
                         rule_approve ''max_notional'' (Some clamped_qty)
                           (Fmt ''clamped {} -> {:.6g} (notional {:.2f} > cap {})''
                              [leg_quantity leg, clamped_qty, notional, max_notional]))"

definition eval_throttle ::
    "int \<Rightarrow> rat \<Rightarrow> timestamp \<Rightarrow> signal_event \<Rightarrow> risk_state \<Rightarrow> rule_result \<times> risk_state" where
  "eval_throttle max_signals window_seconds now sg rs =
     (case signals_in_window now (sig_strategy sg) (Some window_seconds) rs of
        (count, rs1) \<Rightarrow>
          (if max_signals < int count then
             rule_reject ''throttle'' (Fmt ''throttle exceeded: {} signals in last {}s (cap={})''
               [of_nat count, window_seconds, of_int max_signals]) WARN
           else rule_approve ''throttle'' None (Text []), rs1))"

definition eval_daily_loss ::
    "dec \<Rightarrow> timestamp \<Rightarrow> signal_event \<Rightarrow> risk_state \<Rightarrow> rule_result \<times> risk_state" where
  "eval_daily_loss floor_pnl now sg rs =
     (case get_realized_pnl_today now (sig_strategy sg) rs of
        (pnl, rs1) \<Rightarrow>
          (if pnl \<le> floor_pnl then
             rule_reject ''daily_loss_limit''
               (Fmt ''daily realized PnL {} <= floor {}; engaging kill switch'' [pnl, floor_pnl]) KILL
           else rule_approve ''daily_loss_limit'' None (Text []), rs1))"

definition eval_drawdown :: "rat \<Rightarrow> rat \<Rightarrow> signal_event \<Rightarrow> risk_state \<Rightarrow> rule_result" where
  "eval_drawdown warn_pct kill_pct sg rs =
     (case get_drawdown_pct (sig_strategy sg) rs of
        None \<Rightarrow> rule_approve ''drawdown_circuit_breaker'' None (Text [])
      | Some dd \<Rightarrow>
          if kill_pct \<le> dd then
            rule_reject ''drawdown_circuit_breaker''
              (Fmt ''session drawdown {:.1%} >= kill threshold {:.1%}; engaging kill switch''
                 [dd, kill_pct]) KILL
          else if warn_pct \<le> dd then
            rule_reject ''drawdown_circuit_breaker''
              (Fmt ''session drawdown {:.1%} >= warn threshold {:.1%}; blocking until equity recovers''
                 [dd, warn_pct]) WARN
          else rule_approve ''drawdown_circuit_breaker'' None (Text []))"

definition eval_allowlist :: "string list \<Rightarrow> signal_event \<Rightarrow> rule_result" where
  "eval_allowlist allowed sg =
     (let iid = instrument_id (sig_instrument sg)
      in if iid \<in> set allowed then rule_approve ''instrument_allowlist'' None (Text [])
         else rule_reject ''instrument_allowlist''
                (Text (''instrument '' @ iid @ '' not in allow-list'')) BLOCK)"

text \<open>
  The last line of the rule passes its reason by position to a method whose parameters after the
  rule name are keyword-only, which raises \<open>TypeError\<close>.
\<close>

definition eval_vpin :: "rat \<Rightarrow> int \<Rightarrow> signal_event \<Rightarrow> risk_state \<Rightarrow> py_error + rule_result" where
  "eval_vpin threshold sustained_ticks sg rs =
     (let iid = instrument_id (sig_instrument sg)
      in case get_vpin iid rs of
           None \<Rightarrow> Inr (rule_approve ''vpin_circuit_breaker'' None
                         (Text ''No VPIN value available. Quoting continues.''))
         | Some vpin \<Rightarrow>
             let ticks_above = get_vpin_breach_ticks iid threshold rs;
                 args = [vpin, threshold, of_nat ticks_above, of_int sustained_ticks]
             in if threshold \<le> vpin \<and> sustained_ticks \<le> int ticks_above then
                  Inr (rule_reject ''vpin_circuit_breaker''
                    (Fmt ''VPIN value {:.2f} has exceeded threshold {} for {} ticks, which is above the sustained threshold of {}. Halting quoting to defend against sustained order flow toxicity.''
                       args) KILL)
                else if threshold \<le> vpin then
                  Inr (rule_reject ''vpin_circuit_breaker''
                    (Fmt ''VPIN value {:.2f} has exceeded threshold {} for {} ticks, which is below the sustained threshold of {}. Blocking quptes until sustained breach or reset.''
                       args) BLOCK)
                else Inl TypeError)"

fun evaluate ::
    "risk_rule \<Rightarrow> timestamp \<Rightarrow> signal_event \<Rightarrow> nat \<Rightarrow> risk_state \<Rightarrow>
     (py_error + rule_result) \<times> risk_state" where
  "evaluate (MaxPositionRule l sh) now sg i rs = (Inr (eval_max_position l sh sg i rs), rs)"
| "evaluate (MaxOrderSizeRule q) now sg i rs = (Inr (eval_max_order_size q sg i), rs)"
| "evaluate (MaxNotionalRule n) now sg i rs = (Inr (eval_max_notional n sg i), rs)"
| "evaluate (ThrottleRule m w) now sg i rs = map_prod Inr id (eval_throttle m w now sg rs)"
| "evaluate (DailyLossLimitRule f) now sg i rs = map_prod Inr id (eval_daily_loss f now sg rs)"
| "evaluate (DrawdownRule w k) now sg i rs = (Inr (eval_drawdown w k sg rs), rs)"
| "evaluate (AllowlistRule ids) now sg i rs = (Inr (eval_allowlist ids sg), rs)"
| "evaluate (VpinRule t n) now sg i rs = (eval_vpin t n sg rs, rs)"

subsection \<open>What a rule leaves of the state, and what it may answer\<close>

lemma rule_approve_sel [simp]:
  "rr_approved (rule_approve r c t)" "rr_severity (rule_approve r c t) = INFO"
  "rr_quantity (rule_approve r c t) = c" "rr_rule_name (rule_approve r c t) = r"
  "rr_reason (rule_approve r c t) = t"
  by (simp_all add: rule_approve_def)

lemma rule_reject_sel [simp]:
  "\<not> rr_approved (rule_reject r t v)" "rr_severity (rule_reject r t v) = v"
  "rr_quantity (rule_reject r t v) = None" "rr_rule_name (rule_reject r t v) = r"
  "rr_reason (rule_reject r t v) = t"
  by (simp_all add: rule_reject_def)

lemma rollover_positions [simp]: "rs_positions (maybe_rollover now sid rs) = rs_positions rs"
  by (simp add: maybe_rollover_def)

lemma evaluate_positions [simp]: "rs_positions (snd (evaluate r now sg i rs)) = rs_positions rs"
  by (cases r) (auto simp: eval_throttle_def eval_daily_loss_def signals_in_window_def
      get_realized_pnl_today_def Let_def split: option.splits prod.splits)

lemma evaluate_peak: "peak_is_equity rs \<Longrightarrow> peak_is_equity (snd (evaluate r now sg i rs))"
  by (cases r) (auto simp: eval_throttle_def eval_daily_loss_def case_prod_beta
      intro: peak_window peak_realized)

text \<open>Only an approval may carry a clamp, and an approval never carries a warning.\<close>

lemma evaluate_shape:
  assumes "fst (evaluate r now sg i rs) = Inr v"
  shows "rr_rule_name v = rule_name r \<and> (rr_approved v \<longrightarrow> rr_severity v = INFO) \<and>
         (\<not> rr_approved v \<longrightarrow> rr_quantity v = None \<and> rr_severity v \<noteq> INFO)"
  using assms
  by (cases r) (auto simp: eval_max_position_def eval_max_order_size_def eval_max_notional_def
      eval_throttle_def eval_daily_loss_def eval_drawdown_def eval_allowlist_def eval_vpin_def Let_def
      split: option.splits prod.splits if_splits)

lemma clamp_positive:
  assumes "fst (evaluate r now sg i rs) = Inr v" "rr_quantity v = Some q"
    "\<And>m. r = MaxOrderSizeRule m \<Longrightarrow> 0 < m"
  shows "0 < q"
  using assms
  by (cases r) (auto simp: eval_max_position_def eval_max_order_size_def eval_max_notional_def
      eval_throttle_def eval_daily_loss_def eval_drawdown_def eval_allowlist_def eval_vpin_def Let_def
      split: option.splits prod.splits if_splits)

end
