(* ===== verification/Risk_Engine.thy ===== *)
theory Risk_Engine
  imports Risk_Rules Event_Bus
begin

text \<open>
  \<open>risk/engine.py\<close>: the state of \<open>RiskEngine\<close> and all its operations. As in the OMS, the bus never
  suspends a publication, so a handler runs to its end; the clock is read once per handler
  (\<open>rk_now\<close>); the bus has not been stopped; and \<open>rk_sent\<close> is a history variable that no
  definition reads, the publications attempted so far with their outcome.
\<close>

record risk_engine =
  rk_now :: timestamp
  rk_bus :: async_bus
  rk_state :: risk_state
  rk_kill :: kill_switch
  rk_rules :: "(strategy_id, risk_rule list) dict"
  rk_global :: "risk_rule list"
  rk_started :: bool
  rk_dropped :: nat
  rk_sent :: "(topic \<times> event \<times> bool) list"

definition risk_init :: "async_bus \<Rightarrow> timestamp \<Rightarrow> risk_engine" where
  "risk_init b now =
     \<lparr>rk_now = now, rk_bus = b, rk_state = risk_state_init 60, rk_kill = kill_switch_init,
      rk_rules = [], rk_global = [], rk_started = False, rk_dropped = 0, rk_sent = []\<rparr>"

definition register_rules :: "strategy_id \<Rightarrow> risk_rule list \<Rightarrow> risk_engine \<Rightarrow> py_error + risk_engine" where
  "register_rules sid rules s =
     (if rk_started s then Inl RuntimeError
      else Inr (s\<lparr>rk_rules := dset sid (dget_or [] (rk_rules s) sid @ rules) (rk_rules s)\<rparr>))"

definition register_global_rules :: "risk_rule list \<Rightarrow> risk_engine \<Rightarrow> py_error + risk_engine" where
  "register_global_rules rules s =
     (if rk_started s then Inl RuntimeError else Inr (s\<lparr>rk_global := rk_global s @ rules\<rparr>))"

fun subscribe_each :: "(topic \<times> string) list \<Rightarrow> async_bus \<Rightarrow> async_bus \<times> (py_error + unit)" where
  "subscribe_each [] b = (b, Inr ())"
| "subscribe_each ((t, h) # hs) b =
     (case subscribe t h b of Inl e \<Rightarrow> (b, Inl e) | Inr b' \<Rightarrow> subscribe_each hs b')"

definition risk_start :: "risk_engine \<Rightarrow> risk_engine \<times> (py_error + unit)" where
  "risk_start s =
     (if rk_started s then (s, Inr ())
      else
        case subscribe_each [(SIGNALS, ''_on_signal''), (FILLS, ''_on_fill''),
               (POSITIONS, ''_on_position_update''), (OPEN_ORDERS, ''_on_open_orders''),
               (ANALYTICS, ''_on_analytics'')] (rk_bus s) of
          (b, r) \<Rightarrow> (s\<lparr>rk_started := True, rk_bus := b\<rparr>, r))"

definition risk_stop :: "risk_engine \<Rightarrow> risk_engine" where
  "risk_stop s = s\<lparr>rk_started := False\<rparr>"

subsection \<open>Publishing\<close>

definition risk_publish :: "topic \<Rightarrow> event \<Rightarrow> risk_engine \<Rightarrow> risk_engine" where
  "risk_publish t e s =
     (case publish t e (rk_bus s) of
        (b, r) \<Rightarrow>
          (let s1 = s\<lparr>rk_bus := b, rk_sent := rk_sent s @ [(t, e, r = Inr ())]\<rparr>
           in if r = Inr () then s1 else s1\<lparr>rk_dropped := rk_dropped s1 + 1\<rparr>))"

definition engage_kill_switch :: "string \<Rightarrow> py_text \<Rightarrow> risk_engine \<Rightarrow> risk_engine" where
  "engage_kill_switch by_whom reason s =
     (let k = kill_engage (rk_now s) by_whom reason (rk_kill s);
          s1 = s\<lparr>rk_kill := k\<rparr>
      in if kw_engaged (rk_kill s) then s1
         else risk_publish ALERTS (EvKillSwitch \<lparr>ts_event = rk_now s, ts_ingest = rk_now s,
                source = ''risk_engine'', ks_triggered_by = kw_triggered_by k,
                ks_reason = kw_reason k\<rparr>) s1)"

definition publish_decision ::
    "signal_event \<Rightarrow> bool \<Rightarrow> severity \<Rightarrow> string option \<Rightarrow> approved_leg list \<Rightarrow> rejected_leg list \<Rightarrow>
     risk_engine \<Rightarrow> risk_engine" where
  "publish_decision sg ok sev rule als rls s =
     risk_publish RISK_DECISIONS (EvDecision \<lparr>ts_event = rk_now s, ts_ingest = rk_now s,
       source = ''risk_engine'', rd_signal_id = sig_id sg, rd_strategy = sig_strategy sg,
       rd_approved = ok, rd_severity = sev, rd_rule_name = rule, rd_approved_legs = als,
       rd_rejected_legs = rls\<rparr>) s"

definition publish_alert :: "string \<times> rule_result \<Rightarrow> risk_engine \<Rightarrow> risk_engine" where
  "publish_alert a s =
     risk_publish ALERTS (EvRiskAlert \<lparr>ts_event = rk_now s, ts_ingest = rk_now s,
       source = ''risk_engine'', ra_rule_name = fst a, ra_severity = rr_severity (snd a)\<rparr>) s"

subsection \<open>One leg\<close>

definition guarded_evaluate ::
    "risk_rule \<Rightarrow> signal_event \<Rightarrow> nat \<Rightarrow> risk_engine \<Rightarrow> rule_result \<times> risk_engine" where
  "guarded_evaluate r sg i s =
     (case evaluate r (rk_now s) sg i (rk_state s) of
        (v, rs) \<Rightarrow>
          (case v of
             Inl e \<Rightarrow> rule_reject (rule_name r) (Text ''rule raised exception; failing closed'') BLOCK
           | Inr res \<Rightarrow> res, s\<lparr>rk_state := rs\<rparr>))"

fun run_rules ::
    "risk_rule list \<Rightarrow> signal_event \<Rightarrow> nat \<Rightarrow> risk_engine \<Rightarrow> (string \<times> rule_result) list \<times> risk_engine" where
  "run_rules [] sg i s = ([], s)"
| "run_rules (r # rules) sg i s =
     (case guarded_evaluate r sg i s of
        (v, s1) \<Rightarrow>
          (case run_rules rules sg i s1 of (vs, s2) \<Rightarrow> ((rule_name r, v) # vs, s2)))"

definition flagged :: "rule_result \<Rightarrow> bool" where
  "flagged v \<longleftrightarrow> rr_severity v \<in> {WARN, BLOCK, KILL}"

text \<open>The code compares the text of the severities, so the order is alphabetical.\<close>

definition worse :: "rule_result \<Rightarrow> severity \<Rightarrow> severity" where
  "worse v w =
     (if flagged v \<and> severity_value w < severity_value (rr_severity v) then rr_severity v else w)"

definition tightest_clamp :: "dec \<Rightarrow> rule_result list \<Rightarrow> dec \<times> py_text" where
  "tightest_clamp q vs =
     foldl (\<lambda>(q, why) v. case rr_quantity v of
                             None \<Rightarrow> (q, why)
                           | Some c \<Rightarrow> if c < q then (c, rr_reason v) else (q, why)) (q, Text []) vs"

definition below_min_notional :: "instrument \<Rightarrow> dec option \<Rightarrow> dec \<Rightarrow> bool" where
  "below_min_notional ins price q =
     (case (i_min_notional ins, price) of
        (Some m, Some p) \<Rightarrow> 0 < p \<and> dmul p q < m
      | _ \<Rightarrow> False)"

record leg_loop =
  lp_engine :: risk_engine
  lp_approved :: "approved_leg list"
  lp_rejected :: "rejected_leg list"
  lp_worst :: severity
  lp_kill :: bool
  lp_alerts :: "(string \<times> rule_result) list"

definition reject_leg :: "order_leg \<Rightarrow> string \<Rightarrow> severity \<Rightarrow> leg_loop \<Rightarrow> leg_loop" where
  "reject_leg leg rule sev st =
     st\<lparr>lp_rejected := lp_rejected st @
          [\<lparr>rl_leg_id = leg_id leg, rl_side = leg_side leg, rl_rule_name = rule, rl_severity = sev\<rparr>]\<rparr>"

definition judge_leg ::
    "signal_event \<Rightarrow> order_leg \<Rightarrow> rule_result list \<Rightarrow> leg_loop \<Rightarrow> leg_loop" where
  "judge_leg sg leg vs st =
     (case find (\<lambda>v. \<not> rr_approved v) vs of
        Some v \<Rightarrow>
          (let st1 = (if rr_severity v = KILL
                      then st\<lparr>lp_engine := engage_kill_switch (rr_rule_name v) (rr_reason v) (lp_engine st),
                              lp_kill := True\<rparr>
                      else st)
           in reject_leg leg (rr_rule_name v) (rr_severity v) st1)
      | None \<Rightarrow>
          (case tightest_clamp (leg_quantity leg) vs of
             (q, why) \<Rightarrow>
               if below_min_notional (sig_instrument sg) (leg_price leg) q
               then reject_leg leg ''min_notional'' INFO st
               else st\<lparr>lp_approved := lp_approved st @
                         [\<lparr>al_leg_id = leg_id leg, al_side = leg_side leg, al_quantity = q,
                           al_clamp_reason = why\<rparr>]\<rparr>))"

definition eval_leg ::
    "risk_rule list \<Rightarrow> signal_event \<Rightarrow> nat \<times> order_leg \<Rightarrow> leg_loop \<Rightarrow> leg_loop" where
  "eval_leg rules sg il st =
     (case il of
        (i, leg) \<Rightarrow>
          if lp_kill st then reject_leg leg ''kill_switch'' KILL st
          else
            case run_rules rules sg i (lp_engine st) of
              (named, s1) \<Rightarrow>
                judge_leg sg leg (map snd named)
                  (st\<lparr>lp_engine := s1, lp_worst := fold worse (map snd named) (lp_worst st),
                      lp_alerts := lp_alerts st @ filter (\<lambda>a. flagged (snd a)) named\<rparr>))"

definition eval_legs :: "risk_rule list \<Rightarrow> signal_event \<Rightarrow> risk_engine \<Rightarrow> leg_loop" where
  "eval_legs rules sg s =
     fold (eval_leg rules sg) (enumerate 0 (sig_legs sg))
       \<lparr>lp_engine = s, lp_approved = [], lp_rejected = [], lp_worst = INFO, lp_kill = False,
        lp_alerts = []\<rparr>"

subsection \<open>The handlers\<close>

definition active_rules :: "strategy_id \<Rightarrow> risk_engine \<Rightarrow> risk_rule list" where
  "active_rules sid s = rk_global s @ dget_or [] (rk_rules s) sid"

definition publish_verdict :: "signal_event \<Rightarrow> leg_loop \<Rightarrow> risk_engine" where
  "publish_verdict sg st =
     (let als = lp_approved st; rls = lp_rejected st; s = lp_engine st;
          s1 = (if sig_atomic sg \<and> rls \<noteq> [] then
                  publish_decision sg False (lp_worst st) (Some (rl_rule_name (hd rls))) [] rls s
                else if als = [] then
                  publish_decision sg False (lp_worst st)
                    (if rls \<noteq> [] then Some (rl_rule_name (hd rls)) else None) [] rls s
                else publish_decision sg True INFO None als rls s)
      in fold publish_alert (lp_alerts st) s1)"

definition risk_on_signal :: "event \<Rightarrow> risk_engine \<Rightarrow> risk_engine" where
  "risk_on_signal e s =
     (case e of
        EvSignal sg \<Rightarrow>
          (let s1 = s\<lparr>rk_state := record_signal (rk_now s) (sig_strategy sg) (rk_state s)\<rparr>
           in if kw_engaged (rk_kill s1)
              then publish_decision sg False KILL (Some (kw_triggered_by (rk_kill s1))) [] [] s1
              else publish_verdict sg (eval_legs (active_rules (sig_strategy sg) s1) sg s1))
      | _ \<Rightarrow> s)"

definition risk_on_fill :: "event \<Rightarrow> risk_engine \<Rightarrow> risk_engine" where
  "risk_on_fill e s =
     (case e of EvFill f \<Rightarrow> s\<lparr>rk_state := apply_fill_position f (rk_state s)\<rparr> | _ \<Rightarrow> s)"

definition risk_on_position_update :: "event \<Rightarrow> risk_engine \<Rightarrow> risk_engine" where
  "risk_on_position_update e s =
     (case e of EvPosition u \<Rightarrow> s\<lparr>rk_state := apply_position_update (rk_now s) u (rk_state s)\<rparr> | _ \<Rightarrow> s)"

definition risk_on_open_orders :: "event \<Rightarrow> risk_engine \<Rightarrow> risk_engine" where
  "risk_on_open_orders e s =
     (case e of EvOpenOrders snap \<Rightarrow> s\<lparr>rk_state := apply_open_orders_snapshot snap (rk_state s)\<rparr> | _ \<Rightarrow> s)"

definition risk_on_analytics :: "event \<Rightarrow> risk_engine \<Rightarrow> risk_engine" where
  "risk_on_analytics e s =
     (case e of EvMicrostructure m \<Rightarrow> s\<lparr>rk_state := apply_analytics_snapshot m (rk_state s)\<rparr> | _ \<Rightarrow> s)"

record risk_counters =
  rc_engaged :: bool
  rc_reason :: "py_text option"
  rc_dropped :: nat

definition risk_snapshot :: "risk_engine \<Rightarrow> risk_counters" where
  "risk_snapshot s =
     \<lparr>rc_engaged = kw_engaged (rk_kill s),
      rc_reason = (if kw_engaged (rk_kill s) then Some (kw_reason (rk_kill s)) else None),
      rc_dropped = rk_dropped s\<rparr>"

end
