(* ===== verification/Risk_Properties.thy ===== *)
theory Risk_Properties
  imports Risk_Engine "HOL-Library.Sublist" "HOL-Library.Multiset"
begin

text \<open>
  The risk engine over its histories: \<open>risk_op\<close> lists everything that reaches it (events, the
  operator, the passing of time, the other parties of the bus) and \<open>risk_do\<close> performs one. The
  loop over the legs is summarised by one invariant, \<open>leg_ok\<close> for the approved legs and a partition
  of the legs seen so far; the properties of the decisions are read off it.
\<close>

datatype risk_op =
    RSignal event | RFill event | RPosition event | ROpenOrders event | RAnalytics event
  | RKill string string | RReset | RNewSession
  | RRegister strategy_id "risk_rule list" | RRegisterGlobal "risk_rule list" | RStart | RStop
  | RTime timestamp | RBus async_bus

fun risk_do :: "risk_op \<Rightarrow> risk_engine \<Rightarrow> risk_engine" where
  "risk_do (RSignal e) s = risk_on_signal e s"
| "risk_do (RFill e) s = risk_on_fill e s"
| "risk_do (RPosition e) s = risk_on_position_update e s"
| "risk_do (ROpenOrders e) s = risk_on_open_orders e s"
| "risk_do (RAnalytics e) s = risk_on_analytics e s"
| "risk_do (RKill who why) s = engage_kill_switch who (Text why) s"
| "risk_do RReset s = s\<lparr>rk_kill := kill_reset (rk_kill s)\<rparr>"
| "risk_do RNewSession s = s\<lparr>rk_state := start_new_session (rk_now s) (rk_state s)\<rparr>"
| "risk_do (RRegister sid rules) s = (case register_rules sid rules s of Inl _ \<Rightarrow> s | Inr s1 \<Rightarrow> s1)"
| "risk_do (RRegisterGlobal rules) s = (case register_global_rules rules s of Inl _ \<Rightarrow> s | Inr s1 \<Rightarrow> s1)"
| "risk_do RStart s = fst (risk_start s)"
| "risk_do RStop s = risk_stop s"
| "risk_do (RTime t) s = s\<lparr>rk_now := t\<rparr>"
| "risk_do (RBus b) s = s\<lparr>rk_bus := b\<rparr>"

definition risk_run :: "risk_op list \<Rightarrow> risk_engine \<Rightarrow> risk_engine" where
  "risk_run ops s = fold risk_do ops s"

subsection \<open>What publishing leaves alone\<close>

lemma risk_publish_sel [simp]:
  "rk_now (risk_publish t e s) = rk_now s" "rk_state (risk_publish t e s) = rk_state s"
  "rk_kill (risk_publish t e s) = rk_kill s" "rk_rules (risk_publish t e s) = rk_rules s"
  "rk_global (risk_publish t e s) = rk_global s"
  by (simp_all add: risk_publish_def Let_def split: prod.split)

lemma risk_publish_sent:
  "rk_sent (risk_publish t e s) = rk_sent s @ [(t, e, snd (publish t e (rk_bus s)) = Inr ())]"
  by (simp add: risk_publish_def Let_def split: prod.split)

text \<open>A stretch of a handler that publishes on \<open>ALERTS\<close> only.\<close>

definition alerting :: "risk_engine \<Rightarrow> risk_engine \<Rightarrow> bool" where
  "alerting s s' \<longleftrightarrow>
     rk_now s' = rk_now s \<and> rs_positions (rk_state s') = rs_positions (rk_state s) \<and>
     rs_vpin (rk_state s') = rs_vpin (rk_state s) \<and>
     (peak_is_equity (rk_state s) \<longrightarrow> peak_is_equity (rk_state s')) \<and>
     (\<exists>new. rk_sent s' = rk_sent s @ new \<and> (\<forall>x \<in> set new. fst x = ALERTS))"

lemma alerting_refl [simp]: "alerting s s"
  by (simp add: alerting_def)

lemma alerting_trans: "alerting s s' \<Longrightarrow> alerting s' s'' \<Longrightarrow> alerting s s''"
  by (auto simp: alerting_def)

lemma alerting_publish [simp]: "alerting s (risk_publish ALERTS e s)"
  by (simp add: alerting_def risk_publish_sent)

lemma alerting_state:
  "rs_positions rs = rs_positions (rk_state s) \<Longrightarrow> rs_vpin rs = rs_vpin (rk_state s) \<Longrightarrow>
   (peak_is_equity (rk_state s) \<Longrightarrow> peak_is_equity rs) \<Longrightarrow> alerting s (s\<lparr>rk_state := rs\<rparr>)"
  by (simp add: alerting_def)

lemma alerting_engage [simp]: "alerting s (engage_kill_switch w r s)"
  by (auto simp: engage_kill_switch_def Let_def alerting_def risk_publish_sent)

lemma alerting_alerts [simp]: "alerting s (fold publish_alert al s)"
proof (induction al arbitrary: s)
  case (Cons a al)
  then show ?case using alerting_trans [of s "publish_alert a s"] by (simp add: publish_alert_def)
qed simp

lemma evaluate_vpin [simp]: "rs_vpin (snd (evaluate r now sg i rs)) = rs_vpin rs"
  by (cases r) (auto simp: eval_throttle_def eval_daily_loss_def signals_in_window_def
      get_realized_pnl_today_def maybe_rollover_def Let_def split: option.splits prod.splits)

lemma alerting_guarded: "alerting s (snd (guarded_evaluate r sg i s))"
  by (auto simp: guarded_evaluate_def case_prod_beta intro!: alerting_state evaluate_peak)

lemma alerting_run_rules: "alerting s (snd (run_rules rules sg i s))"
proof (induction rules arbitrary: s)
  case Nil
  then show ?case by simp
next
  case (Cons r rules)
  show ?case using alerting_trans [OF alerting_guarded Cons.IH] by (simp add: case_prod_beta)
qed

subsection \<open>The loop over the legs\<close>

text \<open>
  Leg \<open>i\<close> was approved as \<open>a\<close>: every rule approved it, in a state with the same positions and
  VPIN values as at the start, no rule's clamp is exceeded, and the minimum notional is met.
\<close>

definition leg_ok :: "risk_rule list \<Rightarrow> signal_event \<Rightarrow> risk_engine \<Rightarrow> approved_leg \<Rightarrow> nat \<Rightarrow> bool" where
  "leg_ok rules sg s a i \<longleftrightarrow>
     (let leg = sig_legs sg ! i
      in i < length (sig_legs sg) \<and> al_leg_id a = leg_id leg \<and> al_side a = leg_side leg \<and>
         al_quantity a \<le> leg_quantity leg \<and>
         \<not> below_min_notional (sig_instrument sg) (leg_price leg) (al_quantity a) \<and>
         (\<forall>r \<in> set rules. \<exists>rs v. rs_positions rs = rs_positions (rk_state s) \<and>
            rs_vpin rs = rs_vpin (rk_state s) \<and>
            fst (evaluate r (rk_now s) sg i rs) = Inr v \<and> rr_approved v \<and>
            (\<forall>c. rr_quantity v = Some c \<longrightarrow> al_quantity a \<le> c)))"

lemma tightest_clamp_le:
  "fst (tightest_clamp q vs) \<le> q \<and>
   (\<forall>v \<in> set vs. \<forall>c. rr_quantity v = Some c \<longrightarrow> fst (tightest_clamp q vs) \<le> c)"
proof -
  define step where "step = (\<lambda>(q, why) (v :: rule_result). case rr_quantity v of
      None \<Rightarrow> (q, why) | Some c \<Rightarrow> if c < q then (c, rr_reason v) else (q, why :: py_text))"
  have step: "fst (step p v) \<le> fst p" "rr_quantity v = Some c \<Longrightarrow> fst (step p v) \<le> c" for p v c
    by (auto simp: step_def split: option.splits prod.splits)
  have "fst (foldl step p vs) \<le> fst p \<and>
      (\<forall>v \<in> set vs. \<forall>c. rr_quantity v = Some c \<longrightarrow> fst (foldl step p vs) \<le> c)" for p
  proof (induction vs arbitrary: p)
    case (Cons v vs)
    have i: "fst (foldl step (step p v) vs) \<le> fst (step p v)"
      "\<And>u c. u \<in> set vs \<Longrightarrow> rr_quantity u = Some c \<Longrightarrow> fst (foldl step (step p v) vs) \<le> c"
      using Cons.IH [of "step p v"] by blast+
    show ?case using order_trans [OF i(1) step(1)] order_trans [OF i(1) step(2)] i(2) by auto
  qed simp
  from this [of "(q, Text [])"] show ?thesis by (simp add: tightest_clamp_def step_def)
qed

lemma run_rules_approved:
  assumes "\<forall>v \<in> snd ` set (fst (run_rules rules sg i s)). rr_approved v"
    and "rs_positions (rk_state s) = P" "rs_vpin (rk_state s) = V" "rk_now s = t"
    and "r \<in> set rules"
  shows "\<exists>rs v. rs_positions rs = P \<and> rs_vpin rs = V \<and> fst (evaluate r t sg i rs) = Inr v \<and>
    rr_approved v \<and> v \<in> snd ` set (fst (run_rules rules sg i s))"
  using assms
proof (induction rules arbitrary: s)
  case Nil
  then show ?case by simp
next
  case (Cons r' rules)
  obtain v s1 where g: "guarded_evaluate r' sg i s = (v, s1)" by force
  obtain vs s2 where rr: "run_rules rules sg i s1 = (vs, s2)" by force
  have al: "alerting s s1" using alerting_guarded [of s r' sg i] g by simp
  show ?case
  proof (cases "r = r'")
    case True
    from Cons.prems g rr have "rr_approved v" by simp
    with g have "fst (evaluate r' (rk_now s) sg i (rk_state s)) = Inr v"
      by (auto simp: guarded_evaluate_def case_prod_beta split: sum.splits)
    with True \<open>rr_approved v\<close> Cons.prems g rr show ?thesis by (intro exI [of _ "rk_state s"]) auto
  next
    case False
    then have "r \<in> set rules" using Cons.prems by simp
    with Cons.IH [of s1] Cons.prems al g rr show ?thesis by (auto simp: alerting_def)
  qed
qed

definition leg_key :: "order_leg \<Rightarrow> string \<times> side" where
  "leg_key leg = (leg_id leg, leg_side leg)"

definition loop_ok :: "risk_rule list \<Rightarrow> signal_event \<Rightarrow> risk_engine \<Rightarrow> nat \<Rightarrow> leg_loop \<Rightarrow> bool" where
  "loop_ok rules sg s n st \<longleftrightarrow>
     alerting s (lp_engine st) \<and>
     (\<exists>js. sorted_wrt (<) js \<and> set js \<subseteq> {..<n} \<and> list_all2 (leg_ok rules sg s) (lp_approved st) js) \<and>
     mset (map (\<lambda>a. (al_leg_id a, al_side a)) (lp_approved st)) +
       mset (map (\<lambda>r. (rl_leg_id r, rl_side r)) (lp_rejected st)) =
       mset (map leg_key (take n (sig_legs sg)))"

lemma loop_ok_reject:
  assumes "loop_ok rules sg s n st" "n < length (sig_legs sg)"
    and "alerting (lp_engine st) (lp_engine st')" "lp_approved st' = lp_approved st"
    and "lp_rejected st' = lp_rejected st"
  shows "loop_ok rules sg s (Suc n) (reject_leg (sig_legs sg ! n) rule sev st')"
proof -
  from assms(1) obtain js where "sorted_wrt (<) js" "set js \<subseteq> {..<n}"
    "list_all2 (leg_ok rules sg s) (lp_approved st) js" by (auto simp: loop_ok_def)
  then have "\<exists>js. sorted_wrt (<) js \<and> set js \<subseteq> {..<Suc n} \<and>
      list_all2 (leg_ok rules sg s) (lp_approved st) js" by (auto intro!: exI [of _ "js"])
  with assms show ?thesis
    by (auto simp: loop_ok_def reject_leg_def take_Suc_conv_app_nth leg_key_def intro: alerting_trans)
qed

lemma loop_ok_approve:
  assumes "loop_ok rules sg s n st" "n < length (sig_legs sg)"
    and "alerting (lp_engine st) (lp_engine st')" "lp_approved st' = lp_approved st"
    and "lp_rejected st' = lp_rejected st" and "leg_ok rules sg s a n"
  shows "loop_ok rules sg s (Suc n) (st'\<lparr>lp_approved := lp_approved st' @ [a]\<rparr>)"
proof -
  from assms(1) obtain js where i: "sorted_wrt (<) js" "set js \<subseteq> {..<n}"
    "list_all2 (leg_ok rules sg s) (lp_approved st) js" by (auto simp: loop_ok_def)
  have "\<exists>js. sorted_wrt (<) js \<and> set js \<subseteq> {..<Suc n} \<and>
      list_all2 (leg_ok rules sg s) (lp_approved st @ [a]) js"
    by (rule exI [of _ "js @ [n]"])
      (use i assms(6) in \<open>auto simp: sorted_wrt_append list_all2_appendI\<close>)
  moreover have "(al_leg_id a, al_side a) = leg_key (sig_legs sg ! n)"
    using assms(6) by (simp add: leg_ok_def leg_key_def Let_def)
  ultimately show ?thesis
    using assms by (auto simp: loop_ok_def take_Suc_conv_app_nth intro: alerting_trans)
qed

lemma loop_ok_step:
  assumes st: "loop_ok rules sg s n st" and n: "n < length (sig_legs sg)"
  shows "loop_ok rules sg s (Suc n) (eval_leg rules sg (n, sig_legs sg ! n) st)"
proof (cases "lp_kill st")
  case True
  then show ?thesis using loop_ok_reject [OF st n] by (simp add: eval_leg_def)
next
  case False
  let ?leg = "sig_legs sg ! n"
  obtain named s1 where rr: "run_rules rules sg n (lp_engine st) = (named, s1)" by force
  let ?vs = "map snd named"
  let ?st = "st\<lparr>lp_engine := s1, lp_worst := fold worse ?vs (lp_worst st),
      lp_alerts := lp_alerts st @ filter (\<lambda>a. flagged (snd a)) named\<rparr>"
  have al: "alerting (lp_engine st) (lp_engine ?st)"
    using alerting_run_rules [of "lp_engine st" rules sg n] rr by simp
  have e: "eval_leg rules sg (n, ?leg) st = judge_leg sg ?leg ?vs ?st"
    using False rr by (simp add: eval_leg_def)
  show ?thesis
  proof (cases "find (\<lambda>v. \<not> rr_approved v) ?vs")
    case (Some v)
    let ?st1 = "if rr_severity v = KILL
        then ?st\<lparr>lp_engine := engage_kill_switch (rr_rule_name v) (rr_reason v) s1, lp_kill := True\<rparr> else ?st"
    have "alerting (lp_engine st) (lp_engine ?st1)"
      using alerting_trans [OF al alerting_engage] al by simp
    then show ?thesis unfolding e
      using loop_ok_reject [OF st n, of ?st1 "rr_rule_name v" "rr_severity v"] Some
      by (simp add: judge_leg_def Let_def split: if_splits)
  next
    case None
    obtain q why where q: "tightest_clamp (leg_quantity ?leg) ?vs = (q, why)" by force
    show ?thesis
    proof (cases "below_min_notional (sig_instrument sg) (leg_price ?leg) q")
      case True
      then show ?thesis unfolding e using loop_ok_reject [OF st n, of ?st] al None q
        by (simp add: judge_leg_def)
    next
      case nb: False
      let ?a = "\<lparr>al_leg_id = leg_id ?leg, al_side = leg_side ?leg, al_quantity = q, al_clamp_reason = why\<rparr>"
      have fr: "rs_positions (rk_state (lp_engine st)) = rs_positions (rk_state s)"
        "rs_vpin (rk_state (lp_engine st)) = rs_vpin (rk_state s)" "rk_now (lp_engine st) = rk_now s"
        using st by (auto simp: loop_ok_def alerting_def)
      have ap: "\<forall>v \<in> snd ` set (fst (run_rules rules sg n (lp_engine st))). rr_approved v"
        using None rr by (auto simp: find_None_all)
      have le: "q \<le> leg_quantity ?leg" "\<And>v c. v \<in> set ?vs \<Longrightarrow> rr_quantity v = Some c \<Longrightarrow> q \<le> c"
        using tightest_clamp_le [of "leg_quantity ?leg" ?vs] q by auto
      have "leg_ok rules sg s ?a n"
        unfolding leg_ok_def Let_def
      proof (intro conjI ballI)
        fix r assume "r \<in> set rules"
        from run_rules_approved [OF ap fr this] le(2) rr
        show "\<exists>rs v. rs_positions rs = rs_positions (rk_state s) \<and> rs_vpin rs = rs_vpin (rk_state s) \<and>
            fst (evaluate r (rk_now s) sg n rs) = Inr v \<and> rr_approved v \<and>
            (\<forall>c. rr_quantity v = Some c \<longrightarrow> al_quantity ?a \<le> c)" by fastforce
      qed (use n nb le in auto)
      then show ?thesis unfolding e using loop_ok_approve [OF st n, of ?st] al None q nb
        by (simp add: judge_leg_def)
    qed
  qed
qed

lemma fold_enumerate:
  assumes "P 0 x" and "\<And>n y. n < length xs \<Longrightarrow> P n y \<Longrightarrow> P (Suc n) (f (n, xs ! n) y)"
  shows "P (length xs) (fold f (enumerate 0 xs) x)"
proof -
  have "k \<le> length xs \<Longrightarrow> P k (fold f (take k (enumerate 0 xs)) x)" for k
  proof (induction k)
    case (Suc k)
    then show ?case using assms(2) [of k] by (simp add: take_Suc_conv_app_nth nth_enumerate_eq)
  qed (use assms(1) in simp)
  from this [of "length xs"] show ?thesis by simp
qed

lemma eval_legs_ok: "loop_ok rules sg s (length (sig_legs sg)) (eval_legs rules sg s)"
  unfolding eval_legs_def
  by (rule fold_enumerate) (auto simp: loop_ok_step, auto simp: loop_ok_def)

subsection \<open>The decision\<close>

text \<open>\<open>d\<close> is a decision published while \<open>s\<close> handled the signal \<open>sg\<close>.\<close>

definition decided :: "risk_engine \<Rightarrow> signal_event \<Rightarrow> risk_decision \<Rightarrow> bool" where
  "decided s sg d \<longleftrightarrow>
     (\<exists>ok. (RISK_DECISIONS, EvDecision d, ok) \<in>
        set (drop (length (rk_sent s)) (rk_sent (risk_on_signal (EvSignal sg) s))))"

definition recorded :: "signal_event \<Rightarrow> risk_engine \<Rightarrow> risk_engine" where
  "recorded sg s = s\<lparr>rk_state := record_signal (rk_now s) (sig_strategy sg) (rk_state s)\<rparr>"

definition signal_loop :: "signal_event \<Rightarrow> risk_engine \<Rightarrow> leg_loop" where
  "signal_loop sg s = eval_legs (active_rules (sig_strategy sg) s) sg (recorded sg s)"

lemma recorded_sel [simp]:
  "rk_now (recorded sg s) = rk_now s" "rk_sent (recorded sg s) = rk_sent s"
  "rk_kill (recorded sg s) = rk_kill s"
  "rs_positions (rk_state (recorded sg s)) = rs_positions (rk_state s)"
  "rs_vpin (rk_state (recorded sg s)) = rs_vpin (rk_state s)"
  "peak_is_equity (rk_state (recorded sg s)) = peak_is_equity (rk_state s)"
  by (simp_all add: recorded_def record_signal_def peak_is_equity_def)

lemma leg_ok_recorded [simp]: "leg_ok rules sg (recorded sg s) = leg_ok rules sg s"
  by (simp add: leg_ok_def fun_eq_iff)

lemma signal_loop_ok:
  "alerting (recorded sg s) (lp_engine (signal_loop sg s))"
  "\<exists>js. sorted_wrt (<) js \<and> set js \<subseteq> {..<length (sig_legs sg)} \<and>
     list_all2 (leg_ok (active_rules (sig_strategy sg) s) sg s) (lp_approved (signal_loop sg s)) js"
  "mset (map (\<lambda>a. (al_leg_id a, al_side a)) (lp_approved (signal_loop sg s))) +
     mset (map (\<lambda>r. (rl_leg_id r, rl_side r)) (lp_rejected (signal_loop sg s))) =
     mset (map leg_key (sig_legs sg))"
  using eval_legs_ok [of "active_rules (sig_strategy sg) s" sg "recorded sg s"]
  by (auto simp: loop_ok_def signal_loop_def)

lemma risk_on_signal_eq:
  "risk_on_signal (EvSignal sg) s =
     (if kw_engaged (rk_kill s)
      then publish_decision sg False KILL (Some (kw_triggered_by (rk_kill s))) [] [] (recorded sg s)
      else publish_verdict sg (signal_loop sg s))"
  by (simp add: risk_on_signal_def recorded_def signal_loop_def active_rules_def Let_def)

text \<open>What the handler publishes: alerts, one decision, alerts.\<close>

definition good_decision :: "risk_engine \<Rightarrow> signal_event \<Rightarrow> risk_decision \<Rightarrow> bool" where
  "good_decision s sg d \<longleftrightarrow>
     rd_signal_id d = sig_id sg \<and> rd_strategy d = sig_strategy sg \<and>
     (if rd_approved d
      then \<not> kw_engaged (rk_kill s) \<and> rd_approved_legs d = lp_approved (signal_loop sg s) \<and>
           rd_rejected_legs d = lp_rejected (signal_loop sg s) \<and> rd_approved_legs d \<noteq> [] \<and>
           (sig_atomic sg \<longrightarrow> rd_rejected_legs d = [])
      else rd_approved_legs d = [] \<and>
           (kw_engaged (rk_kill s) \<longrightarrow>
              rd_severity d = KILL \<and> rd_rule_name d = Some (kw_triggered_by (rk_kill s))))"

lemma publish_decision_good:
  assumes "alerting (recorded sg s) s1"
    and "\<And>d. rd_signal_id d = sig_id sg \<Longrightarrow> rd_strategy d = sig_strategy sg \<Longrightarrow> rd_approved d = ok \<Longrightarrow>
           rd_severity d = sev \<Longrightarrow> rd_rule_name d = rule \<Longrightarrow> rd_approved_legs d = als \<Longrightarrow>
           rd_rejected_legs d = rls \<Longrightarrow> good_decision s sg d"
  shows "\<exists>pre d r post. rk_sent (fold publish_alert al (publish_decision sg ok sev rule als rls s1)) =
      rk_sent s @ pre @ (RISK_DECISIONS, EvDecision d, r) # post \<and>
      (\<forall>x \<in> set pre \<union> set post. fst x = ALERTS) \<and> good_decision s sg d"
proof -
  let ?s2 = "publish_decision sg ok sev rule als rls s1"
  obtain pre where pre: "rk_sent s1 = rk_sent s @ pre" "\<forall>x \<in> set pre. fst x = ALERTS"
    using assms(1) by (auto simp: alerting_def)
  obtain d r where d: "rk_sent ?s2 = rk_sent s1 @ [(RISK_DECISIONS, EvDecision d, r)]" "good_decision s sg d"
    using assms(2) by (fastforce simp: publish_decision_def risk_publish_sent)
  obtain post where "rk_sent (fold publish_alert al ?s2) = rk_sent ?s2 @ post" "\<forall>x \<in> set post. fst x = ALERTS"
    using alerting_alerts [of ?s2 al] by (auto simp: alerting_def)
  with pre d show ?thesis by (intro exI [of _ pre] exI [of _ d] exI [of _ r] exI [of _ post]) auto
qed

lemma risk_on_signal_sends:
  "\<exists>pre d r post. rk_sent (risk_on_signal (EvSignal sg) s) =
      rk_sent s @ pre @ (RISK_DECISIONS, EvDecision d, r) # post \<and>
      (\<forall>x \<in> set pre \<union> set post. fst x = ALERTS) \<and> good_decision s sg d"
proof (cases "kw_engaged (rk_kill s)")
  case True
  then show ?thesis unfolding risk_on_signal_eq
    using publish_decision_good [of sg s "recorded sg s" False KILL
        "Some (kw_triggered_by (rk_kill s))" "[]" "[]" "[]"]
    by (simp add: good_decision_def)
next
  case False
  note pd = publish_decision_good [OF signal_loop_ok(1) [of sg s], where al = "lp_alerts (signal_loop sg s)"]
  show ?thesis unfolding risk_on_signal_eq publish_verdict_def Let_def
    by (simp add: False, intro conjI impI; rule pd) (simp_all add: good_decision_def False)
qed

lemma decided_good:
  "\<exists>d. good_decision s sg d \<and> (\<forall>d'. decided s sg d' \<longleftrightarrow> d' = d)"
proof -
  obtain pre d r post where *: "rk_sent (risk_on_signal (EvSignal sg) s) =
      rk_sent s @ pre @ (RISK_DECISIONS, EvDecision d, r) # post"
    "\<forall>x \<in> set pre \<union> set post. fst x = ALERTS" "good_decision s sg d"
    using risk_on_signal_sends [of sg s] by blast
  have no: "(RISK_DECISIONS, EvDecision d', ok) \<notin> set pre" "(RISK_DECISIONS, EvDecision d', ok) \<notin> set post"
    for d' ok using bspec [OF *(2), of "(RISK_DECISIONS, EvDecision d', ok)"] by auto
  have "decided s sg d' \<longleftrightarrow> d' = d" for d' by (simp add: decided_def *(1) no)
  with *(3) show ?thesis by blast
qed

lemma decidedD: "decided s sg d \<Longrightarrow> good_decision s sg d"
  using decided_good [of s sg] by metis

lemma approved_legs_ok:
  assumes "decided s sg d" "rd_approved d"
  shows "\<exists>js. sorted_wrt (<) js \<and> set js \<subseteq> {..<length (sig_legs sg)} \<and>
    list_all2 (leg_ok (active_rules (sig_strategy sg) s) sg s) (rd_approved_legs d) js"
  using signal_loop_ok(2) [of sg s] decidedD [OF assms(1)] assms(2) by (simp add: good_decision_def)

end
