(* ===== verification/Risk_Limits.thy ===== *)
theory Risk_Limits
  imports Risk_Properties Orders
begin

text \<open>
  What the risk engine guarantees: the shape of a decision, the latch of the kill switch, the
  position cap over all legs of a signal, and the two rules whose code does not do what they are
  for (the drawdown breaker never trips, the VPIN breaker refuses everything once VPIN is known).
\<close>

subsection \<open>Decisions\<close>


subsection \<open>The kill switch\<close>

definition refused :: "string \<Rightarrow> signal_event \<Rightarrow> topic \<times> event \<times> bool \<Rightarrow> bool" where
  "refused by_whom sg x \<longleftrightarrow>
     (case x of
        (t, EvDecision d, ok) \<Rightarrow>
          t = RISK_DECISIONS \<and> rd_signal_id d = sig_id sg \<and> \<not> rd_approved d \<and>
          rd_approved_legs d = [] \<and> rd_severity d = KILL \<and> rd_rule_name d = Some by_whom
      | _ \<Rightarrow> False)"

fun signals_of :: "risk_op list \<Rightarrow> signal_event list" where
  "signals_of (RSignal (EvSignal sg) # ops) = sg # signals_of ops"
| "signals_of (_ # ops) = signals_of ops"
| "signals_of [] = []"

lemma risk_stop_sel [simp]:
  "rk_kill (risk_stop s) = rk_kill s" "rk_sent (risk_stop s) = rk_sent s"
  by (simp_all add: risk_stop_def)

lemma risk_start_sel [simp]:
  "rk_kill (fst (risk_start s)) = rk_kill s" "rk_sent (fst (risk_start s)) = rk_sent s"
  "rk_state (fst (risk_start s)) = rk_state s"
  by (simp_all add: risk_start_def split: prod.split)

lemma register_sel:
  "register_rules sid rules s = Inr s1 \<Longrightarrow> rk_kill s1 = rk_kill s \<and> rk_sent s1 = rk_sent s \<and> rk_state s1 = rk_state s"
  "register_global_rules rules s = Inr s1 \<Longrightarrow> rk_kill s1 = rk_kill s \<and> rk_sent s1 = rk_sent s \<and> rk_state s1 = rk_state s"
  by (auto simp: register_rules_def register_global_rules_def split: if_splits)

lemma engaged_step:
  assumes "kw_engaged (rk_kill s)" "op \<noteq> RReset"
  shows "rk_kill (risk_do op s) = rk_kill s \<and>
    (\<exists>new. rk_sent (risk_do op s) = rk_sent s @ new \<and>
       list_all2 (refused (kw_triggered_by (rk_kill s))) (signals_of [op]) new)"
proof (cases op)
  case (RSignal e)
  then show ?thesis using assms(1)
    by (cases e) (auto simp: risk_on_signal_eq publish_decision_def risk_publish_sent refused_def,
        auto simp: risk_on_signal_def)
qed (use assms in \<open>auto simp: engage_kill_switch_def kill_engage_def risk_on_fill_def
      risk_on_position_update_def risk_on_open_orders_def risk_on_analytics_def
      split: sum.splits event.splits dest: register_sel\<close>)

lemma signals_of_Cons: "signals_of (op # ops) = signals_of [op] @ signals_of ops"
proof (cases op)
  case (RSignal e)
  then show ?thesis by (cases e) auto
qed auto

lemma engaged_run:
  assumes "kw_engaged (rk_kill s)" "RReset \<notin> set ops"
  shows "rk_kill (risk_run ops s) = rk_kill s \<and>
    (\<exists>new. rk_sent (risk_run ops s) = rk_sent s @ new \<and>
       list_all2 (refused (kw_triggered_by (rk_kill s))) (signals_of ops) new)"
  using assms
proof (induction ops arbitrary: s)
  case Nil
  then show ?case by (simp add: risk_run_def)
next
  case (Cons op ops)
  from engaged_step [of s op] Cons.prems obtain n1 where
    k: "rk_kill (risk_do op s) = rk_kill s" and
    n1: "rk_sent (risk_do op s) = rk_sent s @ n1"
      "list_all2 (refused (kw_triggered_by (rk_kill s))) (signals_of [op]) n1" by auto
  from Cons.IH [of "risk_do op s"] k Cons.prems obtain n2 where
    r: "rk_kill (risk_run ops (risk_do op s)) = rk_kill s" and
    n2: "rk_sent (risk_run ops (risk_do op s)) = rk_sent s @ n1 @ n2"
      "list_all2 (refused (kw_triggered_by (rk_kill s))) (signals_of ops) n2" by (auto simp: n1)
  show ?case
    using r n2 list_all2_appendI [OF n1(2) n2(2)]
    by (auto simp: risk_run_def signals_of_Cons [of op ops])
qed

text \<open>
  C17: The kill switch is a latch. From the moment it is engaged and until an operator resets it,
  whatever happens (signals, fills, position updates, a second trip, new rules, a restart), the
  source and the reason that tripped it first are kept, and the engine publishes nothing but one
  refusal of severity KILL, naming that source, for each signal it receives.
\<close>

theorem kill_switch_latched:
  assumes "kw_engaged (rk_kill s)" and "RReset \<notin> set ops"
  shows "rk_kill (risk_run ops s) = rk_kill s \<and>
    (\<exists>new. rk_sent (risk_run ops s) = rk_sent s @ new \<and>
       list_all2 (refused (kw_triggered_by (rk_kill s))) (signals_of ops) new)"
  using engaged_run [OF assms] .

definition sample_leg :: order_leg where
  "sample_leg = \<lparr>leg_id = ''b1'', leg_side = BUY, leg_quantity = 5, leg_price = Some 100,
     leg_type = OT_LIMIT, leg_tif = TIF_GTC, leg_intent = PASSIVE\<rparr>"

definition sample_quote :: signal_event where
  "sample_quote =
     \<lparr>ts_event = 1, ts_ingest = 1, source = ''strategy'', sig_id = 1, sig_strategy = ''mm'',
      sig_instrument = sample_instrument, sig_legs = [sample_leg, sample_leg\<lparr>leg_id := ''b2''\<rparr>],
      sig_atomic = False, sig_rationale = []\<rparr>"

definition sample_risk :: "risk_rule list \<Rightarrow> risk_engine" where
  "sample_risk rules = (risk_init (sample_bus 10 1) 1000)\<lparr>rk_global := rules\<rparr>"

definition sample_killed :: risk_engine where
  "sample_killed = engage_kill_switch ''ops'' (Text ''halt'') (sample_risk [])"

theorem kill_switch_latched_witness:
  "kw_reason (rk_kill (risk_run [RKill ''rule'' ''other'', RSignal (EvSignal sample_quote)] sample_killed))
     = Text ''halt''"
proof -
  have e: "rk_kill sample_killed = \<lparr>kw_engaged = True, kw_triggered_by = ''ops'',
      kw_reason = Text ''halt'', kw_at = 1000\<rparr>"
    by (simp add: sample_killed_def sample_risk_def risk_init_def engage_kill_switch_def
        kill_engage_def kill_switch_init_def Let_def)
  have "rk_kill (risk_run [RKill ''rule'' ''other'', RSignal (EvSignal sample_quote)] sample_killed)
      = rk_kill sample_killed"
    by (rule kill_switch_latched [THEN conjunct1]) (simp_all add: e)
  then show ?thesis by (simp add: e)
qed

subsection \<open>The position cap\<close>

definition side_total :: "side \<Rightarrow> order_leg list \<Rightarrow> dec" where
  "side_total sd legs = (\<Sum>leg \<leftarrow> filter (\<lambda>leg. leg_side leg = sd) legs. leg_quantity leg)"

definition approved_total :: "side \<Rightarrow> risk_decision \<Rightarrow> dec" where
  "approved_total sd d =
     (\<Sum>a \<leftarrow> filter (\<lambda>a. al_side a = sd) (rd_approved_legs d). al_quantity a)"

lemma list_all2_filter:
  assumes "list_all2 P xs ys" "\<And>x y. P x y \<Longrightarrow> F x = G y"
  shows "list_all2 P (filter F xs) (filter G ys)"
  using assms(1) by (induction rule: list_all2_induct) (auto simp: assms(2))

lemma sum_filter_enumerate:
  "(\<Sum>x \<leftarrow> filter P (enumerate m xs). f (snd x)) =
     (\<Sum>j | j < length xs \<and> P (m + j, xs ! j). (f (xs ! j) :: rat))"
proof (induction xs arbitrary: m)
  case Nil
  then show ?case by simp
next
  case (Cons x xs)
  let ?A = "{j. j < length xs \<and> P (Suc m + j, xs ! j)}"
  have s: "{j. j < length (x # xs) \<and> P (m + j, (x # xs) ! j)} =
      (if P (m, x) then {0} else {}) \<union> Suc ` ?A"
    by (auto simp: less_Suc_eq_0_disj nth_Cons' image_iff)
  have "(\<Sum>j | j < length (x # xs) \<and> P (m + j, (x # xs) ! j). f ((x # xs) ! j)) =
      (if P (m, x) then f x else 0) + (\<Sum>j \<in> ?A. f (xs ! j))"
    unfolding s by (subst sum.union_disjoint) (auto simp: sum.reindex)
  then show ?case using Cons.IH [of "Suc m"] by simp
qed

lemma side_total_sum:
  "side_total sd legs = (\<Sum>j | j < length legs \<and> leg_side (legs ! j) = sd. leg_quantity (legs ! j))"
proof -
  have "side_total sd legs =
      (\<Sum>x \<leftarrow> filter (\<lambda>x. leg_side (snd x) = sd) (enumerate 0 legs). leg_quantity (snd x))"
    unfolding side_total_def
    by (induction legs arbitrary: rule: rev_induct) (simp_all add: enumerate_append_eq)
  then show ?thesis by (simp add: sum_filter_enumerate)
qed

text \<open>The decimals of a signal, its strategy's position and a cap that stay within 28 digits.\<close>

definition cap_fits :: "nat \<Rightarrow> dec \<Rightarrow> dec \<Rightarrow> signal_event \<Rightarrow> risk_engine \<Rightarrow> bool" where
  "cap_fits k max_long max_short sg s \<longleftrightarrow>
     (let pos = get_position (sig_strategy sg) (sig_instrument sg) (rk_state s)
      in dgrid k max_long \<and> dgrid k max_short \<and> dgrid k pos \<and> 0 \<le> max_long \<and> 0 \<le> max_short \<and>
         (\<forall>leg \<in> set (sig_legs sg). dgrid k (leg_quantity leg) \<and> 0 < leg_quantity leg) \<and>
         (\<bar>pos\<bar> + max_long + max_short + (\<Sum>leg \<leftarrow> sig_legs sg. leg_quantity leg)) * 10 ^ k \<le> 10 ^ 28)"

lemma siblings_exact:
  assumes fit: "cap_fits k l sh sg s" and i: "i < length (sig_legs sg)"
  defines "sd \<equiv> leg_side (sig_legs sg ! i)"
  shows "same_side_siblings sg i = side_total sd (sig_legs sg) - leg_quantity (sig_legs sg ! i)"
    and "dgrid k (same_side_siblings sg i)" and "0 \<le> same_side_siblings sg i"
    and "side_total sd (sig_legs sg) \<le> (\<Sum>leg \<leftarrow> sig_legs sg. leg_quantity leg)"
proof -
  let ?legs = "sig_legs sg"
  let ?P = "\<lambda>x. fst x \<noteq> i \<and> leg_side (snd x) = sd"
  let ?xs = "map (\<lambda>(j, o1). leg_quantity o1) (filter ?P (enumerate 0 ?legs))"
  have q: "0 < leg_quantity (?legs ! j)" "dgrid k (leg_quantity (?legs ! j))" if "j < length ?legs" for j
    using fit that by (auto simp: cap_fits_def Let_def)
  have mem: "dgrid k x \<and> 0 < x" if "x \<in> set ?xs" for x
    using that q by (auto simp: in_set_enumerate_eq)
  let ?J = "{j. j < length ?legs \<and> j \<noteq> i \<and> leg_side (?legs ! j) = sd}"
  have sum: "sum_list ?xs = (\<Sum>j \<in> ?J. leg_quantity (?legs ! j))"
    using sum_filter_enumerate [of leg_quantity ?P 0 ?legs] by (simp add: case_prod_beta')
  have total: "side_total sd ?legs = leg_quantity (?legs ! i) + (\<Sum>j \<in> ?J. leg_quantity (?legs ! j))"
  proof -
    have "{j. j < length ?legs \<and> leg_side (?legs ! j) = sd} = insert i ?J" using i by (auto simp: sd_def)
    then show ?thesis by (simp add: side_total_sum)
  qed
  have all: "(\<Sum>leg \<leftarrow> ?legs. leg_quantity leg) = (\<Sum>j < length ?legs. leg_quantity (?legs ! j))"
    by (simp add: sum_list_sum_nth atLeast0LessThan)
  have le: "side_total sd ?legs \<le> (\<Sum>leg \<leftarrow> ?legs. leg_quantity leg)"
    unfolding all side_total_sum using q by (intro sum_mono2) (auto intro: less_imp_le)
  have nn: "0 \<le> sum_list ?xs" using mem by (intro sum_list_nonneg) (auto intro: less_imp_le)
  have "map abs ?xs = ?xs" by (intro map_idI abs_of_pos mem [THEN conjunct2])
  then have abs: "sum_list (map abs ?xs) = sum_list ?xs" by (rule arg_cong)
  have "sum_list ?xs \<le> (\<Sum>leg \<leftarrow> ?legs. leg_quantity leg)"
    using le total sum q(1) [OF i] by linarith
  moreover have "(\<Sum>leg \<leftarrow> ?legs. leg_quantity leg) * 10 ^ k \<le> 10 ^ 28"
  proof -
    have "(\<Sum>leg \<leftarrow> ?legs. leg_quantity leg) * 10 ^ k \<le> (\<bar>get_position (sig_strategy sg) (sig_instrument sg) (rk_state s)\<bar> + l + sh + (\<Sum>leg \<leftarrow> ?legs. leg_quantity leg)) * 10 ^ k"
      using fit by (intro mult_right_mono) (auto simp: cap_fits_def Let_def)
    also have "\<dots> \<le> 10 ^ 28" using fit by (auto simp: cap_fits_def Let_def)
    finally show ?thesis .
  qed
  ultimately have small: "sum_list (map abs ?xs) * 10 ^ k \<le> 10 ^ 28" unfolding abs
    by (meson mult_right_mono order_trans zero_le_numeral zero_le_power)
  have "dsum ?xs = sum_list ?xs" by (rule dsum_exact [OF _ small]) (use mem in blast)
  then have sib: "same_side_siblings sg i = sum_list ?xs"
    by (simp add: same_side_siblings_def sd_def case_prod_beta')
  show "same_side_siblings sg i = side_total sd ?legs - leg_quantity (?legs ! i)"
    unfolding sib sum total by simp
  show "dgrid k (same_side_siblings sg i)"
    unfolding sib by (rule dgrid_sum_list) (use mem in blast)
  show "0 \<le> same_side_siblings sg i" unfolding sib by (rule nn)
  show "side_total sd ?legs \<le> (\<Sum>leg \<leftarrow> ?legs. leg_quantity leg)" by (rule le)
qed

lemma headroom_exact:
  assumes fit: "cap_fits k l sh sg s" and i: "i < length (sig_legs sg)"
    and rs: "rs_positions rs = rs_positions (rk_state s)"
  defines "sd \<equiv> leg_side (sig_legs sg ! i)"
    and "pos \<equiv> get_position (sig_strategy sg) (sig_instrument sg) (rk_state s)"
  shows "position_headroom l sh sg i rs =
    (case sd of BUY \<Rightarrow> l - pos | SELL \<Rightarrow> pos + sh) - side_total sd (sig_legs sg) +
      leg_quantity (sig_legs sg ! i)"
proof -
  let ?sib = "same_side_siblings sg i"
  define B where "B = \<bar>pos\<bar> + l + sh + (\<Sum>leg \<leftarrow> sig_legs sg. leg_quantity leg)"
  note sib = siblings_exact [OF fit i]
  have q: "0 < leg_quantity (sig_legs sg ! i)" using fit i by (auto simp: cap_fits_def Let_def)
  have B: "B * 10 ^ k \<le> 10 ^ 28" and g: "dgrid k l" "dgrid k sh" "dgrid k pos" and nn: "0 \<le> l" "0 \<le> sh"
    using fit by (auto simp: cap_fits_def Let_def B_def pos_def)
  have le: "?sib \<le> (\<Sum>leg \<leftarrow> sig_legs sg. leg_quantity leg)" using sib q by linarith
  have d: "dfits k (pos + ?sib)" "dfits k (l - (pos + ?sib))" "dfits k (pos - ?sib)" "dfits k (pos - ?sib + sh)"
    by (rule dfitsI [OF _ _ B];
        use g nn sib le in \<open>auto simp: B_def intro!: dgrid_add dgrid_diff\<close>)+
  have p: "get_position (sig_strategy sg) (sig_instrument sg) rs = pos"
    using rs by (simp add: get_position_def pos_def)
  show ?thesis using d sib(1)
    by (cases sd) (simp_all add: position_headroom_def p sd_def [symmetric] dadd_exact dsub_exact)
qed

text \<open>What an approved leg leaves of the headroom.\<close>

lemma approved_within_headroom:
  assumes fit: "cap_fits k l sh sg s" and r: "MaxPositionRule l sh \<in> set rules"
    and ok: "leg_ok rules sg s a i"
  defines "pos \<equiv> get_position (sig_strategy sg) (sig_instrument sg) (rk_state s)"
  shows "al_quantity a \<le> (case al_side a of BUY \<Rightarrow> l - pos | SELL \<Rightarrow> pos + sh)
           - side_total (al_side a) (sig_legs sg) + leg_quantity (sig_legs sg ! i)"
proof -
  from ok have i: "i < length (sig_legs sg)" and sd: "al_side a = leg_side (sig_legs sg ! i)"
    and le: "al_quantity a \<le> leg_quantity (sig_legs sg ! i)" by (auto simp: leg_ok_def Let_def)
  from ok r obtain rs v where rs: "rs_positions rs = rs_positions (rk_state s)"
    and v: "eval_max_position l sh sg i rs = v" "rr_approved v" "\<And>c. rr_quantity v = Some c \<Longrightarrow> al_quantity a \<le> c"
    by (fastforce simp: leg_ok_def Let_def)
  have "al_quantity a \<le> position_headroom l sh sg i rs"
    using v le by (auto simp: eval_max_position_def Let_def split: if_splits)
  then show ?thesis unfolding headroom_exact [OF fit i rs] sd pos_def .
qed

lemma approved_side_bound:
  assumes "list_all2 (leg_ok rules sg s) as js" and "sorted_wrt (<) js" and "set js \<subseteq> {..<length (sig_legs sg)}"
    and r: "MaxPositionRule l sh \<in> set rules" and fit: "cap_fits k l sh sg s"
    and sd: "\<forall>a \<in> set as. al_side a = sd" "\<forall>j \<in> set js. leg_side (sig_legs sg ! j) = sd"
  defines "pos \<equiv> get_position (sig_strategy sg) (sig_instrument sg) (rk_state s)"
  shows "(\<Sum>a \<leftarrow> as. al_quantity a) \<le> max 0 (case sd of BUY \<Rightarrow> l - pos | SELL \<Rightarrow> pos + sh)"
proof (cases as)
  case Nil
  then show ?thesis by simp
next
  case (Cons a as')
  let ?legs = "sig_legs sg"
  from assms(1) Cons obtain j js' where j: "js = j # js'" "leg_ok rules sg s a j"
    "list_all2 (leg_ok rules sg s) as' js'" by (auto simp: list_all2_Cons1)
  have rest: "(\<Sum>a \<leftarrow> as'. al_quantity a) \<le> (\<Sum>i \<leftarrow> js'. leg_quantity (?legs ! i))"
    using j(3) by (induction rule: list_all2_induct) (auto simp: leg_ok_def Let_def intro: add_mono)
  have "distinct js" using assms(2) by (simp add: strict_sorted_iff)
  then have "(\<Sum>i \<leftarrow> js. leg_quantity (?legs ! i)) = (\<Sum>i \<in> set js. leg_quantity (?legs ! i))"
    by (rule sum_list_distinct_conv_sum_set)
  also have "\<dots> \<le> side_total sd ?legs" unfolding side_total_sum
    by (rule sum_mono2) (use assms(3) sd(2) fit in \<open>auto simp: cap_fits_def Let_def intro: less_imp_le\<close>)
  finally have total: "leg_quantity (?legs ! j) + (\<Sum>i \<leftarrow> js'. leg_quantity (?legs ! i)) \<le> side_total sd ?legs"
    by (simp add: j(1))
  have "al_side a = sd" using sd(1) Cons by simp
  with approved_within_headroom [OF fit r j(2)]
  have a: "al_quantity a \<le> (case sd of BUY \<Rightarrow> l - pos | SELL \<Rightarrow> pos + sh) - side_total sd ?legs
      + leg_quantity (?legs ! j)" unfolding pos_def by simp
  have "(\<Sum>a \<leftarrow> as. al_quantity a) = al_quantity a + (\<Sum>a \<leftarrow> as'. al_quantity a)" by (simp add: Cons)
  also have "\<dots> \<le> (case sd of BUY \<Rightarrow> l - pos | SELL \<Rightarrow> pos + sh)" using a rest total by linarith
  finally show ?thesis by (simp add: max.coboundedI2)
qed

text \<open>
  C4: With a position cap among the active rules of a strategy, an approved decision keeps the cap
  whatever number of legs the signal has: the confirmed position with all approved buys does not
  exceed the long cap, and with all approved sells it does not go below the short cap, unless the
  position is already beyond it, in which case that side gets nothing. The premise \<open>cap_fits\<close> keeps
  the decimals within the 28 digits of the context.
\<close>

theorem position_cap_kept:
  assumes "decided s sg d" and "rd_approved d"
    and "MaxPositionRule l sh \<in> set (active_rules (sig_strategy sg) s)"
    and "cap_fits k l sh sg s"
  defines "pos \<equiv> get_position (sig_strategy sg) (sig_instrument sg) (rk_state s)"
  shows "pos + approved_total BUY d \<le> max pos l \<and> min pos (- sh) \<le> pos - approved_total SELL d"
proof -
  let ?legs = "sig_legs sg" and ?rules = "active_rules (sig_strategy sg) s"
  obtain js where js: "sorted_wrt (<) js" "set js \<subseteq> {..<length ?legs}"
    "list_all2 (leg_ok ?rules sg s) (rd_approved_legs d) js"
    using approved_legs_ok [OF assms(1,2)] by blast
  have bound: "approved_total sd d \<le> max 0 (case sd of BUY \<Rightarrow> l - pos | SELL \<Rightarrow> pos + sh)" for sd
    unfolding approved_total_def pos_def
  proof (rule approved_side_bound [OF _ _ _ assms(3,4)])
    show "list_all2 (leg_ok ?rules sg s) (filter (\<lambda>a. al_side a = sd) (rd_approved_legs d))
        (filter (\<lambda>j. leg_side (?legs ! j) = sd) js)"
      by (rule list_all2_filter [OF js(3)]) (simp add: leg_ok_def Let_def)
  qed (use js in \<open>auto simp: sorted_wrt_filter\<close>)
  show ?thesis using bound [of BUY] bound [of SELL] by (simp add: max_def min_def split: if_splits)
qed

definition sample_capped :: risk_engine where
  "sample_capped = sample_risk [MaxPositionRule 8 8]"

definition sample_verdict :: risk_decision where
  "sample_verdict =
     \<lparr>ts_event = 1000, ts_ingest = 1000, source = ''risk_engine'', rd_signal_id = 1,
      rd_strategy = ''mm'', rd_approved = True, rd_severity = INFO, rd_rule_name = None,
      rd_approved_legs =
        [\<lparr>al_leg_id = ''b1'', al_side = BUY, al_quantity = 3, al_clamp_reason = Text []\<rparr>,
         \<lparr>al_leg_id = ''b2'', al_side = BUY, al_quantity = 3, al_clamp_reason = Text []\<rparr>],
      rd_rejected_legs = []\<rparr>"

lemma sample_decided: "decided sample_capped sample_quote sample_verdict"
  by (simp add: decided_def sample_capped_def sample_risk_def risk_init_def risk_on_signal_def
      eval_legs_def eval_leg_def judge_leg_def guarded_evaluate_def eval_max_position_def Let_def
      position_headroom_def same_side_siblings_def sample_quote_def sample_leg_def dsum_def dadd_def
      dsub_def dmul_def active_rules_def dget_or_def kill_switch_init_def publish_verdict_def
      publish_decision_def risk_publish_sent tightest_clamp_def below_min_notional_def
      sample_instrument_def sample_verdict_def get_position_def record_signal_def risk_state_init_def flagged_def)

theorem position_cap_kept_witness:
  "approved_total BUY sample_verdict \<le> 8"
proof -
  have r: "active_rules ''mm'' sample_capped = [MaxPositionRule 8 8]"
    by (simp add: active_rules_def sample_capped_def sample_risk_def risk_init_def dget_or_def)
  have p: "get_position ''mm'' sample_instrument (rk_state sample_capped) = 0"
    by (simp add: get_position_def sample_capped_def sample_risk_def risk_init_def
        risk_state_init_def dget_or_def)
  show ?thesis
    using position_cap_kept [OF sample_decided, of 8 8 0] r p
    by (simp add: sample_quote_def cap_fits_def sample_verdict_def sample_leg_def)
qed

subsection \<open>The drawdown breaker\<close>

lemma peak_step:
  assumes "peak_is_equity (rk_state s)"
  shows "peak_is_equity (rk_state (risk_do op s))"
proof (cases op)
  case (RSignal e)
  have f: "rk_state (fold publish_alert al s') = rk_state s'" for al s'
    by (induction al arbitrary: s') (simp_all add: publish_alert_def)
  have "peak_is_equity (rk_state (lp_engine (signal_loop sg s)))" for sg
    using signal_loop_ok(1) [of sg s] assms by (simp add: alerting_def)
  with RSignal assms show ?thesis
    by (cases e) (simp_all add: risk_on_signal_eq publish_decision_def publish_verdict_def Let_def f,
        simp_all add: risk_on_signal_def)
next
  case (RPosition e)
  then show ?thesis using assms peak_position_update
    by (cases e) (auto simp: risk_on_position_update_def)
qed (use assms in \<open>auto simp: engage_kill_switch_def Let_def risk_on_fill_def apply_fill_position_def
      risk_on_open_orders_def apply_open_orders_snapshot_def risk_on_analytics_def
      apply_analytics_snapshot_def risk_stop_def peak_session
      split: sum.splits event.splits option.splits dest: register_sel intro: peak_cong\<close>)

lemma peak_run: "peak_is_equity (rk_state s) \<Longrightarrow> peak_is_equity (rk_state (risk_run ops s))"
  unfolding risk_run_def by (induction ops arbitrary: s) (simp_all add: peak_step)

text \<open>
  The drawdown breaker never trips. After every history of the engine from its start, whatever
  profits and losses the position updates have reported, a breaker its constructor accepts
  approves every leg: the session peak it measures from is the current equity, since each position
  update and each reading of the day's profit clears all peaks.
\<close>

theorem drawdown_never_trips:
  assumes "drawdown_init warn_pct kill_pct = Inr r"
  shows "fst (evaluate r now sg i (rk_state (risk_run ops (risk_init b t0)))) =
    Inr (rule_approve ''drawdown_circuit_breaker'' None (Text []))"
proof -
  from assms have r: "r = DrawdownRule warn_pct kill_pct" "0 < warn_pct" "warn_pct \<le> kill_pct"
    by (auto simp: drawdown_init_def split: if_splits)
  have "peak_is_equity (rk_state (risk_run ops (risk_init b t0)))"
    by (rule peak_run) (simp add: risk_init_def)
  from drawdown_of_peak [OF this, of "sig_strategy sg"] r show ?thesis
    by (auto simp: eval_drawdown_def)
qed

definition sample_update :: "dec \<Rightarrow> position_update_event" where
  "sample_update pnl =
     \<lparr>ts_event = 1, ts_ingest = 1, source = ''positions'', pu_strategy = ''mm'',
      pu_instrument = sample_instrument, pu_quantity = 0, pu_avg_price = 0, pu_realized = pnl,
      pu_unrealized = 0, pu_mark = 0\<rparr>"

theorem drawdown_never_trips_witness:
  "fst (evaluate (DrawdownRule (1 / 10) (1 / 5)) 1000 sample_quote 0
     (rk_state (risk_run [RPosition (EvPosition (sample_update 100)), RPosition (EvPosition (sample_update 1))]
        (risk_init (sample_bus 10 1) 1000)))) =
   Inr (rule_approve ''drawdown_circuit_breaker'' None (Text []))"
  by (rule drawdown_never_trips [of "1 / 10" "1 / 5"]) (simp add: drawdown_init_def)

subsection \<open>The VPIN breaker\<close>

text \<open>
  Once the VPIN of an instrument is known, a strategy with the VPIN breaker among its rules gets
  no leg approved on that instrument, however low the VPIN is: below the threshold the rule raises
  \<open>TypeError\<close>, which the engine treats as a rejection.
\<close>

theorem vpin_refuses_everything:
  assumes "VpinRule threshold sustained_ticks \<in> set (active_rules (sig_strategy sg) s)"
    and "get_vpin (instrument_id (sig_instrument sg)) (rk_state s) = Some vpin"
    and "decided s sg d"
  shows "\<not> rd_approved d \<and> rd_approved_legs d = []"
proof -
  have no: "\<not> leg_ok (active_rules (sig_strategy sg) s) sg s a i" for a i
    using assms(1,2) by (fastforce simp: leg_ok_def eval_vpin_def get_vpin_def Let_def split: if_splits)
  have "\<not> rd_approved d"
  proof
    assume ap: "rd_approved d"
    with decidedD [OF assms(3)] have "rd_approved_legs d \<noteq> []" by (auto simp: good_decision_def)
    with approved_legs_ok [OF assms(3) ap] no show False by (auto simp: list_all2_conv_all_nth)
  qed
  with decidedD [OF assms(3)] show ?thesis by (simp add: good_decision_def)
qed

definition sample_calm :: risk_engine where
  "sample_calm = sample_risk [VpinRule (4 / 5) 5]
     \<lparr>rk_state := (risk_state_init 60)\<lparr>rs_vpin := [(''BINANCE:BTCUSDT'', 1 / 10)]\<rparr>\<rparr>"

theorem vpin_refuses_everything_witness:
  "\<exists>d. decided sample_calm sample_quote d \<and> \<not> rd_approved d"
proof -
  obtain d where d: "decided sample_calm sample_quote d" using decided_good by blast
  have "VpinRule (4 / 5) 5 \<in> set (active_rules (sig_strategy sample_quote) sample_calm)"
    by (simp add: active_rules_def sample_calm_def sample_risk_def)
  moreover have "get_vpin (instrument_id (sig_instrument sample_quote)) (rk_state sample_calm) = Some (1 / 10)"
    by (simp add: get_vpin_def sample_calm_def sample_quote_def sample_instrument_def instrument_id_def)
  ultimately show ?thesis using vpin_refuses_everything [OF _ _ d] d by blast
qed

end
