(* ===== verification/Accounting.thy ===== *)
theory Accounting
  imports Core_Types
begin

text \<open>
  \<open>position/accounting/\<close> and \<open>position/lots.py\<close>: the three ledgers of a (strategy, instrument) pair,
  weighted average cost and first-in / last-in lots, and the factory that picks one. The two lot
  ledgers share their code in the source and here; \<open>lot_order\<close> is the pair of hooks the subclasses
  override. The loop that closes lots ends because each turn removes a lot or uses up the fill,
  whatever the rounding: \<open>a - a\<close> is exactly zero.
\<close>

subsection \<open>Weighted average cost\<close>

record wavg_book =
  wb_quantity :: dec
  wb_avg :: dec
  wb_realized :: dec

definition wavg_init :: wavg_book where
  "wavg_init = \<lparr>wb_quantity = 0, wb_avg = 0, wb_realized = 0\<rparr>"

definition wavg_unrealized :: "dec \<Rightarrow> wavg_book \<Rightarrow> dec" where
  "wavg_unrealized mark b =
     (if wb_quantity b = 0 then 0 else dmul (dsub mark (wb_avg b)) (wb_quantity b))"

definition wavg_apply_fill :: "fill_event \<Rightarrow> wavg_book \<Rightarrow> wavg_book" where
  "wavg_apply_fill f b =
     (let r0 = dsub (wb_realized b) (fl_fee f);
          q = wb_quantity b;
          signed_fill = dmul (fl_quantity f) (side_sign (fl_side f));
          new_qty = dadd q signed_fill
      in if q = 0 then b\<lparr>wb_realized := r0, wb_quantity := signed_fill, wb_avg := fl_price f\<rparr>
         else if (0 < q) = (0 < signed_fill) then
           (let total_cost = dadd (dmul (wb_avg b) (dabs q)) (dmul (fl_price f) (fl_quantity f))
            in b\<lparr>wb_realized := r0, wb_quantity := new_qty, wb_avg := ddiv total_cost (dabs new_qty)\<rparr>)
         else
           let position_sign = (if 0 < q then 1 else - 1)
           in if dabs signed_fill \<le> dabs q then
                (let pnl = dmul (dmul position_sign (dsub (fl_price f) (wb_avg b))) (fl_quantity f)
                 in b\<lparr>wb_realized := dadd r0 pnl, wb_quantity := new_qty,
                      wb_avg := (if new_qty = 0 then 0 else wb_avg b)\<rparr>)
              else
                (let closed_qty = dabs q;
                     pnl = dmul (dmul position_sign (dsub (fl_price f) (wb_avg b))) closed_qty;
                     remaining = dsub (fl_quantity f) closed_qty
                 in b\<lparr>wb_realized := dadd r0 pnl, wb_quantity := dmul (side_sign (fl_side f)) remaining,
                      wb_avg := fl_price f\<rparr>))"

subsection \<open>Lots\<close>

record lot =
  lt_quantity :: dec
  lt_price :: dec

record lot_book =
  lb_lots :: "lot list"
  lb_side :: int
  lb_realized :: dec

datatype lot_order = FIFO | LIFO

definition lot_init :: lot_book where
  "lot_init = \<lparr>lb_lots = [], lb_side = 0, lb_realized = 0\<rparr>"

fun peek_index :: "lot_order \<Rightarrow> lot list \<Rightarrow> nat" where
  "peek_index FIFO lots = 0"
| "peek_index LIFO lots = length lots - 1"

fun pop_lot :: "lot_order \<Rightarrow> lot list \<Rightarrow> lot list" where
  "pop_lot FIFO lots = tl lots"
| "pop_lot LIFO lots = butlast lots"

definition lot_quantity :: "lot_book \<Rightarrow> dec" where
  "lot_quantity b = dmul (of_int (lb_side b)) (dsum (map lt_quantity (lb_lots b)))"

definition lot_average :: "lot_book \<Rightarrow> dec" where
  "lot_average b =
     (if lb_lots b = [] then 0
      else
        case foldl (\<lambda>(qty, cost) lt. (dadd qty (lt_quantity lt), dadd cost (dmul (lt_quantity lt) (lt_price lt))))
               (0, 0) (lb_lots b) of
          (total_qty, total_cost) \<Rightarrow> ddiv total_cost total_qty)"

definition lot_unrealized :: "dec \<Rightarrow> lot_book \<Rightarrow> dec" where
  "lot_unrealized mark b =
     (if lb_side b = 0 then 0
      else dmul (of_int (lb_side b))
             (foldl (\<lambda>total lt. dadd total (dmul (dsub mark (lt_price lt)) (lt_quantity lt))) 0 (lb_lots b)))"

lemma length_pop_lot: "lots \<noteq> [] \<Longrightarrow> length (pop_lot m lots) < length lots"
  by (cases m) simp_all

text \<open>\<open>while remaining > 0 and self._lots\<close>: the lots, the realized profit and what remains.\<close>

function close_lots ::
    "lot_order \<Rightarrow> dec \<Rightarrow> int \<Rightarrow> lot list \<Rightarrow> dec \<Rightarrow> dec \<Rightarrow> lot list \<times> dec \<times> dec" where
  "close_lots m price sd lots realized remaining =
     (if remaining \<le> 0 \<or> lots = [] then (lots, realized, remaining)
      else
        let i = peek_index m lots;
            lt = lots ! i;
            close_qty = min (lt_quantity lt) remaining;
            pnl_unit = dmul (of_int sd) (dsub price (lt_price lt));
            left = dsub (lt_quantity lt) close_qty
        in close_lots m price sd
             (if left = 0 then pop_lot m lots else lots[i := lt\<lparr>lt_quantity := left\<rparr>])
             (dadd realized (dmul pnl_unit close_qty)) (dsub remaining close_qty))"
  by pat_completeness auto

termination
proof (relation "measure (\<lambda>(m, price, sd, lots, realized, remaining).
    length lots + (if 0 < remaining then 1 else 0))", goal_cases)
  case 1
  show ?case by simp
next
  case (2 m price sd lots realized remaining i lt close_qty pnl_unit left)
  then show ?case using length_pop_lot [of lots m] by (auto simp: min_def dsub_def split: if_splits)
qed

declare close_lots.simps [simp del]

definition lot_apply_fill :: "lot_order \<Rightarrow> fill_event \<Rightarrow> lot_book \<Rightarrow> lot_book" where
  "lot_apply_fill m f b =
     (let r0 = dsub (lb_realized b) (fl_fee f);
          fill_sign = (case fl_side f of BUY \<Rightarrow> 1 | SELL \<Rightarrow> - 1);
          opened = \<lparr>lt_quantity = fl_quantity f, lt_price = fl_price f\<rparr>
      in if lb_side b = 0 then
           b\<lparr>lb_realized := r0, lb_side := fill_sign, lb_lots := lb_lots b @ [opened]\<rparr>
         else if lb_side b = fill_sign then
           b\<lparr>lb_realized := r0, lb_lots := lb_lots b @ [opened]\<rparr>
         else
           case close_lots m (fl_price f) (lb_side b) (lb_lots b) r0 (fl_quantity f) of
             (lots, realized, remaining) \<Rightarrow>
               if lots \<noteq> [] then b\<lparr>lb_realized := realized, lb_lots := lots\<rparr>
               else if 0 < remaining then
                 \<lparr>lb_lots = [\<lparr>lt_quantity = remaining, lt_price = fl_price f\<rparr>], lb_side = fill_sign,
                  lb_realized = realized\<rparr>
               else \<lparr>lb_lots = [], lb_side = 0, lb_realized = realized\<rparr>)"

subsection \<open>The three methods\<close>

datatype accounting_method = M_WAVG | M_FIFO | M_LIFO

datatype book = WavgBook wavg_book | LotBook lot_order lot_book

fun make_book :: "accounting_method \<Rightarrow> book" where
  "make_book M_WAVG = WavgBook wavg_init"
| "make_book M_FIFO = LotBook FIFO lot_init"
| "make_book M_LIFO = LotBook LIFO lot_init"

fun book_apply_fill :: "fill_event \<Rightarrow> book \<Rightarrow> book" where
  "book_apply_fill f (WavgBook b) = WavgBook (wavg_apply_fill f b)"
| "book_apply_fill f (LotBook m b) = LotBook m (lot_apply_fill m f b)"

fun book_quantity :: "book \<Rightarrow> dec" where
  "book_quantity (WavgBook b) = wb_quantity b"
| "book_quantity (LotBook m b) = lot_quantity b"

fun book_average :: "book \<Rightarrow> dec" where
  "book_average (WavgBook b) = wb_avg b"
| "book_average (LotBook m b) = lot_average b"

fun book_realized :: "book \<Rightarrow> dec" where
  "book_realized (WavgBook b) = wb_realized b"
| "book_realized (LotBook m b) = lb_realized b"

fun book_unrealized :: "dec \<Rightarrow> book \<Rightarrow> dec" where
  "book_unrealized mark (WavgBook b) = wavg_unrealized mark b"
| "book_unrealized mark (LotBook m b) = lot_unrealized mark b"

end
