(* ===== verification/Accounting_Laws.thy ===== *)
theory Accounting_Laws
  imports Accounting
begin

text \<open>
  What the ledgers promise. \<open>book_value mark\<close> is the economic value of a book at a mark, realized
  plus open, and \<open>book_position\<close> its signed position, both in exact arithmetic. The locale
  \<open>ledger\<close> states the contract of one fill (the value moves by what the fill earns against the mark
  less its fee, the position by the signed quantity, for a fill none of whose operations rounds) and
  derives what holds after any sequence of fills; the weighted average book, the two lot books and
  the book the engine uses are interpretations of it. \<open>exactly xs\<close> says that the exact results
  \<open>xs\<close> of the operations of a step have at most 28 digits, so that the step does not round.
\<close>

definition exactly :: "rat list \<Rightarrow> bool" where
  "exactly xs \<longleftrightarrow> (\<forall>x \<in> set xs. rnd x = x)"

lemma exactly_simps [simp]: "exactly []" "exactly (x # xs) \<longleftrightarrow> rnd x = x \<and> exactly xs"
  by (simp_all add: exactly_def)

lemma rnd_abs: "rnd x = x \<Longrightarrow> rnd \<bar>x\<bar> = \<bar>x\<bar>"
  by (cases "0 \<le> x") (simp_all add: rnd_minus)

definition signed_quantity :: "fill_event \<Rightarrow> rat" where
  "signed_quantity f = fl_quantity f * side_sign (fl_side f)"

subsection \<open>The contract\<close>

locale ledger =
  fixes apply_fill :: "fill_event \<Rightarrow> 'b \<Rightarrow> 'b"
    and book_val :: "rat \<Rightarrow> 'b \<Rightarrow> rat"
    and position :: "'b \<Rightarrow> rat"
    and ok :: "'b \<Rightarrow> bool"
    and exact :: "fill_event \<Rightarrow> 'b \<Rightarrow> bool"
  assumes step_ok: "ok b \<Longrightarrow> 0 < fl_quantity f \<Longrightarrow> exact f b \<Longrightarrow> ok (apply_fill f b)"
    and step_value: "ok b \<Longrightarrow> 0 < fl_quantity f \<Longrightarrow> exact f b \<Longrightarrow>
      book_val mark (apply_fill f b) =
        book_val mark b + signed_quantity f * (mark - fl_price f) - fl_fee f"
    and step_position: "ok b \<Longrightarrow> 0 < fl_quantity f \<Longrightarrow> exact f b \<Longrightarrow>
      position (apply_fill f b) = position b + signed_quantity f"
begin

fun exact_run :: "fill_event list \<Rightarrow> 'b \<Rightarrow> bool" where
  "exact_run [] b = True"
| "exact_run (f # fs) b = (0 < fl_quantity f \<and> exact f b \<and> exact_run fs (apply_fill f b))"

lemma run_ok: "ok b \<Longrightarrow> exact_run fs b \<Longrightarrow> ok (fold apply_fill fs b)"
  by (induction fs arbitrary: b) (auto intro: step_ok)

lemma run_position:
  "ok b \<Longrightarrow> exact_run fs b \<Longrightarrow>
   position (fold apply_fill fs b) = position b + (\<Sum>f \<leftarrow> fs. signed_quantity f)"
  by (induction fs arbitrary: b) (auto simp: step_position step_ok)

lemma run_value:
  "ok b \<Longrightarrow> exact_run fs b \<Longrightarrow>
   book_val mark (fold apply_fill fs b) =
     book_val mark b + (\<Sum>f \<leftarrow> fs. signed_quantity f * (mark - fl_price f) - fl_fee f)"
  by (induction fs arbitrary: b) (auto simp: step_value step_ok)

text \<open>A closed position has earned its cash flow, whatever the mark.\<close>

lemma flat_value:
  assumes "ok b" "exact_run fs b" "position b + (\<Sum>f \<leftarrow> fs. signed_quantity f) = 0"
    and "book_val mark b = book_val 0 b + position b * mark"
  shows "book_val mark (fold apply_fill fs b) = book_val 0 (fold apply_fill fs b)"
proof -
  have "(\<Sum>f \<leftarrow> fs. signed_quantity f * (mark - fl_price f) - fl_fee f) =
      (\<Sum>f \<leftarrow> fs. signed_quantity f * (0 - fl_price f) - fl_fee f) + (\<Sum>f \<leftarrow> fs. signed_quantity f) * mark"
    by (induction fs) (simp_all add: algebra_simps)
  moreover have "(\<Sum>f \<leftarrow> fs. signed_quantity f) = - position b" using assms(3) by linarith
  ultimately show ?thesis using assms by (simp add: run_value)
qed

end

subsection \<open>Weighted average cost\<close>

definition wavg_value :: "rat \<Rightarrow> wavg_book \<Rightarrow> rat" where
  "wavg_value mark b = wb_realized b + (mark - wb_avg b) * wb_quantity b"

definition wavg_exact :: "fill_event \<Rightarrow> wavg_book \<Rightarrow> bool" where
  "wavg_exact f b \<longleftrightarrow>
     (let r0 = wb_realized b - fl_fee f; q = wb_quantity b; sf = signed_quantity f;
          cost = wb_avg b * \<bar>q\<bar> + fl_price f * fl_quantity f;
          d = fl_price f - wb_avg b; s = (if 0 < q then 1 else - 1)
      in exactly [r0, q, sf, q + sf] \<and>
         (if q = 0 then True
          else if (0 < q) = (0 < sf) then
            exactly [wb_avg b * \<bar>q\<bar>, fl_price f * fl_quantity f, cost, cost / \<bar>q + sf\<bar>]
          else if \<bar>sf\<bar> \<le> \<bar>q\<bar> then
            exactly [d, s * d, s * d * fl_quantity f, r0 + s * d * fl_quantity f]
          else
            exactly [d, s * d, s * d * \<bar>q\<bar>, r0 + s * d * \<bar>q\<bar>, fl_quantity f - \<bar>q\<bar>,
                     side_sign (fl_side f) * (fl_quantity f - \<bar>q\<bar>)]))"

lemma wavg_apply_exact:
  assumes "wavg_exact f b"
  shows "wavg_apply_fill f b =
    (let r0 = wb_realized b - fl_fee f; q = wb_quantity b; sf = signed_quantity f;
         d = fl_price f - wb_avg b; s = (if 0 < q then 1 else - 1)
     in if q = 0 then b\<lparr>wb_realized := r0, wb_quantity := sf, wb_avg := fl_price f\<rparr>
        else if (0 < q) = (0 < sf) then
          b\<lparr>wb_realized := r0, wb_quantity := q + sf,
            wb_avg := (wb_avg b * \<bar>q\<bar> + fl_price f * fl_quantity f) / \<bar>q + sf\<bar>\<rparr>
        else if \<bar>sf\<bar> \<le> \<bar>q\<bar> then
          b\<lparr>wb_realized := r0 + s * d * fl_quantity f, wb_quantity := q + sf,
            wb_avg := (if q + sf = 0 then 0 else wb_avg b)\<rparr>
        else
          b\<lparr>wb_realized := r0 + s * d * \<bar>q\<bar>,
            wb_quantity := side_sign (fl_side f) * (fl_quantity f - \<bar>q\<bar>), wb_avg := fl_price f\<rparr>)"
  using assms
  by (auto simp: wavg_exact_def wavg_apply_fill_def signed_quantity_def dec_ops rnd_abs Let_def
      split: if_splits)

lemma wavg_position:
  assumes "wavg_exact f b" "0 < fl_quantity f"
  shows "wb_quantity (wavg_apply_fill f b) = wb_quantity b + signed_quantity f"
  using assms(2)
  by (cases "fl_side f") (auto simp: wavg_apply_exact [OF assms(1)] signed_quantity_def Let_def abs_if
      split: if_splits)

lemma wavg_step_value:
  assumes "wavg_exact f b" "0 < fl_quantity f"
  shows "wavg_value mark (wavg_apply_fill f b) =
    wavg_value mark b + signed_quantity f * (mark - fl_price f) - fl_fee f"
proof -
  define q where "q = wb_quantity b"
  define sf where "sf = signed_quantity f"
  have ss: "sf = fl_quantity f \<or> sf = - fl_quantity f"
    by (cases "fl_side f") (simp_all add: sf_def signed_quantity_def)
  consider (flat) "q = 0" | (extend) "q \<noteq> 0" "(0 < q) = (0 < sf)"
    | (reduce) "q \<noteq> 0" "(0 < q) \<noteq> (0 < sf)" "\<bar>sf\<bar> \<le> \<bar>q\<bar>" | (flip) "q \<noteq> 0" "(0 < q) \<noteq> (0 < sf)" "\<not> \<bar>sf\<bar> \<le> \<bar>q\<bar>"
    by blast
  then show ?thesis
  proof cases
    case flat
    then show ?thesis
      by (simp add: wavg_apply_exact [OF assms(1)] wavg_value_def q_def Let_def algebra_simps)
  next
    case extend
    have nz: "q + sf \<noteq> 0" and abs: "\<bar>q + sf\<bar> = (if 0 < q then q + sf else - (q + sf))"
      using extend ss assms(2) by (auto simp: abs_if split: if_splits)
    have e: "(wb_avg b * \<bar>q\<bar> + fl_price f * fl_quantity f) / \<bar>q + sf\<bar> * (q + sf) =
        wb_avg b * q + fl_price f * sf"
      using extend ss assms(2) nz unfolding abs
      by (cases "0 < q") (auto simp: field_simps abs_if split: if_splits)
    have "wavg_value mark (wavg_apply_fill f b) = wb_realized b - fl_fee f +
        (mark - (wb_avg b * \<bar>q\<bar> + fl_price f * fl_quantity f) / \<bar>q + sf\<bar>) * (q + sf)"
      using extend by (simp add: wavg_apply_exact [OF assms(1)] wavg_value_def q_def sf_def Let_def)
    also have "\<dots> = wb_realized b - fl_fee f + mark * (q + sf) - (wb_avg b * q + fl_price f * sf)"
      by (simp only: left_diff_distrib e)
    finally show ?thesis by (simp add: wavg_value_def q_def sf_def algebra_simps)
  next
    case reduce
    have s: "(if 0 < q then 1 else - 1) * fl_quantity f = - sf"
      using reduce ss assms(2) by (auto split: if_splits)
    have "wavg_value mark (wavg_apply_fill f b) = wb_realized b - fl_fee f +
        (if 0 < q then 1 else - 1) * (fl_price f - wb_avg b) * fl_quantity f + (mark - wb_avg b) * (q + sf)"
      using reduce by (simp add: wavg_apply_exact [OF assms(1)] wavg_value_def q_def sf_def Let_def)
    also have "(if 0 < q then 1 else - 1) * (fl_price f - wb_avg b) * fl_quantity f =
        (fl_price f - wb_avg b) * ((if 0 < q then 1 else - 1) * fl_quantity f)" by simp
    finally show ?thesis unfolding s by (simp add: wavg_value_def q_def sf_def algebra_simps)
  next
    case flip
    have s: "(if 0 < q then 1 else - 1) * \<bar>q\<bar> = q" by auto
    have t: "side_sign (fl_side f) * (fl_quantity f - \<bar>q\<bar>) = q + sf"
      using flip assms(2) by (cases "fl_side f") (auto simp: sf_def signed_quantity_def abs_if split: if_splits)
    have "wavg_value mark (wavg_apply_fill f b) = wb_realized b - fl_fee f +
        (if 0 < q then 1 else - 1) * (fl_price f - wb_avg b) * \<bar>q\<bar> + (mark - fl_price f) * (q + sf)"
      using flip t by (simp add: wavg_apply_exact [OF assms(1)] wavg_value_def q_def sf_def Let_def)
    also have "(if 0 < q then 1 else - 1) * (fl_price f - wb_avg b) * \<bar>q\<bar> =
        (fl_price f - wb_avg b) * ((if 0 < q then 1 else - 1) * \<bar>q\<bar>)" by simp
    finally show ?thesis unfolding s by (simp add: wavg_value_def q_def sf_def algebra_simps)
  qed
qed

interpretation wavg: ledger wavg_apply_fill wavg_value wb_quantity "\<lambda>b. True" wavg_exact
  by unfold_locales (simp_all add: wavg_step_value wavg_position)

subsection \<open>Lots\<close>

definition lots_value :: "rat \<Rightarrow> lot list \<Rightarrow> rat" where
  "lots_value mark lots = (\<Sum>lt \<leftarrow> lots. (mark - lt_price lt) * lt_quantity lt)"

definition lots_total :: "lot list \<Rightarrow> rat" where
  "lots_total lots = (\<Sum>lt \<leftarrow> lots. lt_quantity lt)"

definition lot_value :: "rat \<Rightarrow> lot_book \<Rightarrow> rat" where
  "lot_value mark b = lb_realized b + of_int (lb_side b) * lots_value mark (lb_lots b)"

definition lot_position :: "lot_book \<Rightarrow> rat" where
  "lot_position b = of_int (lb_side b) * lots_total (lb_lots b)"

text \<open>A book holds lots of one side only, all of positive quantity, and is flat without lots.\<close>

definition lot_ok :: "lot_book \<Rightarrow> bool" where
  "lot_ok b \<longleftrightarrow>
     lb_side b \<in> {- 1, 0, 1} \<and> (lb_side b = 0) = (lb_lots b = []) \<and>
     (\<forall>lt \<in> set (lb_lots b). 0 < lt_quantity lt)"

text \<open>No operation of the closing loop rounds.\<close>

inductive close_exact :: "lot_order \<Rightarrow> dec \<Rightarrow> int \<Rightarrow> lot list \<Rightarrow> dec \<Rightarrow> dec \<Rightarrow> bool"
  for m :: lot_order and price :: dec and sd :: int where
  close_done: "remaining \<le> 0 \<or> lots = [] \<Longrightarrow> close_exact m price sd lots realized remaining"
| close_turn: "0 < remaining \<Longrightarrow> lots \<noteq> [] \<Longrightarrow> lt = lots ! peek_index m lots \<Longrightarrow>
    c = min (lt_quantity lt) remaining \<Longrightarrow>
    exactly [price - lt_price lt, of_int sd * (price - lt_price lt), of_int sd * (price - lt_price lt) * c,
      realized + of_int sd * (price - lt_price lt) * c, lt_quantity lt - c, remaining - c] \<Longrightarrow>
    close_exact m price sd
      (if lt_quantity lt = c then pop_lot m lots
       else lots[peek_index m lots := lt\<lparr>lt_quantity := lt_quantity lt - c\<rparr>])
      (realized + of_int sd * (price - lt_price lt) * c) (remaining - c) \<Longrightarrow>
    close_exact m price sd lots realized remaining"

inductive_cases close_exactE: "close_exact m price sd lots realized remaining"

definition fill_sign :: "fill_event \<Rightarrow> int" where
  "fill_sign f = (case fl_side f of BUY \<Rightarrow> 1 | SELL \<Rightarrow> - 1)"

definition lot_exact :: "lot_order \<Rightarrow> fill_event \<Rightarrow> lot_book \<Rightarrow> bool" where
  "lot_exact m f b \<longleftrightarrow>
     exactly [lb_realized b - fl_fee f] \<and>
     (if lb_side b \<noteq> - fill_sign f then True
      else close_exact m (fl_price f) (lb_side b) (lb_lots b) (lb_realized b - fl_fee f) (fl_quantity f))"

lemma fill_sign_rat: "of_int (fill_sign f) = side_sign (fl_side f)"
  by (cases "fl_side f") (simp_all add: fill_sign_def)

lemma peek_index_less: "lots \<noteq> [] \<Longrightarrow> peek_index m lots < length lots"
  by (cases m) simp_all

lemma sum_list_replace:
  "i < length xs \<Longrightarrow> (\<Sum>x \<leftarrow> xs[i := y]. f x) = (\<Sum>x \<leftarrow> xs. f x) - f (xs ! i) + (f y :: rat)"
  by (induction xs arbitrary: i) (auto split: nat.splits)

lemma sum_list_pop:
  "lots \<noteq> [] \<Longrightarrow> (\<Sum>x \<leftarrow> pop_lot m lots. f x) = (\<Sum>x \<leftarrow> lots. f x) - (f (lots ! peek_index m lots) :: rat)"
proof (cases m)
  case LIFO
  assume "lots \<noteq> []"
  then obtain ys y where "lots = ys @ [y]" by (cases lots rule: rev_cases) auto
  then show ?thesis using LIFO by simp
qed (cases lots; simp)

lemma set_pop_lot: "set (pop_lot m lots) \<subseteq> set lots"
  by (cases m; cases lots) (auto dest: in_set_butlastD split: if_splits)

lemma pop_lot_same [simp]: "lots \<noteq> [] \<Longrightarrow> x = lots ! peek_index m lots \<Longrightarrow> x \<in> set lots"
  using peek_index_less nth_mem by blast

text \<open>What the loop achieves when it does not round.\<close>

lemma close_lots_exact:
  assumes "close_exact m price sd lots realized remaining"
    and "0 \<le> remaining" and "\<forall>lt \<in> set lots. 0 < lt_quantity lt"
    and "close_lots m price sd lots realized remaining = (lots', realized', remaining')"
  shows "0 \<le> remaining' \<and> (\<forall>lt \<in> set lots'. 0 < lt_quantity lt) \<and> (lots' \<noteq> [] \<longrightarrow> remaining' = 0) \<and>
    lots_total lots' = lots_total lots - (remaining - remaining') \<and>
    realized' + of_int sd * lots_value mark lots' =
      realized + of_int sd * lots_value mark lots + of_int sd * (price - mark) * (remaining - remaining')"
  using assms
proof (induction lots realized remaining rule: close_exact.induct)
  case (close_done remaining lots realized)
  then show ?case by (auto simp: close_lots.simps [of m price sd lots realized remaining])
next
  case (close_turn remaining lots lt c realized)
  let ?i = "peek_index m lots" and ?left = "lt_quantity lt - c"
  let ?lots = "if lt_quantity lt = c then pop_lot m lots else lots[?i := lt\<lparr>lt_quantity := ?left\<rparr>]"
  let ?real = "realized + of_int sd * (price - lt_price lt) * c"
  have i: "?i < length lots" using close_turn.hyps by (simp add: peek_index_less)
  have "lt \<in> set lots" using close_turn.hyps(2,3) by simp
  then have lt: "0 < lt_quantity lt" using close_turn.prems(2) by blast
  have ops: "dsub price (lt_price lt) = price - lt_price lt"
    "dmul (of_int sd) (price - lt_price lt) = of_int sd * (price - lt_price lt)"
    "dmul (of_int sd * (price - lt_price lt)) c = of_int sd * (price - lt_price lt) * c"
    "dadd realized (of_int sd * (price - lt_price lt) * c) = ?real"
    "dsub (lt_quantity lt) c = ?left" "dsub remaining c = remaining - c"
    using close_turn.hyps(5) by (simp_all add: dec_ops)
  have step: "close_lots m price sd lots realized remaining = close_lots m price sd ?lots ?real (remaining - c)"
    using close_turn.hyps(1,2)
    by (simp add: close_lots.simps [of m price sd lots realized remaining] Let_def ops
        close_turn.hyps(3) [symmetric] close_turn.hyps(4) [symmetric])
  have q: "\<forall>lt \<in> set ?lots. 0 < lt_quantity lt"
    using close_turn.prems(2) close_turn.hyps(4) lt set_pop_lot [of m lots]
    by (auto simp: min_def dest!: set_update_subset_insert [THEN subsetD] split: if_splits)
  have r: "0 \<le> remaining - c" using close_turn.hyps(4) by (simp add: min_def)
  have total: "lots_total ?lots = lots_total lots - c"
    using close_turn.hyps(2,3) i by (simp add: lots_total_def sum_list_pop sum_list_replace)
  have val: "lots_value mark ?lots = lots_value mark lots - (mark - lt_price lt) * c"
    using close_turn.hyps(2,3) i by (simp add: lots_value_def sum_list_pop sum_list_replace algebra_simps)
  from close_turn.IH [OF r q] close_turn.prems(3) step
  show ?case unfolding total val by (simp add: algebra_simps)
qed

lemma lot_step:
  assumes ok: "lot_ok b" and q: "0 < fl_quantity f" and ex: "lot_exact m f b"
  shows "lot_ok (lot_apply_fill m f b) \<and>
    lot_value mark (lot_apply_fill m f b) = lot_value mark b + signed_quantity f * (mark - fl_price f) - fl_fee f \<and>
    lot_position (lot_apply_fill m f b) = lot_position b + signed_quantity f"
proof (cases "lb_side b = - fill_sign f")
  case False
  have r: "dsub (lb_realized b) (fl_fee f) = lb_realized b - fl_fee f"
    using ex by (simp add: lot_exact_def dsub_def)
  from False ok have "lb_side b = 0 \<or> lb_side b = fill_sign f"
    by (auto simp: lot_ok_def fill_sign_def split: side.splits)
  then show ?thesis using ok q
    by (auto simp: lot_apply_fill_def r lot_ok_def lot_value_def lot_position_def lots_value_def
        lots_total_def signed_quantity_def fill_sign_def Let_def algebra_simps split: side.splits)
next
  case True
  obtain lots realized remaining where
    c: "close_lots m (fl_price f) (lb_side b) (lb_lots b) (lb_realized b - fl_fee f) (fl_quantity f) =
      (lots, realized, remaining)" by (cases "close_lots m (fl_price f) (lb_side b) (lb_lots b) (lb_realized b - fl_fee f) (fl_quantity f)")
  have r: "dsub (lb_realized b) (fl_fee f) = lb_realized b - fl_fee f"
    using ex by (simp add: lot_exact_def dsub_def)
  have s: "lb_side b \<noteq> 0" "lb_side b \<noteq> fill_sign f" "fill_sign f \<in> {1, - 1}"
    using True by (auto simp: fill_sign_def split: side.splits)
  have l: "0 \<le> remaining" "\<forall>lt \<in> set lots. 0 < lt_quantity lt" "lots \<noteq> [] \<Longrightarrow> remaining = 0"
    "lots_total lots = lots_total (lb_lots b) - (fl_quantity f - remaining)"
    "realized + of_int (lb_side b) * lots_value mark lots =
       lb_realized b - fl_fee f + of_int (lb_side b) * lots_value mark (lb_lots b) +
       of_int (lb_side b) * (fl_price f - mark) * (fl_quantity f - remaining)"
    using close_lots_exact [OF _ _ _ c, of mark] ex ok q True
    by (auto simp: lot_exact_def lot_ok_def)
  have ap: "lot_apply_fill m f b =
      (if lots \<noteq> [] then b\<lparr>lb_realized := realized, lb_lots := lots\<rparr>
       else if 0 < remaining
       then \<lparr>lb_lots = [\<lparr>lt_quantity = remaining, lt_price = fl_price f\<rparr>], lb_side = fill_sign f,
             lb_realized = realized\<rparr>
       else \<lparr>lb_lots = [], lb_side = 0, lb_realized = realized\<rparr>)"
    using s c by (simp add: lot_apply_fill_def r fill_sign_def [symmetric] Let_def)
  have sg: "of_int (lb_side b) = - side_sign (fl_side f)" "of_int (fill_sign f) = side_sign (fl_side f)"
    by (simp_all add: True fill_sign_rat)
  consider (some) "lots \<noteq> []" "remaining = 0" | (flip) "lots = []" "0 < remaining" | (flat) "lots = []" "remaining = 0"
    using l(1,3) by fastforce
  then show ?thesis
  proof cases
    case some
    then have "lots_total (lb_lots b) = lots_total lots + fl_quantity f" using l(4) by simp
    then show ?thesis using some l(2,5) ok sg s(1)
      by (auto simp: ap lot_ok_def lot_value_def lot_position_def signed_quantity_def algebra_simps)
  next
    case flip
    then have "fl_quantity f = lots_total (lb_lots b) + remaining" "lots_value mark lots = 0"
      using l(4) by (simp_all add: lots_total_def lots_value_def)
    then show ?thesis using flip l(5) s sg
      by (auto simp: ap lot_ok_def lot_value_def lot_position_def signed_quantity_def lots_total_def [of "[_]"]
          lots_value_def [of _ "[_]"] algebra_simps)
  next
    case flat
    then have "lots_total (lb_lots b) = fl_quantity f" "lots_value mark lots = 0"
      using l(4) by (simp_all add: lots_total_def lots_value_def)
    then show ?thesis using flat l(5) sg
      by (auto simp: ap lot_ok_def lot_value_def lot_position_def signed_quantity_def lots_total_def [of "[]"]
          lots_value_def [of _ "[]"] algebra_simps)
  qed
qed

interpretation fifo: ledger "lot_apply_fill FIFO" lot_value lot_position lot_ok "lot_exact FIFO"
  by unfold_locales (simp_all add: lot_step)

interpretation lifo: ledger "lot_apply_fill LIFO" lot_value lot_position lot_ok "lot_exact LIFO"
  by unfold_locales (simp_all add: lot_step)

subsection \<open>The book of the engine\<close>

fun book_value :: "rat \<Rightarrow> book \<Rightarrow> rat" where
  "book_value mark (WavgBook b) = wavg_value mark b"
| "book_value mark (LotBook m b) = lot_value mark b"

fun book_position :: "book \<Rightarrow> rat" where
  "book_position (WavgBook b) = wb_quantity b"
| "book_position (LotBook m b) = lot_position b"

fun book_ok :: "book \<Rightarrow> bool" where
  "book_ok (WavgBook b) = True"
| "book_ok (LotBook m b) = lot_ok b"

fun book_exact :: "fill_event \<Rightarrow> book \<Rightarrow> bool" where
  "book_exact f (WavgBook b) = wavg_exact f b"
| "book_exact f (LotBook m b) = lot_exact m f b"

interpretation books: ledger book_apply_fill book_value book_position book_ok book_exact
proof unfold_locales
  fix b :: book and f :: fill_event and mark :: rat
  assume a: "book_ok b" "0 < fl_quantity f" "book_exact f b"
  show "book_ok (book_apply_fill f b)" using a by (cases b) (simp_all add: lot_step)
  show "book_value mark (book_apply_fill f b) =
      book_value mark b + signed_quantity f * (mark - fl_price f) - fl_fee f"
    using a by (cases b) (simp_all add: wavg.step_value lot_step)
  show "book_position (book_apply_fill f b) = book_position b + signed_quantity f"
    using a by (cases b) (simp_all add: wavg.step_position lot_step)
qed

lemma make_book_empty [simp]:
  "book_ok (make_book m)" "book_value mark (make_book m) = 0" "book_position (make_book m) = 0"
  by (cases m; simp add: lot_ok_def lot_init_def lot_value_def lots_value_def lot_position_def
      lots_total_def wavg_init_def wavg_value_def)+

text \<open>
  C6: The accounting method does not change the economic outcome. After the same fills, of positive
  quantity and exact in 28 digits, any two of the three ledgers hold the same position and have the
  same value at every mark, namely what each fill earns against the mark less its fee, summed.
\<close>

theorem methods_agree:
  assumes "books.exact_run fills (make_book m1)" and "books.exact_run fills (make_book m2)"
  defines "b1 \<equiv> fold book_apply_fill fills (make_book m1)"
    and "b2 \<equiv> fold book_apply_fill fills (make_book m2)"
  shows "book_value mark b1 = book_value mark b2 \<and> book_position b1 = book_position b2 \<and>
    book_position b1 = (\<Sum>f \<leftarrow> fills. signed_quantity f) \<and>
    book_value mark b1 = (\<Sum>f \<leftarrow> fills. signed_quantity f * (mark - fl_price f) - fl_fee f)"
  using assms(1,2) by (simp add: b1_def b2_def books.run_value books.run_position)

lemma close_exact_turn:
  "0 < remaining \<Longrightarrow> lots \<noteq> [] \<Longrightarrow>
   close_exact m price sd lots realized remaining =
     (let lt = lots ! peek_index m lots; c = min (lt_quantity lt) remaining
      in exactly [price - lt_price lt, of_int sd * (price - lt_price lt), of_int sd * (price - lt_price lt) * c,
           realized + of_int sd * (price - lt_price lt) * c, lt_quantity lt - c, remaining - c] \<and>
         close_exact m price sd
           (if lt_quantity lt = c then pop_lot m lots
            else lots[peek_index m lots := lt\<lparr>lt_quantity := lt_quantity lt - c\<rparr>])
           (realized + of_int sd * (price - lt_price lt) * c) (remaining - c))"
  unfolding Let_def
  by (rule iffI, erule close_exactE) (auto intro: close_turn [OF _ _ refl refl])

lemma close_exact_end [simp]: "remaining \<le> 0 \<or> lots = [] \<Longrightarrow> close_exact m price sd lots realized remaining"
  by (rule close_done)

definition trade :: "side \<Rightarrow> dec \<Rightarrow> dec \<Rightarrow> fill_event" where
  "trade sd q p =
     \<lparr>ts_event = 1, ts_ingest = 1, source = ''gw'', fl_fill_id = 1, fl_order_id = 7,
      fl_coid = ''mm-000000000007'', fl_exchange_id = None, fl_strategy = ''mm'',
      fl_instrument = \<lparr>i_symbol = ''BTCUSDT'', i_exchange = ''BINANCE'', i_asset_type = AT_SPOT,
        i_base = ''BTC'', i_quote = ''USDT'', i_tick_size = 1, i_lot_size = 1,
        i_min_notional = None, i_multiplier = 1\<rparr>,
      fl_side = sd, fl_price = p, fl_quantity = q, fl_cumulative = q, fl_leaves = 0, fl_fee = 1,
      fl_fee_currency = ''USDT'', fl_is_maker = None\<rparr>"

theorem methods_agree_witness:
  "book_value 120 (fold book_apply_fill [trade BUY 2 100, trade BUY 2 110, trade SELL 3 120] (make_book M_WAVG)) = 57"
proof -
  let ?fills = "[trade BUY 2 100, trade BUY 2 110, trade SELL 3 120]"
  have w: "books.exact_run ?fills (make_book M_WAVG)"
    by (simp add: trade_def wavg_init_def wavg_exact_def wavg_apply_fill_def signed_quantity_def dec_ops)
  have f: "books.exact_run ?fills (make_book M_FIFO)"
    by (simp add: trade_def lot_init_def lot_exact_def lot_apply_fill_def fill_sign_def dec_ops
        close_exact_turn Let_def)
  show ?thesis using methods_agree [OF w f, of 120]
    by (simp add: trade_def signed_quantity_def)
qed

subsection \<open>The shape of a lot book\<close>

lemma close_lots_shape:
  assumes "close_lots m price sd lots realized remaining = (lots', realized', remaining')"
    and "0 \<le> remaining" and "\<forall>lt \<in> set lots. 0 < lt_quantity lt"
  shows "0 \<le> remaining' \<and> (\<forall>lt \<in> set lots'. 0 < lt_quantity lt) \<and> (lots' \<noteq> [] \<longrightarrow> remaining' = 0)"
  using assms
proof (induction m price sd lots realized remaining rule: close_lots.induct)
  case (1 m price sd lots realized remaining)
  show ?case
  proof (cases "remaining \<le> 0 \<or> lots = []")
    case True
    with 1 show ?thesis by (auto simp: close_lots.simps [of m price sd lots realized remaining])
  next
    case False
    let ?i = "peek_index m lots"
    let ?lt = "lots ! ?i"
    let ?c = "min (lt_quantity ?lt) remaining"
    let ?left = "dsub (lt_quantity ?lt) ?c"
    let ?lots = "if ?left = 0 then pop_lot m lots else lots[?i := ?lt\<lparr>lt_quantity := ?left\<rparr>]"
    have left: "?left = 0 \<or> 0 < ?left" by (auto simp: min_def)
    have q: "\<forall>lt \<in> set ?lots. 0 < lt_quantity lt"
      using 1(4) left set_pop_lot [of m lots] by (auto dest!: set_update_subset_insert [THEN subsetD])
    have r: "0 \<le> dsub remaining ?c" by (simp add: min_def)
    show ?thesis
      using 1(1) [OF False refl refl refl refl refl _ r q] 1(2) False
      by (simp add: close_lots.simps [of m price sd lots realized remaining] Let_def)
  qed
qed

lemma lot_ok_step:
  assumes "lot_ok b" "0 < fl_quantity f"
  shows "lot_ok (lot_apply_fill m f b)"
proof -
  obtain lots realized remaining where
    c: "close_lots m (fl_price f) (lb_side b) (lb_lots b) (dsub (lb_realized b) (fl_fee f)) (fl_quantity f) =
      (lots, realized, remaining)" using prod_cases3 by blast
  have "0 \<le> remaining \<and> (\<forall>lt \<in> set lots. 0 < lt_quantity lt) \<and> (lots \<noteq> [] \<longrightarrow> remaining = 0)"
    by (rule close_lots_shape [OF c]) (use assms in \<open>auto simp: lot_ok_def\<close>)
  with assms show ?thesis
    by (auto simp: lot_apply_fill_def c lot_ok_def Let_def split: side.splits)
qed

text \<open>
  C29: A lot book keeps its shape under every sequence of fills of positive quantity, with any
  rounding: all lots have a positive quantity, all are on the side the book records, and the book
  is flat exactly when it has no lot.
\<close>

theorem lot_book_well_formed:
  assumes "\<forall>f \<in> set fills. 0 < fl_quantity f"
  shows "lot_ok (fold (lot_apply_fill m) fills lot_init)"
proof -
  have "lot_ok b \<Longrightarrow> lot_ok (fold (lot_apply_fill m) fills b)" for b
    using assms by (induction fills arbitrary: b) (auto intro: lot_ok_step)
  moreover have "lot_ok lot_init" by (simp add: lot_ok_def lot_init_def)
  ultimately show ?thesis by blast
qed

theorem lot_book_well_formed_witness:
  "lot_ok (fold (lot_apply_fill LIFO) [trade BUY 2 100, trade SELL 3 120] lot_init)"
  by (rule lot_book_well_formed) (simp add: trade_def)

end
