(* ===== verification/Position_Engine.thy ===== *)
theory Position_Engine
  imports Accounting_Laws Event_Bus
begin

text \<open>
  \<open>position/engine.py\<close>, \<open>position/pnl.py\<close>, \<open>position/portfolio_view.py\<close> and \<open>core/positions.py\<close>: the
  engine that keeps one ledger per (strategy, instrument), the marks, and what it publishes. As in
  the other engines the clock is read once per handler (\<open>pe_now\<close>), the bus has not been stopped and
  \<open>pe_sent\<close> is a history variable no definition reads. Fills have a positive quantity, as the
  gateways send them; the periodic task of \<open>_mark_loop\<close> is the operation \<open>mark_to_market_all\<close>.
\<close>

record position =
  po_strategy :: strategy_id
  po_instrument :: instrument
  po_quantity :: dec
  po_average :: dec
  po_realized :: dec
  po_unrealized :: dec
  po_mark :: dec

definition is_flat :: "position \<Rightarrow> bool" where "is_flat p \<longleftrightarrow> po_quantity p = 0"
definition is_long :: "position \<Rightarrow> bool" where "is_long p \<longleftrightarrow> 0 < po_quantity p"
definition is_short :: "position \<Rightarrow> bool" where "is_short p \<longleftrightarrow> po_quantity p < 0"
definition total_pnl :: "position \<Rightarrow> dec" where "total_pnl p = dadd (po_realized p) (po_unrealized p)"

record portfolio_aggregate =
  pa_realized :: dec
  pa_unrealized :: dec
  pa_total :: dec
  pa_gross :: dec
  pa_net :: dec

text \<open>The running totals of \<open>aggregate_portfolio\<close>: realized, unrealized, gross, net.\<close>

definition add_book :: "book \<times> dec \<Rightarrow> dec \<times> dec \<times> dec \<times> dec \<Rightarrow> dec \<times> dec \<times> dec \<times> dec" where
  "add_book bm acc =
     (case (bm, acc) of
        ((b, mark), (realized, unrealized, gross, net)) \<Rightarrow>
          (let notional = dmul (book_quantity b) mark
           in (dadd realized (book_realized b), dadd unrealized (book_unrealized mark b),
               dadd gross (dabs notional), dadd net notional)))"

definition aggregate_portfolio :: "(book \<times> dec) list \<Rightarrow> portfolio_aggregate" where
  "aggregate_portfolio items =
     (case fold add_book items (0, 0, 0, 0) of
        (realized, unrealized, gross, net) \<Rightarrow>
          \<lparr>pa_realized = realized, pa_unrealized = unrealized, pa_total = dadd realized unrealized,
           pa_gross = gross, pa_net = net\<rparr>)"

type_synonym book_key = "strategy_id \<times> string"

record position_engine =
  pe_now :: timestamp
  pe_bus :: async_bus
  pe_method :: accounting_method
  pe_source :: string
  pe_books :: "(book_key, book) dict"
  pe_instruments :: "(book_key, instrument) dict"
  pe_marks :: "(string, dec) dict"
  pe_started :: bool
  pe_dropped :: nat
  pe_sent :: "(topic \<times> event \<times> bool) list"

definition position_engine_init :: "accounting_method \<Rightarrow> string \<Rightarrow> async_bus \<Rightarrow> timestamp \<Rightarrow> position_engine" where
  "position_engine_init m src b now =
     \<lparr>pe_now = now, pe_bus = b, pe_method = m, pe_source = src, pe_books = [], pe_instruments = [],
      pe_marks = [], pe_started = False, pe_dropped = 0, pe_sent = []\<rparr>"

definition pos_publish :: "topic \<Rightarrow> event \<Rightarrow> position_engine \<Rightarrow> position_engine" where
  "pos_publish t e s =
     (case publish t e (pe_bus s) of
        (b, r) \<Rightarrow>
          (let s1 = s\<lparr>pe_bus := b, pe_sent := pe_sent s @ [(t, e, r = Inr ())]\<rparr>
           in if r = Inr () then s1 else s1\<lparr>pe_dropped := pe_dropped s1 + 1\<rparr>))"

definition position_update :: "strategy_id \<Rightarrow> instrument \<Rightarrow> book \<Rightarrow> dec \<Rightarrow> position_engine \<Rightarrow> position_update_event" where
  "position_update sid ins b mark s =
     \<lparr>ts_event = pe_now s, ts_ingest = pe_now s, source = pe_source s, pu_strategy = sid,
      pu_instrument = ins, pu_quantity = book_quantity b, pu_avg_price = book_average b,
      pu_realized = book_realized b, pu_unrealized = book_unrealized mark b, pu_mark = mark\<rparr>"

definition publish_position_update ::
    "strategy_id \<Rightarrow> instrument \<Rightarrow> book \<Rightarrow> dec \<Rightarrow> position_engine \<Rightarrow> position_engine" where
  "publish_position_update sid ins b mark s =
     pos_publish POSITIONS (EvPosition (position_update sid ins b mark s)) s"

definition fill_key :: "fill_event \<Rightarrow> book_key" where
  "fill_key f = (fl_strategy f, instrument_id (fl_instrument f))"

definition pos_on_fill :: "event \<Rightarrow> position_engine \<Rightarrow> position_engine" where
  "pos_on_fill e s =
     (case e of
        EvFill f \<Rightarrow>
          (let key = fill_key f;
               s1 = (case dget (pe_books s) key of
                       Some _ \<Rightarrow> s
                     | None \<Rightarrow> s\<lparr>pe_books := dset key (make_book (pe_method s)) (pe_books s),
                                 pe_instruments := dset key (fl_instrument f) (pe_instruments s)\<rparr>);
               s2 = s1\<lparr>pe_books := dmod key (book_apply_fill f) (pe_books s1)\<rparr>
           in case dget (pe_books s2) key of
                None \<Rightarrow> s2
              | Some b \<Rightarrow>
                  publish_position_update (fl_strategy f) (fl_instrument f) b
                    (case dget (pe_marks s2) (instrument_id (fl_instrument f)) of
                       None \<Rightarrow> fl_price f | Some m \<Rightarrow> m) s2)
      | _ \<Rightarrow> s)"

definition pos_on_market_data :: "event \<Rightarrow> position_engine \<Rightarrow> position_engine" where
  "pos_on_market_data e s =
     (case e of
        EvTick t \<Rightarrow> s\<lparr>pe_marks := dset (instrument_id (tk_instrument t)) (tick_mid t) (pe_marks s)\<rparr>
      | _ \<Rightarrow> s)"

definition mark_one :: "book_key \<times> book \<Rightarrow> position_engine \<Rightarrow> position_engine" where
  "mark_one kb s =
     (case kb of
        (key, b) \<Rightarrow>
          if book_quantity b = 0 then s
          else
            case dget (pe_instruments s) key of
              None \<Rightarrow> s
            | Some ins \<Rightarrow>
                (case dget (pe_marks s) (instrument_id ins) of
                   None \<Rightarrow> s
                 | Some mark \<Rightarrow> publish_position_update (fst key) ins b mark s))"

definition mark_to_market_all :: "position_engine \<Rightarrow> position_engine" where
  "mark_to_market_all s = fold mark_one (pe_books s) s"

text \<open>The books of a strategy (of all without one) with their marks, zero where none is known.\<close>

definition marked_books :: "strategy_id option \<Rightarrow> position_engine \<Rightarrow> (book \<times> dec) list" where
  "marked_books sid s =
     map (\<lambda>(key, b). (b, case dget (pe_instruments s) key of
                           None \<Rightarrow> 0
                         | Some ins \<Rightarrow> (case dget (pe_marks s) (instrument_id ins) of None \<Rightarrow> 0 | Some m \<Rightarrow> m)))
       (filter (\<lambda>(key, b). sid = None \<or> sid = Some (fst key)) (pe_books s))"

definition get_portfolio_aggregate :: "strategy_id option \<Rightarrow> position_engine \<Rightarrow> portfolio_aggregate" where
  "get_portfolio_aggregate sid s = aggregate_portfolio (marked_books sid s)"

definition publish_portfolio_snapshot :: "strategy_id option \<Rightarrow> position_engine \<Rightarrow> position_engine" where
  "publish_portfolio_snapshot sid s =
     (let a = aggregate_portfolio (marked_books sid s)
      in pos_publish POSITIONS (EvPnL \<lparr>ts_event = pe_now s, ts_ingest = pe_now s, source = pe_source s,
           ps_strategy = sid, ps_realized = pa_realized a, ps_unrealized = pa_unrealized a,
           ps_total = pa_total a, ps_gross = pa_gross a, ps_net = pa_net a\<rparr>) s)"

subsection \<open>Reads\<close>

definition get_book :: "strategy_id \<Rightarrow> instrument \<Rightarrow> position_engine \<Rightarrow> book option" where
  "get_book sid ins s = dget (pe_books s) (sid, instrument_id ins)"

definition engine_position :: "strategy_id \<Rightarrow> instrument \<Rightarrow> position_engine \<Rightarrow> position option" where
  "engine_position sid ins s =
     (case get_book sid ins s of
        None \<Rightarrow> None
      | Some b \<Rightarrow>
          if book_quantity b = 0 then None
          else
            let mark = (case dget (pe_marks s) (instrument_id ins) of None \<Rightarrow> book_average b | Some m \<Rightarrow> m)
            in Some \<lparr>po_strategy = sid, po_instrument = ins, po_quantity = book_quantity b,
                 po_average = book_average b, po_realized = book_realized b,
                 po_unrealized = book_unrealized mark b, po_mark = mark\<rparr>)"

definition get_positions :: "strategy_id \<Rightarrow> position_engine \<Rightarrow> (instrument, position) dict" where
  "get_positions sid s =
     fold (\<lambda>(key, b) out.
             if fst key \<noteq> sid \<or> book_quantity b = 0 then out
             else case dget (pe_instruments s) key of
                    None \<Rightarrow> out
                  | Some ins \<Rightarrow> (case engine_position sid ins s of None \<Rightarrow> out | Some p \<Rightarrow> dset ins p out))
       (pe_books s) []"

definition get_all_positions :: "position_engine \<Rightarrow> position list" where
  "get_all_positions s =
     List.map_filter (\<lambda>(key, b).
         if book_quantity b = 0 then None
         else case dget (pe_instruments s) key of
                None \<Rightarrow> None
              | Some ins \<Rightarrow> engine_position (fst key) ins s)
       (pe_books s)"

record position_counters =
  pc_open :: nat
  pc_total :: nat
  pc_dropped :: nat

definition position_snapshot :: "position_engine \<Rightarrow> position_counters" where
  "position_snapshot s =
     \<lparr>pc_open = length (filter (\<lambda>b. book_quantity b \<noteq> 0) (dvals (pe_books s))),
      pc_total = length (pe_books s), pc_dropped = pe_dropped s\<rparr>"

text \<open>\<open>EnginePortfolioView\<close> hands the engine's reads to strategies.\<close>

definition view_position :: "instrument \<Rightarrow> strategy_id \<Rightarrow> position_engine \<Rightarrow> position option" where
  "view_position ins sid s = engine_position sid ins s"

definition view_positions :: "strategy_id \<Rightarrow> position_engine \<Rightarrow> (instrument, position) dict" where
  "view_positions sid s = get_positions sid s"

end
