(* ===== verification/Position_Properties.thy ===== *)
theory Position_Properties
  imports Position_Engine
begin

text \<open>
  The position engine over its histories: every ledger is the fold of its own fills, and the
  portfolio totals before the first tick of an instrument.
\<close>

datatype pos_op = PosFill event | PosTick event | PosMark | PosSnapshot "strategy_id option" | PosBus async_bus | PosTime timestamp

fun pos_do :: "pos_op \<Rightarrow> position_engine \<Rightarrow> position_engine" where
  "pos_do (PosFill e) s = pos_on_fill e s"
| "pos_do (PosTick e) s = pos_on_market_data e s"
| "pos_do PosMark s = mark_to_market_all s"
| "pos_do (PosSnapshot sid) s = publish_portfolio_snapshot sid s"
| "pos_do (PosBus b) s = s\<lparr>pe_bus := b\<rparr>"
| "pos_do (PosTime t) s = s\<lparr>pe_now := t\<rparr>"

fun fills_of :: "pos_op list \<Rightarrow> fill_event list" where
  "fills_of [] = []"
| "fills_of (PosFill (EvFill f) # ops) = f # fills_of ops"
| "fills_of (_ # ops) = fills_of ops"

lemma pos_publish_sel [simp]:
  "pe_books (pos_publish t e s) = pe_books s" "pe_method (pos_publish t e s) = pe_method s"
  "pe_marks (pos_publish t e s) = pe_marks s" "pe_instruments (pos_publish t e s) = pe_instruments s"
  "pe_now (pos_publish t e s) = pe_now s" "pe_source (pos_publish t e s) = pe_source s"
  by (simp_all add: pos_publish_def Let_def split: prod.split)

lemma pos_publish_sent:
  "pe_sent (pos_publish t e s) = pe_sent s @ [(t, e, snd (publish t e (pe_bus s)) = Inr ())]"
  by (simp add: pos_publish_def Let_def split: prod.split)

lemma mark_one_sel [simp]:
  "pe_books (mark_one kb s) = pe_books s" "pe_method (mark_one kb s) = pe_method s"
  by (auto simp: mark_one_def publish_position_update_def split: prod.split option.split)

lemma mark_all_sel [simp]:
  "pe_books (mark_to_market_all s) = pe_books s" "pe_method (mark_to_market_all s) = pe_method s"
proof -
  have "pe_books (fold mark_one bs s) = pe_books s \<and> pe_method (fold mark_one bs s) = pe_method s" for bs
    by (induction bs arbitrary: s) simp_all
  then show "pe_books (mark_to_market_all s) = pe_books s" "pe_method (mark_to_market_all s) = pe_method s"
    by (simp_all add: mark_to_market_all_def)
qed

definition book_or_new :: "book_key \<Rightarrow> position_engine \<Rightarrow> book" where
  "book_or_new key s = (case dget (pe_books s) key of None \<Rightarrow> make_book (pe_method s) | Some b \<Rightarrow> b)"

lemma pos_on_fill_books:
  "dget (pe_books (pos_on_fill (EvFill f) s)) key =
     (if key = fill_key f then Some (book_apply_fill f (book_or_new key s)) else dget (pe_books s) key)"
  by (auto simp: pos_on_fill_def publish_position_update_def book_or_new_def Let_def split: option.split)

lemma pos_on_fill_method [simp]: "pe_method (pos_on_fill e s) = pe_method s"
  by (auto simp: pos_on_fill_def publish_position_update_def Let_def split: event.split option.split)

lemma pos_on_fill_other [simp]: "(\<And>f. e \<noteq> EvFill f) \<Longrightarrow> pos_on_fill e s = s"
  by (auto simp: pos_on_fill_def split: event.split)

text \<open>The ledger of a key after a sequence of fills, if there was one of its own.\<close>

definition ledger_after :: "accounting_method \<Rightarrow> fill_event list \<Rightarrow> book_key \<Rightarrow> book option" where
  "ledger_after m fills key =
     (let own = filter (\<lambda>f. fill_key f = key) fills
      in if own = [] then None else Some (fold book_apply_fill own (make_book m)))"

lemma pos_do_books:
  "pe_method (pos_do op s) = pe_method s \<and>
   dget (pe_books (pos_do op s)) key =
     (case fills_of [op] of
        [] \<Rightarrow> dget (pe_books s) key
      | f # _ \<Rightarrow> if key = fill_key f then Some (book_apply_fill f (book_or_new key s)) else dget (pe_books s) key)"
proof (cases op)
  case (PosFill e)
  then show ?thesis by (cases e) (simp_all add: pos_on_fill_books)
next
  case (PosTick e)
  then show ?thesis by (cases e) (simp_all add: pos_on_market_data_def)
qed (simp_all add: publish_portfolio_snapshot_def Let_def)

lemma fills_of_snoc: "fills_of (ops @ [op]) = fills_of ops @ fills_of [op]"
  by (induction ops rule: fills_of.induct) simp_all

lemma fills_of_single: "fills_of [op] = [] \<or> (\<exists>f. fills_of [op] = [f])"
proof (cases op)
  case (PosFill e)
  then show ?thesis by (cases e) simp_all
qed simp_all

lemma ledger_after_snoc:
  "ledger_after m (fs @ [f]) key =
     (if key = fill_key f
      then Some (book_apply_fill f (case ledger_after m fs key of None \<Rightarrow> make_book m | Some b \<Rightarrow> b))
      else ledger_after m fs key)"
  by (simp add: ledger_after_def Let_def)

lemma books_after:
  "pe_method (fold pos_do ops (position_engine_init m src b t)) = m \<and>
   dget (pe_books (fold pos_do ops (position_engine_init m src b t))) key = ledger_after m (fills_of ops) key"
proof (induction ops rule: rev_induct)
  case Nil
  then show ?case by (simp add: position_engine_init_def ledger_after_def)
next
  case (snoc op ops)
  let ?s = "fold pos_do ops (position_engine_init m src b t)"
  from fills_of_single [of op] show ?case
  proof
    assume n: "fills_of [op] = []"
    show ?case using snoc pos_do_books [of op ?s key] by (simp add: n fills_of_snoc [of ops op])
  next
    assume "\<exists>f. fills_of [op] = [f]"
    then obtain f where f: "fills_of [op] = [f]" ..
    have "book_or_new key ?s =
        (case ledger_after m (fills_of ops) key of None \<Rightarrow> make_book m | Some b \<Rightarrow> b)"
      using snoc by (simp add: book_or_new_def split: option.split)
    then show ?case using snoc pos_do_books [of op ?s key]
      by (cases "key = fill_key f") (simp_all add: f fills_of_snoc [of ops op] ledger_after_snoc)
  qed
qed

text \<open>
  C18: Each ledger of the position engine sees its own fills, all of them, once each and in the order
  they came, and nothing else: after every history of fills, ticks, periodic marks and snapshots the
  book under a (strategy, instrument) key is the chosen method applied to the fills of that key.
\<close>

theorem ledgers_see_their_fills:
  "dget (pe_books (fold pos_do ops (position_engine_init m src b t))) key =
     ledger_after m (fills_of ops) key"
  using books_after [of ops m src b t key] by simp

text \<open>What one fill leaves behind.\<close>

lemma ledgers_after_fill:
  "dget (pe_books (pos_on_fill (EvFill f) (fold pos_do ops (position_engine_init m src b t)))) key =
     ledger_after m (fills_of ops @ [f]) key"
  using books_after [of "ops @ [PosFill (EvFill f)]" m src b t key] by (simp add: fills_of_snoc)

lemma pos_on_fill_publishes:
  assumes "dget (pe_books (pos_on_fill (EvFill f) s)) (fill_key f) = Some b"
  shows "\<exists>u ok. last (pe_sent (pos_on_fill (EvFill f) s)) = (POSITIONS, EvPosition u, ok) \<and>
    pu_strategy u = fl_strategy f \<and> pu_instrument u = fl_instrument f \<and> pu_quantity u = book_quantity b"
proof -
  have "b = book_apply_fill f (book_or_new (fill_key f) s)" using assms by (simp add: pos_on_fill_books)
  then show ?thesis
    by (auto simp: pos_on_fill_def publish_position_update_def pos_publish_sent position_update_def
        book_or_new_def Let_def split: option.split)
qed

subsection \<open>Portfolio totals without a mark\<close>

text \<open>
  Before the first tick of an instrument the portfolio total is not "flat" for it, as the code
  intends: an open position of the weighted average ledger is valued at a mark of zero, so the
  total reports minus the whole cost of the position as unrealized profit, while the exposure is zero.
\<close>

theorem unmarked_position_not_flat:
  assumes "pe_books s = [(key, WavgBook b)]" and "dget (pe_instruments s) key = Some ins"
    and "dget (pe_marks s) (instrument_id ins) = None"
    and "wb_quantity b \<noteq> 0" and "dfits k (wb_avg b)" and "dfits k (wb_avg b * wb_quantity b)"
  shows "pa_unrealized (get_portfolio_aggregate None s) = - (wb_avg b * wb_quantity b) \<and>
    pa_gross (get_portfolio_aggregate None s) = 0"
proof -
  have r: "rnd (wb_avg b) = wb_avg b" "rnd (wb_avg b * wb_quantity b) = wb_avg b * wb_quantity b"
    using assms(5,6) by (simp_all add: rnd_exact)
  show ?thesis
    using assms(1-4) r
    by (simp add: get_portfolio_aggregate_def marked_books_def aggregate_portfolio_def add_book_def
        wavg_unrealized_def dec_ops rnd_minus Let_def)
qed

definition sample_positions :: position_engine where
  "sample_positions =
     fold pos_do [PosFill (EvFill (trade BUY 2 100))]
       (position_engine_init M_WAVG ''position_engine'' (sample_bus 10 1) 1000)"

theorem unmarked_position_not_flat_witness:
  "pa_unrealized (get_portfolio_aggregate None sample_positions) = - 200"
proof -
  define b where "b = \<lparr>wb_quantity = 2, wb_avg = 100, wb_realized = - 1\<rparr>"
  let ?ins = "fl_instrument (trade BUY 2 100)"
  have "pe_books sample_positions = [(fill_key (trade BUY 2 100), WavgBook b)]"
    "dget (pe_instruments sample_positions) (fill_key (trade BUY 2 100)) = Some ?ins"
    "dget (pe_marks sample_positions) (instrument_id ?ins) = None"
    by (simp_all add: sample_positions_def position_engine_init_def pos_on_fill_def Let_def b_def
        publish_position_update_def fill_key_def trade_def wavg_init_def wavg_apply_fill_def dec_ops
        dset_def)
  from unmarked_position_not_flat [OF this, of 0] show ?thesis
    by (simp add: b_def dfits_def)
qed

end
