(* ===== verification/Depth_Book.thy ===== *)
theory Depth_Book
  imports Order_Book
begin

text \<open>
  \<open>order_gateways/binance/depth_book.py\<close>: the manager that interleaves a REST snapshot with the
  depth stream. The response of the venue is an argument: \<open>bootstrap\<close> suspends on the request, so it
  is the two steps \<open>bootstrap_begin\<close> and \<open>bootstrap_finish\<close>, between which frames are buffered. An
  operation that can raise returns the state it leaves with the result.

  The abstract specification is the venue's book, two functions from an update id and a price to a
  quantity. The relation \<open>depth_reach\<close> holds the histories of a manager fed with truthful frames and
  snapshots, whose buffered frames are contiguous when a snapshot is applied; in all of them an
  initialized book is the venue's book at the last applied update.
\<close>

record depth_event =
  de_first :: int
  de_last :: int
  de_bids :: updates
  de_asks :: updates

record depth_book =
  db_book :: l2_book
  db_buffer :: "depth_event list"
  db_pending :: bool
  db_snapshot_id :: "int option"
  db_last_u :: "int option"

definition depth_init :: "instrument \<Rightarrow> depth_book" where
  "depth_init ins =
     \<lparr>db_book = l2_init ins, db_buffer = [], db_pending = False, db_snapshot_id = None, db_last_u = None\<rparr>"

definition apply_event_to_book :: "depth_event \<Rightarrow> depth_book \<Rightarrow> depth_book \<times> (py_error + unit)" where
  "apply_event_to_book e d =
     (let current_seq = (case l2_sequence (db_book d) of None \<Rightarrow> 0 | Some n \<Rightarrow> n)
      in case apply_delta (current_seq + 1) (de_bids e) (de_asks e) (db_book d) of
           Inl err \<Rightarrow> (d, Inl err)
         | Inr b \<Rightarrow> (d\<lparr>db_book := b, db_last_u := Some (de_last e)\<rparr>, Inr ()))"

text \<open>The loop of \<open>_replay_buffer\<close>; the flag is \<open>first_applied\<close>, the list what is left of the buffer.\<close>

fun replay_buffer :: "int \<Rightarrow> bool \<Rightarrow> depth_event list \<Rightarrow> depth_book \<Rightarrow> depth_book \<times> (py_error + unit)" where
  "replay_buffer last_id first_applied [] d = (d\<lparr>db_buffer := []\<rparr>, Inr ())"
| "replay_buffer last_id first_applied (e # es) d =
     (if de_last e \<le> last_id then replay_buffer last_id first_applied es d
      else if \<not> first_applied \<and> \<not> (de_first e \<le> last_id + 1 \<and> last_id + 1 \<le> de_last e) then
        (d\<lparr>db_book := l2_reset (db_book d), db_last_u := None, db_snapshot_id := None, db_buffer := es\<rparr>, Inr ())
      else
        case apply_event_to_book e d of
          (d1, Inl err) \<Rightarrow> (d1\<lparr>db_buffer := es\<rparr>, Inl err)
        | (d1, Inr _) \<Rightarrow> replay_buffer last_id True es d1)"

definition bootstrap_begin :: "depth_book \<Rightarrow> depth_book" where
  "bootstrap_begin d = d\<lparr>db_pending := True\<rparr>"

definition bootstrap_finish :: "int \<Rightarrow> updates \<Rightarrow> updates \<Rightarrow> depth_book \<Rightarrow> depth_book \<times> (py_error + unit)" where
  "bootstrap_finish last_id bids asks d =
     (let d1 = d\<lparr>db_book := apply_snapshot last_id bids asks (db_book d),
                 db_snapshot_id := Some last_id, db_last_u := Some last_id\<rparr>
      in case replay_buffer last_id False (db_buffer d1) d1 of
           (d2, Inl err) \<Rightarrow> (d2, Inl err)
         | (d2, Inr _) \<Rightarrow> (d2\<lparr>db_pending := False\<rparr>, Inr ()))"

definition apply_diff :: "depth_event \<Rightarrow> depth_book \<Rightarrow> depth_book \<times> (py_error + unit)" where
  "apply_diff e d =
     (if db_pending d \<or> \<not> l2_initialized (db_book d)
      then (d\<lparr>db_buffer := db_buffer d @ [e]\<rparr>, Inr ())
      else if db_last_u d \<noteq> None \<and> db_last_u d \<noteq> Some (de_first e - 1)
      then (d\<lparr>db_book := l2_reset (db_book d), db_last_u := None\<rparr>, Inl SequenceGap)
      else apply_event_to_book e d)"

subsection \<open>The venue\<close>

text \<open>
  A frame is truthful for a side when each price it lists ends at the venue's quantity after its
  last update, and the quantity at a price it does not list did not change over its range.
\<close>

definition truthful :: "(int \<Rightarrow> dec \<Rightarrow> dec) \<Rightarrow> int \<Rightarrow> int \<Rightarrow> updates \<Rightarrow> bool" where
  "truthful V first last_id us \<longleftrightarrow>
     first \<le> last_id \<and>
     (\<forall>p. case listed us p of
            Some q \<Rightarrow> q = V last_id p
          | None \<Rightarrow> (\<forall>n. first - 1 \<le> n \<longrightarrow> n \<le> last_id \<longrightarrow> V n p = V last_id p))"

definition truthful_event :: "(int \<Rightarrow> dec \<Rightarrow> dec) \<Rightarrow> (int \<Rightarrow> dec \<Rightarrow> dec) \<Rightarrow> depth_event \<Rightarrow> bool" where
  "truthful_event VB VA e \<longleftrightarrow>
     truthful VB (de_first e) (de_last e) (de_bids e) \<and> truthful VA (de_first e) (de_last e) (de_asks e)"

definition truthful_snapshot :: "(int \<Rightarrow> dec \<Rightarrow> dec) \<Rightarrow> int \<Rightarrow> updates \<Rightarrow> bool" where
  "truthful_snapshot V last_id us \<longleftrightarrow>
     distinct (map fst us) \<and> (\<forall>(p, q) \<in> set us. 0 \<le> q) \<and>
     (\<forall>p. V last_id p = (case listed us p of None \<Rightarrow> 0 | Some q \<Rightarrow> q))"

fun contiguous :: "depth_event list \<Rightarrow> bool" where
  "contiguous (e # f # es) = (de_first f = de_last e + 1 \<and> contiguous (f # es))"
| "contiguous _ = True"

definition shows_venue ::
    "(int \<Rightarrow> dec \<Rightarrow> dec) \<Rightarrow> (int \<Rightarrow> dec \<Rightarrow> dec) \<Rightarrow> int \<Rightarrow> depth_book \<Rightarrow> bool" where
  "shows_venue VB VA u d \<longleftrightarrow>
     l2_initialized (db_book d) \<and> db_last_u d = Some u \<and>
     (\<forall>p. level (l2_bids (db_book d)) p = VB u p) \<and> (\<forall>p. level (l2_asks (db_book d)) p = VA u p)"

inductive depth_reach ::
    "instrument \<Rightarrow> (int \<Rightarrow> dec \<Rightarrow> dec) \<Rightarrow> (int \<Rightarrow> dec \<Rightarrow> dec) \<Rightarrow> depth_book \<Rightarrow> bool"
  for ins :: instrument and VB :: "int \<Rightarrow> dec \<Rightarrow> dec" and VA :: "int \<Rightarrow> dec \<Rightarrow> dec" where
  reach_init: "depth_reach ins VB VA (depth_init ins)"
| reach_begin: "depth_reach ins VB VA d \<Longrightarrow> depth_reach ins VB VA (bootstrap_begin d)"
| reach_diff: "depth_reach ins VB VA d \<Longrightarrow> truthful_event VB VA e \<Longrightarrow>
    depth_reach ins VB VA (fst (apply_diff e d))"
| reach_finish: "depth_reach ins VB VA d \<Longrightarrow> db_pending d \<Longrightarrow> contiguous (db_buffer d) \<Longrightarrow>
    truthful_snapshot VB last_id bids \<Longrightarrow> truthful_snapshot VA last_id asks \<Longrightarrow>
    depth_reach ins VB VA (fst (bootstrap_finish last_id bids asks d))"

inductive_cases depth_reachE: "depth_reach ins VB VA d"

lemma truthful_step:
  assumes "truthful V first last_id us" and "first \<le> n + 1" "n \<le> last_id"
    and "\<And>p. level d p = V n p"
  shows "level (fold apply_update us d) p = V last_id p"
proof -
  have t: "case listed us p of Some q \<Rightarrow> q = V last_id p
      | None \<Rightarrow> (\<forall>n. first - 1 \<le> n \<longrightarrow> n \<le> last_id \<longrightarrow> V n p = V last_id p)"
    using assms(1) unfolding truthful_def by blast
  show ?thesis
  proof (cases "listed us p")
    case None
    from t have "\<forall>n. first - 1 \<le> n \<longrightarrow> n \<le> last_id \<longrightarrow> V n p = V last_id p"
      unfolding None option.case .
    moreover have "first - 1 \<le> n" using assms(2) by simp
    ultimately have "V n p = V last_id p" using assms(3) by blast
    with None show ?thesis by (simp add: level_apply_updates assms(4))
  next
    case (Some q)
    from t have "q = V last_id p" unfolding Some option.case .
    with Some show ?thesis by (simp add: level_apply_updates)
  qed
qed

lemma apply_event_shows:
  assumes "shows_venue VB VA n d" "truthful_event VB VA e" "de_first e \<le> n + 1" "n \<le> de_last e"
  shows "\<exists>d1. apply_event_to_book e d = (d1, Inr ()) \<and> shows_venue VB VA (de_last e) d1 \<and>
    db_pending d1 = db_pending d \<and> db_buffer d1 = db_buffer d"
proof -
  let ?b = "db_book d"
  have "\<exists>b. apply_delta ((case l2_sequence ?b of None \<Rightarrow> 0 | Some n \<Rightarrow> n) + 1) (de_bids e) (de_asks e) ?b = Inr b \<and>
      l2_initialized b \<and> l2_bids b = fold apply_update (de_bids e) (l2_bids ?b) \<and>
      l2_asks b = fold apply_update (de_asks e) (l2_asks ?b)"
    using assms(1) by (auto simp: apply_delta_def shows_venue_def split: option.splits)
  then obtain b where b: "apply_delta ((case l2_sequence ?b of None \<Rightarrow> 0 | Some n \<Rightarrow> n) + 1) (de_bids e) (de_asks e) ?b = Inr b"
    "l2_initialized b" "l2_bids b = fold apply_update (de_bids e) (l2_bids ?b)"
    "l2_asks b = fold apply_update (de_asks e) (l2_asks ?b)" by blast
  have "level (l2_bids b) p = VB (de_last e) p" "level (l2_asks b) p = VA (de_last e) p" for p
    using assms unfolding b(3,4) truthful_event_def shows_venue_def by (auto intro: truthful_step)
  with b(1,2) show ?thesis by (simp add: apply_event_to_book_def shows_venue_def)
qed

lemma replay_shows:
  assumes "contiguous es" and "\<forall>e \<in> set es. truthful_event VB VA e" and "shows_venue VB VA n d"
    and "if fa then last_id \<le> n \<and> (es = [] \<or> de_first (hd es) = n + 1) else n = last_id"
  shows "\<exists>d1. replay_buffer last_id fa es d = (d1, Inr ()) \<and> set (db_buffer d1) \<subseteq> set es \<and>
    (l2_initialized (db_book d1) \<longrightarrow> (\<exists>u. shows_venue VB VA u d1)) \<and> db_pending d1 = db_pending d"
  using assms
proof (induction es arbitrary: fa n d)
  case Nil
  then have "shows_venue VB VA n (d\<lparr>db_buffer := []\<rparr>)" by (simp add: shows_venue_def)
  then show ?case by auto
next
  case (Cons e es)
  have tail: "contiguous es" "\<forall>e \<in> set es. truthful_event VB VA e"
    using Cons.prems(1,2) by (cases es; simp)+
  have te: "truthful_event VB VA e" "de_first e \<le> de_last e"
    using Cons.prems(2) by (simp_all add: truthful_event_def truthful_def)
  consider (stale) "de_last e \<le> last_id"
    | (abort) "\<not> de_last e \<le> last_id" "\<not> fa" "\<not> (de_first e \<le> last_id + 1 \<and> last_id + 1 \<le> de_last e)"
    | (run) "\<not> de_last e \<le> last_id" "fa \<or> (de_first e \<le> last_id + 1 \<and> last_id + 1 \<le> de_last e)"
    by blast
  then show ?case
  proof cases
    case stale
    then have "\<not> fa" using Cons.prems(4) te(2) by (auto split: if_splits)
    with Cons.IH [OF tail Cons.prems(3), of False] Cons.prems(4) stale show ?thesis by fastforce
  next
    case abort
    then show ?thesis by (auto simp: l2_reset_def)
  next
    case run
    have "de_first e \<le> n + 1" "n \<le> de_last e"
      using run Cons.prems(4) te(2) by (auto split: if_splits)
    from apply_event_shows [OF Cons.prems(3) te(1) this] obtain d1 where
      d1: "apply_event_to_book e d = (d1, Inr ())" "shows_venue VB VA (de_last e) d1"
        "db_pending d1 = db_pending d" by blast
    have "if True then last_id \<le> de_last e \<and> (es = [] \<or> de_first (hd es) = de_last e + 1) else de_last e = last_id"
      using run(1) Cons.prems(1) by (cases es) auto
    from Cons.IH [OF tail d1(2) this] d1 run show ?thesis by fastforce
  qed
qed

definition depth_ok :: "(int \<Rightarrow> dec \<Rightarrow> dec) \<Rightarrow> (int \<Rightarrow> dec \<Rightarrow> dec) \<Rightarrow> depth_book \<Rightarrow> bool" where
  "depth_ok VB VA d \<longleftrightarrow>
     (\<forall>e \<in> set (db_buffer d). truthful_event VB VA e) \<and>
     (l2_initialized (db_book d) \<longrightarrow> (\<exists>u. shows_venue VB VA u d))"

lemma depth_ok_diff:
  assumes ok: "depth_ok VB VA d" and e: "truthful_event VB VA e"
  shows "depth_ok VB VA (fst (apply_diff e d))"
proof (cases "db_pending d \<or> \<not> l2_initialized (db_book d)")
  case True
  then show ?thesis using ok e by (auto simp: apply_diff_def depth_ok_def shows_venue_def)
next
  case False
  with ok obtain u where u: "shows_venue VB VA u d" by (auto simp: depth_ok_def)
  then have l: "db_last_u d = Some u" by (simp add: shows_venue_def)
  show ?thesis
  proof (cases "u = de_first e - 1")
    case True
    have "de_first e \<le> de_last e" using e by (simp add: truthful_event_def truthful_def)
    with True have "de_first e \<le> u + 1" "u \<le> de_last e" by simp_all
    from apply_event_shows [OF u e this] show ?thesis
      using False True l ok by (auto simp: apply_diff_def depth_ok_def)
  next
    case gap: False
    then show ?thesis using False l ok by (auto simp: apply_diff_def depth_ok_def l2_reset_def)
  qed
qed

lemma depth_ok_finish:
  assumes ok: "depth_ok VB VA d" and c: "contiguous (db_buffer d)"
    and b: "truthful_snapshot VB last_id bids" and a: "truthful_snapshot VA last_id asks"
  shows "depth_ok VB VA (fst (bootstrap_finish last_id bids asks d))"
proof -
  let ?d1 = "d\<lparr>db_book := apply_snapshot last_id bids asks (db_book d), db_snapshot_id := Some last_id,
      db_last_u := Some last_id\<rparr>"
  have s: "level (snapshot_levels us) p = V last_id p" if "truthful_snapshot V last_id us" for V us p
    using that level_snapshot [of us p] by (auto simp: truthful_snapshot_def)
  have "shows_venue VB VA last_id ?d1"
    by (simp add: shows_venue_def apply_snapshot_def s [OF b] s [OF a])
  moreover have "\<forall>e \<in> set (db_buffer d). truthful_event VB VA e" using ok by (simp add: depth_ok_def)
  ultimately obtain d2 where d2: "replay_buffer last_id False (db_buffer d) ?d1 = (d2, Inr ())"
    "set (db_buffer d2) \<subseteq> set (db_buffer d)" "l2_initialized (db_book d2) \<longrightarrow> (\<exists>u. shows_venue VB VA u d2)"
    using replay_shows [OF c, of VB VA last_id ?d1 False last_id] by auto
  then show ?thesis using ok by (auto simp: bootstrap_finish_def depth_ok_def shows_venue_def Let_def)
qed

lemma depth_reach_ok: "depth_reach ins VB VA d \<Longrightarrow> depth_ok VB VA d"
proof (induction rule: depth_reach.induct)
  case reach_init
  then show ?case by (simp add: depth_ok_def depth_init_def l2_init_def)
next
  case (reach_begin d)
  then show ?case by (auto simp: depth_ok_def bootstrap_begin_def shows_venue_def)
qed (simp_all add: depth_ok_diff depth_ok_finish)

text \<open>
  The depth book is the venue's book. In every history of the manager (buffering, bootstrapping,
  re-bootstrapping, applying frames, recovering from gaps) in which frames and snapshots are truthful
  and the frames buffered for a snapshot are contiguous, an initialized book shows on both sides, at
  every price, the venue's quantity after the last update it has applied.
\<close>

theorem depth_book_is_venue_book:
  assumes "depth_reach ins VB VA d" and "l2_initialized (db_book d)"
  shows "\<exists>u. db_last_u d = Some u \<and> (\<forall>p. level (l2_bids (db_book d)) p = VB u p) \<and>
    (\<forall>p. level (l2_asks (db_book d)) p = VA u p)"
  using depth_reach_ok [OF assms(1)] assms(2) by (auto simp: depth_ok_def shows_venue_def)

definition sample_frame :: "int \<Rightarrow> int \<Rightarrow> dec \<Rightarrow> depth_event" where
  "sample_frame a z q = \<lparr>de_first = a, de_last = z, de_bids = [(100, q)], de_asks = []\<rparr>"

definition sample_venue :: "int \<Rightarrow> dec \<Rightarrow> dec" where
  "sample_venue n p = (if p = 100 then of_int n else 0)"

definition sample_market :: instrument where
  "sample_market =
     \<lparr>i_symbol = ''BTCUSDT'', i_exchange = ''BINANCE'', i_asset_type = AT_SPOT, i_base = ''BTC'',
      i_quote = ''USDT'', i_tick_size = 1, i_lot_size = 1, i_min_notional = None, i_multiplier = 1\<rparr>"

definition sample_depth :: depth_book where
  "sample_depth =
     fst (bootstrap_finish 5 [(100, 5)] []
       (fst (apply_diff (sample_frame 4 7 7) (bootstrap_begin (depth_init sample_market)))))"

theorem depth_book_is_venue_book_witness:
  "\<exists>u. db_last_u sample_depth = Some u \<and> level (l2_bids (db_book sample_depth)) 100 = of_int u"
proof -
  have f: "truthful_event sample_venue (\<lambda>n p. 0) (sample_frame 4 7 7)"
    by (simp add: truthful_event_def truthful_def sample_frame_def sample_venue_def listed_def)
  have "depth_reach sample_market sample_venue (\<lambda>n p. 0) sample_depth"
    unfolding sample_depth_def
    by (intro reach_finish reach_diff [OF _ f] reach_begin reach_init)
      (simp_all add: apply_diff_def bootstrap_begin_def depth_init_def truthful_snapshot_def listed_def
        sample_venue_def)
  moreover have "l2_initialized (db_book sample_depth)"
    by (simp add: sample_depth_def bootstrap_finish_def apply_diff_def bootstrap_begin_def depth_init_def
        l2_init_def apply_snapshot_def sample_frame_def apply_event_to_book_def apply_delta_def Let_def)
  ultimately show ?thesis using depth_book_is_venue_book by (fastforce simp: sample_venue_def)
qed

text \<open>
  A gap is refused in the stream but accepted in the buffer. Of two frames with updates missing
  between them, the second raises a sequence gap and resets the book when it arrives after the
  bootstrap; when both were buffered before it, the bootstrap succeeds and the book counts as
  initialized at the second frame.
\<close>

theorem buffered_gap_accepted:
  fixes bids asks :: updates
  assumes "db_buffer d = []" and "db_pending d"
    and "de_first e1 \<le> last_id + 1" "last_id + 1 \<le> de_last e1"
    and "de_last e1 + 1 < de_first e2" "de_first e2 \<le> de_last e2"
  defines "late \<equiv> fst (bootstrap_finish last_id bids asks (fst (apply_diff e1 d)))"
    and "early \<equiv> bootstrap_finish last_id bids asks (fst (apply_diff e2 (fst (apply_diff e1 d))))"
  shows "snd (apply_diff e2 late) = Inl SequenceGap \<and> \<not> l2_initialized (db_book (fst (apply_diff e2 late))) \<and>
    snd early = Inr () \<and> l2_initialized (db_book (fst early)) \<and> db_last_u (fst early) = Some (de_last e2)"
  using assms(1-6) unfolding late_def early_def
  by (simp add: apply_diff_def bootstrap_finish_def apply_snapshot_def apply_event_to_book_def
      apply_delta_def l2_reset_def Let_def)

theorem buffered_gap_accepted_witness:
  "snd (bootstrap_finish 5 [] [] (fst (apply_diff (sample_frame 9 9 1) (fst (apply_diff (sample_frame 6 6 1)
     (bootstrap_begin (depth_init sample_market))))))) = Inr ()"
  using buffered_gap_accepted [where d = "bootstrap_begin (depth_init sample_market)" and bids = "[]" and asks = "[]"
      and last_id = 5 and ?e1.0 = "sample_frame 6 6 1" and ?e2.0 = "sample_frame 9 9 1"]
  by (simp add: bootstrap_begin_def depth_init_def sample_frame_def)

end
