(* ===== verification/Venue_Sim.thy ===== *)
theory Venue_Sim
  imports Core_Types Floats
begin

text \<open>
  What the two venue simulators share: the configuration of \<open>order_gateways/sim_config.py\<close>, the
  resting order and top of book they keep, and the decisions they take the same way (whether a
  request crosses the market, the price of an immediate fill, the fee, how a fill is split in two).
  Durations, probabilities and basis points are floats; the random numbers are drawn by the caller.
\<close>

record sim_config =
  sc_venue :: string
  sc_maker_bps :: rat
  sc_taker_bps :: rat
  sc_fee_currency :: string
  sc_submit_ack_ms :: rat
  sc_cancel_ack_ms :: rat
  sc_fill_ms :: rat
  sc_partial_probability :: rat
  sc_partial_min_fraction :: rat
  sc_slippage_ticks :: int
  sc_reject_probability :: rat
  sc_reject_reason :: string

definition default_sim_config :: "string \<Rightarrow> sim_config" where
  "default_sim_config venue =
     \<lparr>sc_venue = venue, sc_maker_bps = 1, sc_taker_bps = 5, sc_fee_currency = [],
      sc_submit_ack_ms = 5, sc_cancel_ack_ms = 5, sc_fill_ms = 10, sc_partial_probability = 0,
      sc_partial_min_fraction = float_of (1 / 10), sc_slippage_ticks = 0, sc_reject_probability = 0,
      sc_reject_reason = ''simulated reject''\<rparr>"

definition fee_for :: "sim_config \<Rightarrow> dec \<Rightarrow> bool \<Rightarrow> dec" where
  "fee_for cfg notional is_maker =
     ddiv (dmul notional (float_text (if is_maker then sc_maker_bps cfg else sc_taker_bps cfg))) 10000"

record resting_order =
  ro_order_id :: uuid
  ro_coid :: coid
  ro_exchange_id :: string
  ro_strategy :: strategy_id
  ro_instrument :: instrument
  ro_side :: side
  ro_quantity :: dec
  ro_price :: dec
  ro_leaves :: dec

datatype sim_top = Top (st_bid: "dec option") (st_ask: "dec option")

definition would_cross :: "order_request \<Rightarrow> sim_top \<Rightarrow> bool" where
  "would_cross req tb =
     (case rq_price req of
        None \<Rightarrow> False
      | Some p \<Rightarrow>
          (case (rq_side req, st_bid tb, st_ask tb) of
             (BUY, _, Some ask) \<Rightarrow> ask \<le> p
           | (SELL, Some bid, _) \<Rightarrow> p \<le> bid
           | _ \<Rightarrow> False))"

text \<open>The price of an immediate fill before rounding to the tick; none without market data or limit.\<close>

definition market_price :: "sim_config \<Rightarrow> order_request \<Rightarrow> sim_top option \<Rightarrow> dec option" where
  "market_price cfg req tb =
     (case tb of
        Some (Top (Some bid) (Some ask)) \<Rightarrow>
          (let p = (case rq_side req of BUY \<Rightarrow> ask | SELL \<Rightarrow> bid)
           in if sc_slippage_ticks cfg = 0 then Some p
              else
                let slippage = dmul (i_tick_size (rq_instrument req)) (of_int (sc_slippage_ticks cfg))
                in Some (case rq_side req of BUY \<Rightarrow> dadd p slippage | SELL \<Rightarrow> dsub p slippage))
      | _ \<Rightarrow> rq_price req)"

text \<open>
  \<open>_split_fill\<close>: the two parts of a fill and how many random numbers were drawn; \<open>rnd01 n\<close> is the
  \<open>n\<close>-th number to come of \<open>random.random()\<close>, on which \<open>uniform(a, b)\<close> is \<open>a + (b - a) * random()\<close>.
\<close>

definition split_fill :: "sim_config \<Rightarrow> (nat \<Rightarrow> rat) \<Rightarrow> dec \<Rightarrow> dec \<times> dec \<times> nat" where
  "split_fill cfg rnd01 qty =
     (let prob = sc_partial_probability cfg; min_frac = sc_partial_min_fraction cfg;
          max_frac = float_of (1 - min_frac)
      in if prob \<le> 0 then (qty, 0, 0)
         else if prob \<le> rnd01 0 then (qty, 0, 1)
         else if max_frac \<le> min_frac then (qty, 0, 1)
         else
           let frac = float_of (min_frac + float_of (float_of (max_frac - min_frac) * rnd01 1));
               first = dmul qty (float_text frac)
           in (first, dsub qty first, 2))"

definition trade_crosses :: "trade_event \<Rightarrow> resting_order \<Rightarrow> bool" where
  "trade_crosses t o1 \<longleftrightarrow>
     ro_side o1 = BUY \<and> tr_price t \<le> ro_price o1 \<or> ro_side o1 = SELL \<and> ro_price o1 \<le> tr_price t"

definition resting_of :: "order_request \<Rightarrow> string \<Rightarrow> resting_order" where
  "resting_of req xid =
     \<lparr>ro_order_id = rq_order_id req, ro_coid = rq_coid req, ro_exchange_id = xid,
      ro_strategy = rq_strategy req, ro_instrument = rq_instrument req, ro_side = rq_side req,
      ro_quantity = rq_quantity req, ro_price = (case rq_price req of None \<Rightarrow> 0 | Some p \<Rightarrow> p),
      ro_leaves = rq_quantity req\<rparr>"

text \<open>The two parts of a fill are a partition of it as long as the split does not round.\<close>

lemma split_fill_sum:
  assumes "split_fill cfg rnd01 qty = (a, b, n)" and "rnd (qty - a) = qty - a"
  shows "a + b = qty"
  using assms by (auto simp: split_fill_def Let_def dsub_def split: if_splits)

lemma split_fill_whole [simp]: "sc_partial_probability cfg \<le> 0 \<Longrightarrow> split_fill cfg rnd01 qty = (qty, 0, 0)"
  by (simp add: split_fill_def)

end
