(* ===== verification/Backtest_Gateway.thy ===== *)
theory Backtest_Gateway
  imports Venue_Sim Event_Bus
begin

text \<open>
  \<open>backtest/order_gateway.py\<close>: the venue of a backtest. Instead of sleeping it schedules what it
  will publish on a heap ordered by the due time and the order of scheduling, which the replay
  engine drains. \<open>heapq\<close> is the standard library's priority queue; a heap is the list of its entries
  in the order they will be popped, so pushing inserts behind the entries that are not due later.
  The handlers contain no suspension point. \<open>random()\<close> and \<open>uuid4()\<close> draw from the sources
  \<open>bg_rng\<close> and \<open>bg_uuid_src\<close>. A handler that can raise returns the state it leaves with the result.
\<close>

record scheduled =
  sd_due :: timestamp
  sd_seq :: nat
  sd_topic :: topic
  sd_event :: event

record backtest_gateway =
  bg_bus :: async_bus
  bg_now :: timestamp
  bg_cfg :: sim_config
  bg_rng :: "nat \<Rightarrow> rat"
  bg_rng_n :: nat
  bg_uuid_src :: "nat \<Rightarrow> uuid"
  bg_uuid_n :: nat
  bg_tops :: "(string, sim_top) dict"
  bg_resting :: "(uuid, resting_order) dict"
  bg_schedule :: "scheduled list"
  bg_seq :: nat
  bg_started :: bool

definition backtest_init ::
    "async_bus \<Rightarrow> timestamp \<Rightarrow> sim_config \<Rightarrow> (nat \<Rightarrow> rat) \<Rightarrow> (nat \<Rightarrow> uuid) \<Rightarrow> backtest_gateway" where
  "backtest_init b now cfg rng src =
     \<lparr>bg_bus = b, bg_now = now, bg_cfg = cfg, bg_rng = rng, bg_rng_n = 0, bg_uuid_src = src,
      bg_uuid_n = 0, bg_tops = [], bg_resting = [], bg_schedule = [], bg_seq = 0, bg_started = False\<rparr>"

definition ns_per_ms :: rat where
  "ns_per_ms = 1000000"

definition due_ns :: "rat \<Rightarrow> backtest_gateway \<Rightarrow> timestamp" where
  "due_ns delay_ms s = bg_now s + trunc (float_of (delay_ms * ns_per_ms))"

fun heap_push :: "scheduled \<Rightarrow> scheduled list \<Rightarrow> scheduled list" where
  "heap_push x [] = [x]"
| "heap_push x (y # ys) =
     (if sd_due x < sd_due y \<or> (sd_due x = sd_due y \<and> sd_seq x < sd_seq y) then x # y # ys
      else y # heap_push x ys)"

definition schedule_event :: "rat \<Rightarrow> topic \<Rightarrow> event \<Rightarrow> backtest_gateway \<Rightarrow> backtest_gateway" where
  "schedule_event delay_ms t e s =
     s\<lparr>bg_schedule := heap_push
          \<lparr>sd_due = bg_now s + max 0 (trunc (float_of (delay_ms * ns_per_ms))), sd_seq = bg_seq s,
           sd_topic = t, sd_event = e\<rparr> (bg_schedule s),
        bg_seq := Suc (bg_seq s)\<rparr>"

text \<open>The loop of \<open>drain_due\<close>: a publication that is refused ends it with the exception.\<close>

function drain_loop :: "nat \<Rightarrow> backtest_gateway \<Rightarrow> backtest_gateway \<times> (py_error + nat)" where
  "drain_loop count s =
     (case bg_schedule s of
        [] \<Rightarrow> (s, Inr count)
      | x # xs \<Rightarrow>
          if bg_now s < sd_due x then (s, Inr count)
          else
            case publish (sd_topic x) (sd_event x) (bg_bus s) of
              (b, Inl err) \<Rightarrow> (s\<lparr>bg_schedule := xs, bg_bus := b\<rparr>, Inl err)
            | (b, Inr _) \<Rightarrow> drain_loop (Suc count) (s\<lparr>bg_schedule := xs, bg_bus := b\<rparr>))"
  by pat_completeness auto
termination by (relation "measure (\<lambda>(count, s). length (bg_schedule s))") auto

declare drain_loop.simps [simp del]

definition drain_due :: "backtest_gateway \<Rightarrow> backtest_gateway \<times> (py_error + nat)" where
  "drain_due s = drain_loop 0 s"

definition next_due_ns :: "backtest_gateway \<Rightarrow> timestamp option" where
  "next_due_ns s = (case bg_schedule s of [] \<Rightarrow> None | x # _ \<Rightarrow> Some (sd_due x))"

subsection \<open>Scheduling the responses\<close>

definition response :: "timestamp \<Rightarrow> uuid \<Rightarrow> coid \<Rightarrow> string \<Rightarrow> backtest_gateway \<Rightarrow> order_response" where
  "response t i c reason s =
     \<lparr>ts_event = t, ts_ingest = t, source = sc_venue (bg_cfg s), re_order_id = i, re_coid = c,
      re_reason = reason\<rparr>"

definition schedule_reject :: "order_request \<Rightarrow> string \<Rightarrow> rat \<Rightarrow> backtest_gateway \<Rightarrow> backtest_gateway" where
  "schedule_reject req reason delay s =
     schedule_event delay ORDERS
       (EvRejected (response (due_ns delay s) (rq_order_id req) (rq_coid req) reason s)) s"

definition schedule_ack :: "order_request \<Rightarrow> string \<Rightarrow> rat \<Rightarrow> backtest_gateway \<Rightarrow> backtest_gateway" where
  "schedule_ack req xid delay s =
     schedule_event delay ORDERS
       (EvAck \<lparr>ts_event = due_ns delay s, ts_ingest = due_ns delay s, source = sc_venue (bg_cfg s),
          re_order_id = rq_order_id req, re_coid = rq_coid req, re_reason = [], ak_exchange_id = xid\<rparr>) s"

definition bg_uuid :: "backtest_gateway \<Rightarrow> uuid \<times> backtest_gateway" where
  "bg_uuid s = (bg_uuid_src s (bg_uuid_n s), s\<lparr>bg_uuid_n := Suc (bg_uuid_n s)\<rparr>)"

text \<open>\<open>_schedule_fill\<close>, for the order described by a resting record (a request is one with all its leaves).\<close>

definition schedule_fill ::
    "rat \<Rightarrow> resting_order \<Rightarrow> dec \<Rightarrow> dec \<Rightarrow> dec \<Rightarrow> dec \<Rightarrow> bool \<Rightarrow> backtest_gateway \<Rightarrow> backtest_gateway" where
  "schedule_fill delay o1 price qty cumulative leaves is_maker s =
     (let cfg = bg_cfg s; fee = fee_for cfg (dmul price qty) is_maker;
          currency = (if sc_fee_currency cfg \<noteq> [] then sc_fee_currency cfg else i_quote (ro_instrument o1))
      in case bg_uuid s of
           (fid, s1) \<Rightarrow>
             schedule_event delay FILLS
               (EvFill \<lparr>ts_event = due_ns delay s1, ts_ingest = due_ns delay s1, source = sc_venue cfg,
                  fl_fill_id = fid, fl_order_id = ro_order_id o1, fl_coid = ro_coid o1,
                  fl_exchange_id = Some (ro_exchange_id o1), fl_strategy = ro_strategy o1,
                  fl_instrument = ro_instrument o1, fl_side = ro_side o1, fl_price = price,
                  fl_quantity = qty, fl_cumulative = cumulative, fl_leaves = leaves, fl_fee = fee,
                  fl_fee_currency = currency, fl_is_maker = Some is_maker\<rparr>) s1)"

definition draw_split :: "dec \<Rightarrow> backtest_gateway \<Rightarrow> dec \<times> dec \<times> backtest_gateway" where
  "draw_split qty s =
     (case split_fill (bg_cfg s) (\<lambda>k. bg_rng s (bg_rng_n s + k)) qty of
        (a, b, n) \<Rightarrow> (a, b, s\<lparr>bg_rng_n := bg_rng_n s + n\<rparr>))"

definition emit_fills :: "order_request \<Rightarrow> string \<Rightarrow> dec \<Rightarrow> rat \<Rightarrow> backtest_gateway \<Rightarrow> backtest_gateway" where
  "emit_fills req xid price delay s =
     (case draw_split (rq_quantity req) s of
        (first, second, s1) \<Rightarrow>
          (let o1 = resting_of req xid;
               s2 = (if 0 < first
                     then schedule_fill delay o1 price first first (dsub (rq_quantity req) first) False s1
                     else s1)
           in if 0 < second
              then schedule_fill (float_of (delay + sc_fill_ms (bg_cfg s))) o1 price second
                     (rq_quantity req) 0 False s2
              else s2))"

definition fill_market ::
    "order_request \<Rightarrow> string \<Rightarrow> rat \<Rightarrow> backtest_gateway \<Rightarrow> backtest_gateway \<times> (py_error + unit)" where
  "fill_market req xid ack_delay s =
     (case market_price (bg_cfg s) req (dget (bg_tops s) (instrument_id (rq_instrument req))) of
        None \<Rightarrow> (schedule_reject req ''no market data available for fill price'' ack_delay s, Inr ())
      | Some p \<Rightarrow>
          (case round_price (rq_instrument req) p of
             None \<Rightarrow> (s, Inl DivisionByZero)
           | Some fill_price \<Rightarrow>
               (emit_fills req xid fill_price (float_of (ack_delay + sc_fill_ms (bg_cfg s))) s, Inr ())))"

subsection \<open>The handlers\<close>

definition crosses_now :: "order_request \<Rightarrow> backtest_gateway \<Rightarrow> bool" where
  "crosses_now req s =
     (case dget (bg_tops s) (instrument_id (rq_instrument req)) of
        None \<Rightarrow> False | Some tb \<Rightarrow> would_cross req tb)"

definition bt_handle_order_request ::
    "order_request \<Rightarrow> backtest_gateway \<Rightarrow> backtest_gateway \<times> (py_error + unit)" where
  "bt_handle_order_request req s =
     (if i_exchange (rq_instrument req) \<noteq> sc_venue (bg_cfg s) then (s, Inr ())
      else
        let cfg = bg_cfg s; ack_delay = sc_submit_ack_ms cfg;
            drawn = (0 < sc_reject_probability cfg);
            s1 = (if drawn then s\<lparr>bg_rng_n := Suc (bg_rng_n s)\<rparr> else s)
        in if drawn \<and> bg_rng s (bg_rng_n s) < sc_reject_probability cfg
           then (schedule_reject req (sc_reject_reason cfg) ack_delay s1, Inr ())
           else if rq_type req = OT_POST_ONLY \<and> crosses_now req s1
           then (schedule_reject req ''POST_ONLY would cross at submission'' ack_delay s1, Inr ())
           else
             case bg_uuid s1 of
               (u, s2) \<Rightarrow>
                 (let xid = ''bt-'' @ uuid_hex12 u; s3 = schedule_ack req xid ack_delay s2
                  in if rq_type req \<in> {OT_MARKET, OT_IOC, OT_FOK} \<or> crosses_now req s3
                     then fill_market req xid ack_delay s3
                     else (s3\<lparr>bg_resting := dset (rq_order_id req) (resting_of req xid) (bg_resting s3)\<rparr>,
                           Inr ())))"

definition bt_handle_cancel_request :: "cancel_request \<Rightarrow> backtest_gateway \<Rightarrow> backtest_gateway" where
  "bt_handle_cancel_request req s =
     (let delay = sc_cancel_ack_ms (bg_cfg s); s1 = s\<lparr>bg_resting := dpop (cr_order_id req) (bg_resting s)\<rparr>
      in case dget (bg_resting s) (cr_order_id req) of
           None \<Rightarrow> schedule_event delay ORDERS (EvRejected (response (due_ns delay s) (cr_order_id req)
                     (cr_coid req) ''order not found or already done'' s)) s1
         | Some _ \<Rightarrow> schedule_event delay ORDERS (EvCancelled (response (due_ns delay s) (cr_order_id req)
                     (cr_coid req) ''user requested'' s)) s1)"

definition bt_handle_amend_request :: "amend_request \<Rightarrow> backtest_gateway \<Rightarrow> backtest_gateway" where
  "bt_handle_amend_request req s =
     s\<lparr>bg_resting := dmod (ar_order_id req) (\<lambda>o1.
         (let o2 = (case ar_new_quantity req of
                      None \<Rightarrow> o1 | Some q \<Rightarrow> o1\<lparr>ro_quantity := q, ro_leaves := q\<rparr>)
          in case ar_new_price req of None \<Rightarrow> o2 | Some p \<Rightarrow> o2\<lparr>ro_price := p\<rparr>)) (bg_resting s)\<rparr>"

definition bt_on_order_event :: "event \<Rightarrow> backtest_gateway \<Rightarrow> backtest_gateway \<times> (py_error + unit)" where
  "bt_on_order_event e s =
     (case e of
        EvOrderRequest req \<Rightarrow> bt_handle_order_request req s
      | EvCancelRequest req \<Rightarrow> (bt_handle_cancel_request req s, Inr ())
      | EvAmendRequest req \<Rightarrow> (bt_handle_amend_request req s, Inr ())
      | _ \<Rightarrow> (s, Inr ()))"

definition emit_fills_for_resting :: "uuid \<Rightarrow> dec \<Rightarrow> rat \<Rightarrow> backtest_gateway \<Rightarrow> backtest_gateway" where
  "emit_fills_for_resting i price delay s =
     (case dget (bg_resting s) i of
        None \<Rightarrow> s
      | Some o1 \<Rightarrow>
          (case draw_split (ro_leaves o1) s of
             (first, second, s1) \<Rightarrow>
               (let prior_filled = dsub (ro_quantity o1) (ro_leaves o1);
                    leave = (\<lambda>l st. st\<lparr>bg_resting := dmod i (\<lambda>o1. o1\<lparr>ro_leaves := l\<rparr>) (bg_resting st)\<rparr>);
                    l1 = (if 0 < first then dsub (ro_leaves o1) first else ro_leaves o1);
                    s2 = (if 0 < first
                          then schedule_fill delay o1 price first (dadd prior_filled first) l1 True (leave l1 s1)
                          else s1);
                    l2 = dsub l1 second
                in if 0 < second
                   then schedule_fill (float_of (delay + sc_fill_ms (bg_cfg s))) o1 price second
                          (dadd (dadd prior_filled first) second) l2 True (leave l2 s2)
                   else s2)))"

definition match_one :: "trade_event \<Rightarrow> uuid \<Rightarrow> backtest_gateway \<Rightarrow> backtest_gateway" where
  "match_one t i s =
     (case dget (bg_resting s) i of
        None \<Rightarrow> s
      | Some o1 \<Rightarrow>
          if instrument_id (ro_instrument o1) \<noteq> instrument_id (tr_instrument t) \<or> \<not> trade_crosses t o1 then s
          else
            let s1 = emit_fills_for_resting i (ro_price o1) (sc_fill_ms (bg_cfg s)) s
            in case dget (bg_resting s1) i of
                 None \<Rightarrow> s1
               | Some o2 \<Rightarrow> if ro_leaves o2 = 0 then s1\<lparr>bg_resting := dpop i (bg_resting s1)\<rparr> else s1)"

definition match_resting_against_trade :: "trade_event \<Rightarrow> backtest_gateway \<Rightarrow> backtest_gateway" where
  "match_resting_against_trade t s = fold (match_one t) (dkeys (bg_resting s)) s"

definition bt_on_market_data :: "event \<Rightarrow> backtest_gateway \<Rightarrow> backtest_gateway" where
  "bt_on_market_data e s =
     (case e of
        EvTick t \<Rightarrow> s\<lparr>bg_tops := dset (instrument_id (tk_instrument t))
                              (Top (Some (tk_bid_price t)) (Some (tk_ask_price t))) (bg_tops s)\<rparr>
      | EvTrade t \<Rightarrow> match_resting_against_trade t s
      | _ \<Rightarrow> s)"

text \<open>What the bus brings to the venue, from the topics of orders and of market data.\<close>

datatype venue_input = OrderIn event | MarketIn event

fun bt_input :: "venue_input \<Rightarrow> backtest_gateway \<Rightarrow> backtest_gateway \<times> (py_error + unit)" where
  "bt_input (OrderIn e) s = bt_on_order_event e s"
| "bt_input (MarketIn e) s = (bt_on_market_data e s, Inr ())"

end
