(* ===== verification/Backtest_Properties.thy ===== *)
theory Backtest_Properties
  imports Backtest_Gateway Orders
begin

text \<open>
  The schedule of the backtest venue. \<open>due_first\<close> is the order in which entries are to be published:
  by due time, and by order of scheduling among equals. The locale states what the gateway needs of
  its heap, the standard library's \<open>heapq\<close>; the list of the model is an interpretation of it.
\<close>

definition due_first :: "scheduled \<Rightarrow> scheduled \<Rightarrow> bool" where
  "due_first x y \<longleftrightarrow> sd_due x < sd_due y \<or> (sd_due x = sd_due y \<and> sd_seq x < sd_seq y)"

locale event_heap =
  fixes push :: "'e \<Rightarrow> 'q \<Rightarrow> 'q"
    and entries :: "'q \<Rightarrow> 'e list"
    and before :: "'e \<Rightarrow> 'e \<Rightarrow> bool"
  assumes push_set: "set (entries (push x q)) = insert x (set (entries q))"
    and push_length: "length (entries (push x q)) = Suc (length (entries q))"
    and push_sorted: "sorted_wrt before (entries q) \<Longrightarrow> (\<forall>y \<in> set (entries q). before x y \<or> before y x) \<Longrightarrow>
      sorted_wrt before (entries (push x q))"
begin

lemma push_head_first:
  assumes "sorted_wrt before (entries q)" "\<forall>y \<in> set (entries q). before x y \<or> before y x"
    and "entries (push x q) = z # zs" "y \<in> set zs"
  shows "before z y"
  using push_sorted [OF assms(1,2)] assms(3,4) by simp

lemma push_fold:
  assumes "sorted_wrt before (entries q)"
    and "sorted_wrt (\<lambda>x y. before x y \<or> before y x) xs"
    and "\<forall>x \<in> set xs. \<forall>y \<in> set (entries q). before x y \<or> before y x"
  shows "sorted_wrt before (entries (fold push xs q)) \<and>
    set (entries (fold push xs q)) = set xs \<union> set (entries q)"
  using assms
proof (induction xs arbitrary: q)
  case (Cons x xs)
  have "sorted_wrt before (entries (push x q))" using Cons.prems by (intro push_sorted) auto
  moreover have "\<forall>z \<in> set xs. \<forall>y \<in> set (entries (push x q)). before z y \<or> before y z"
    using Cons.prems by (auto simp: push_set)
  ultimately show ?case using Cons.IH [of "push x q"] Cons.prems(2) by (auto simp: push_set)
qed simp

end

lemma due_first_trans: "due_first x y \<Longrightarrow> due_first y z \<Longrightarrow> due_first x z"
  by (auto simp: due_first_def)

lemma heap_push_set [simp]: "set (heap_push x ys) = insert x (set ys)"
  by (induction ys) auto

lemma heap_push_length [simp]: "length (heap_push x ys) = Suc (length ys)"
  by (induction ys) auto

lemma heap_push_sorted:
  "sorted_wrt due_first ys \<Longrightarrow> \<forall>y \<in> set ys. due_first x y \<or> due_first y x \<Longrightarrow>
   sorted_wrt due_first (heap_push x ys)"
proof (induction ys)
  case (Cons y ys)
  show ?case
  proof (cases "due_first x y")
    case True
    then have "heap_push x (y # ys) = x # y # ys" by (simp add: due_first_def)
    moreover from True have "\<forall>z \<in> set ys. due_first x z" using Cons.prems(1) by (auto intro: due_first_trans)
    ultimately show ?thesis using True Cons.prems(1) by simp
  next
    case False
    then have "heap_push x (y # ys) = y # heap_push x ys" by (auto simp: due_first_def)
    moreover from False Cons.prems(2) have "due_first y x" by simp
    ultimately show ?thesis using Cons by simp
  qed
qed simp

interpretation heap: event_heap heap_push "\<lambda>q. q" due_first
  by unfold_locales (simp_all add: heap_push_sorted)

subsection \<open>The schedule over the histories\<close>

definition schedule_ok :: "backtest_gateway \<Rightarrow> bool" where
  "schedule_ok s \<longleftrightarrow>
     sorted_wrt due_first (bg_schedule s) \<and> (\<forall>x \<in> set (bg_schedule s). sd_seq x < bg_seq s)"

text \<open>
  A property that the schedule keeps while the handlers run: it depends on the schedule, the clock
  and the configuration only, and scheduling with one of the delays the handlers use, the configured
  latencies and their sums, keeps it.
\<close>

locale schedule_invariant =
  fixes P :: "backtest_gateway \<Rightarrow> bool"
    and D :: "sim_config \<Rightarrow> rat \<Rightarrow> bool"
  assumes keep_event: "P s \<Longrightarrow> D (bg_cfg s) d \<Longrightarrow> P (schedule_event d t e s)"
    and keep_cong: "P s \<Longrightarrow> bg_schedule s' = bg_schedule s \<Longrightarrow> bg_seq s' = bg_seq s \<Longrightarrow> bg_now s' = bg_now s \<Longrightarrow>
      bg_cfg s' = bg_cfg s \<Longrightarrow> P s'"
    and delay_submit: "P s \<Longrightarrow> D (bg_cfg s) (sc_submit_ack_ms (bg_cfg s))"
    and delay_cancel: "P s \<Longrightarrow> D (bg_cfg s) (sc_cancel_ack_ms (bg_cfg s))"
    and delay_fill: "P s \<Longrightarrow> D (bg_cfg s) (sc_fill_ms (bg_cfg s))"
    and delay_sum: "P s \<Longrightarrow> D (bg_cfg s) d \<Longrightarrow> D (bg_cfg s) (float_of (d + sc_fill_ms (bg_cfg s)))"
begin

lemma keep_uuid: "P s \<Longrightarrow> P (snd (bg_uuid s))"
  by (erule keep_cong) (simp_all add: bg_uuid_def)

lemma keep_fill:
  assumes "P s" and "D (bg_cfg s) d"
  shows "P (schedule_fill d o1 p q c l m s)"
  using keep_event [OF keep_uuid [OF assms(1)], of d] assms(2)
  by (simp add: schedule_fill_def Let_def case_prod_beta bg_uuid_def)

lemma fill_cfg [simp]: "bg_cfg (schedule_fill d o1 p q c l m s) = bg_cfg s"
  by (simp add: schedule_fill_def Let_def bg_uuid_def schedule_event_def)

lemma keep_draw: "P s \<Longrightarrow> draw_split q s = (a, b, s1) \<Longrightarrow> P s1 \<and> bg_cfg s1 = bg_cfg s"
  by (auto simp: draw_split_def elim!: keep_cong split: prod.splits)

lemma keep_emit:
  assumes "P s" and "D (bg_cfg s) d"
  shows "P (emit_fills req x p d s)"
proof -
  obtain a b s1 where d: "draw_split (rq_quantity req) s = (a, b, s1)" by (metis prod_cases3)
  from keep_draw [OF assms(1) d] have s1: "P s1" "bg_cfg s1 = bg_cfg s" by auto
  with assms(2) delay_sum [of s1 d] have "D (bg_cfg s1) d" "D (bg_cfg s1) (float_of (d + sc_fill_ms (bg_cfg s1)))"
    by simp_all
  with s1 show ?thesis by (auto simp: emit_fills_def d Let_def intro!: keep_fill)
qed

lemma keep_market:
  assumes "P s" and "D (bg_cfg s) d"
  shows "P (fst (fill_market req x d s))"
  using assms delay_sum [OF assms]
  by (auto simp: fill_market_def schedule_reject_def intro: keep_event keep_emit split: option.splits)

lemma keep_request: "P s \<Longrightarrow> P (fst (bt_handle_order_request req s))"
proof -
  assume s: "P s"
  let ?s1 = "s\<lparr>bg_rng_n := Suc (bg_rng_n s)\<rparr>"
  have rest: "P (t\<lparr>bg_resting := x\<rparr>)" if "P t" for t x using that by (rule keep_cong) simp_all
  have ack: "P (schedule_ack req x (sc_submit_ack_ms (bg_cfg t)) (snd (bg_uuid t))) \<and>
      bg_cfg (schedule_ack req x (sc_submit_ack_ms (bg_cfg t)) (snd (bg_uuid t))) = bg_cfg t" if "P t" for t x
    using keep_event [OF keep_uuid [OF that], of "sc_submit_ack_ms (bg_cfg t)"] delay_submit [OF that]
    by (simp add: schedule_ack_def bg_uuid_def schedule_event_def)
  have rej: "P (schedule_reject req r (sc_submit_ack_ms (bg_cfg t)) t)" if "P t" for t r
    using keep_event [OF that delay_submit [OF that]] by (simp add: schedule_reject_def)
  have c: "bg_cfg ?s1 = bg_cfg s" by simp
  have s1: "P ?s1" using s by (rule keep_cong) simp_all
  have market: "P (fst (fill_market req x (sc_submit_ack_ms (bg_cfg t)) (schedule_ack req x (sc_submit_ack_ms (bg_cfg t)) (snd (bg_uuid t)))))"
    and stay: "P ((schedule_ack req x (sc_submit_ack_ms (bg_cfg t)) (snd (bg_uuid t)))\<lparr>bg_resting := y\<rparr>)"
    if "P t" for t x y
    using ack [OF that, of x] delay_submit [OF that] by (auto intro!: keep_market rest)
  note facts = market [OF s] stay [OF s] rej [OF s] market [OF s1, unfolded c] stay [OF s1, unfolded c]
    rej [OF s1, unfolded c]
  show ?thesis
    using s facts by (auto simp: bt_handle_order_request_def Let_def case_prod_beta)
qed

lemma keep_resting:
  assumes "P s" and "D (bg_cfg s) d"
  shows "P (emit_fills_for_resting i p d s)"
proof (cases "dget (bg_resting s) i")
  case (Some o1)
  obtain a b s1 where d: "draw_split (ro_leaves o1) s = (a, b, s1)" by (metis prod_cases3)
  from keep_draw [OF assms(1) d] have s1: "P s1" "bg_cfg s1 = bg_cfg s" by auto
  with assms(2) delay_sum [of s1 d] have dd: "D (bg_cfg s) d" "D (bg_cfg s) (float_of (d + sc_fill_ms (bg_cfg s)))"
    by simp_all
  have rest: "P (t\<lparr>bg_resting := x\<rparr>)" if "P t" for t x using that by (rule keep_cong) simp_all
  show ?thesis using s1 dd
    by (auto simp: emit_fills_for_resting_def Some d Let_def intro!: keep_fill rest)
qed (simp add: emit_fills_for_resting_def assms)

lemma keep_match: "P s \<Longrightarrow> P (match_one t i s)"
proof -
  assume s: "P s"
  have rest: "P (t\<lparr>bg_resting := x\<rparr>)" if "P t" for t x using that by (rule keep_cong) simp_all
  from keep_resting [OF s delay_fill [OF s]] rest s show ?thesis
    by (auto simp: match_one_def Let_def split: option.splits)
qed

lemma keep_match_all: "P s \<Longrightarrow> P (match_resting_against_trade t s)"
proof -
  have "P s \<Longrightarrow> P (fold (match_one t) is s)" for "is"
    by (induction "is" arbitrary: s) (auto intro: keep_match)
  then show "P s \<Longrightarrow> P (match_resting_against_trade t s)"
    by (simp add: match_resting_against_trade_def)
qed

lemma keep_input: "P s \<Longrightarrow> P (fst (bt_input x s))"
proof (cases x)
  case (OrderIn e)
  assume s: "P s"
  have rest: "P (t\<lparr>bg_resting := x\<rparr>)" if "P t" for t x using that by (rule keep_cong) simp_all
  have cancel: "P (bt_handle_cancel_request req s)" for req
    using keep_event [OF rest [OF s, of "dpop (cr_order_id req) (bg_resting s)"], of "sc_cancel_ack_ms (bg_cfg s)"]
      delay_cancel [OF s]
    by (auto simp: bt_handle_cancel_request_def Let_def split: option.split)
  from OrderIn s cancel rest show ?thesis
    by (cases e) (auto simp: bt_on_order_event_def bt_handle_amend_request_def intro: keep_request)
next
  case (MarketIn e)
  assume s: "P s"
  have "P (s\<lparr>bg_tops := x\<rparr>)" for x using s by (rule keep_cong) simp_all
  with MarketIn s show ?thesis by (cases e) (auto simp: bt_on_market_data_def keep_match_all)
qed

lemma keep_inputs: "P s \<Longrightarrow> P (fold (\<lambda>x g. fst (bt_input x g)) xs s)"
  by (induction xs arbitrary: s) (simp_all add: keep_input)

end

interpretation scheduled: schedule_invariant schedule_ok "\<lambda>cfg d. True"
  by unfold_locales
    (auto simp: schedule_ok_def schedule_event_def due_first_def less_Suc_eq intro!: heap_push_sorted)

text \<open>What the loop publishes: the entries that are due, in the order of the schedule.\<close>

lemma drain_loop_sends:
  "drain_loop n s = (s', r) \<Longrightarrow>
   \<exists>out. bg_schedule s = out @ bg_schedule s' \<and> (\<forall>x \<in> set out. sd_due x \<le> bg_now s) \<and>
     bg_bus s' = fold (\<lambda>x b. fst (publish (sd_topic x) (sd_event x) b)) out (bg_bus s) \<and>
     bg_seq s' = bg_seq s \<and> bg_now s' = bg_now s \<and>
     (\<forall>m. r = Inr m \<longrightarrow> m = n + length out \<and>
        (bg_schedule s' = [] \<or> bg_now s < sd_due (hd (bg_schedule s'))))"
proof (induction n s arbitrary: s' r rule: drain_loop.induct)
  case (1 n s)
  show ?case
  proof (cases "bg_schedule s")
    case Nil
    with 1(2) show ?thesis by (auto simp: drain_loop.simps [of n s])
  next
    case (Cons x xs)
    show ?thesis
    proof (cases "bg_now s < sd_due x")
      case True
      with 1(2) Cons show ?thesis by (auto simp: drain_loop.simps [of n s])
    next
      case False
      obtain b e where p: "publish (sd_topic x) (sd_event x) (bg_bus s) = (b, e)" by force
      show ?thesis
      proof (cases e)
        case (Inl err)
        with 1(2) Cons False p show ?thesis
          by (auto simp: drain_loop.simps [of n s] intro!: exI [of _ "[x]"])
      next
        case (Inr u)
        let ?s = "s\<lparr>bg_schedule := xs, bg_bus := b\<rparr>"
        have "drain_loop (Suc n) ?s = (s', r)"
          using 1(2) Cons False p Inr by (simp add: drain_loop.simps [of n s])
        from 1(1) [OF Cons False p [symmetric] Inr this] obtain out where
          "xs = out @ bg_schedule s'" "\<forall>x \<in> set out. sd_due x \<le> bg_now s"
          "bg_bus s' = fold (\<lambda>x b. fst (publish (sd_topic x) (sd_event x) b)) out b"
          "bg_seq s' = bg_seq s" "bg_now s' = bg_now s"
          "\<forall>m. r = Inr m \<longrightarrow> m = Suc n + length out \<and>
             (bg_schedule s' = [] \<or> bg_now s < sd_due (hd (bg_schedule s')))" by auto
        then show ?thesis using Cons False p by (intro exI [of _ "x # out"]) auto
      qed
    qed
  qed
qed

datatype bt_op = BtOrder event | BtMarket event | BtDrain | BtTime timestamp | BtBus async_bus

fun bt_do :: "bt_op \<Rightarrow> backtest_gateway \<Rightarrow> backtest_gateway" where
  "bt_do (BtOrder e) s = fst (bt_on_order_event e s)"
| "bt_do (BtMarket e) s = bt_on_market_data e s"
| "bt_do BtDrain s = fst (drain_due s)"
| "bt_do (BtTime t) s = s\<lparr>bg_now := t\<rparr>"
| "bt_do (BtBus b) s = s\<lparr>bg_bus := b\<rparr>"

lemma schedule_ok_drain: "schedule_ok s \<Longrightarrow> schedule_ok (fst (drain_due s))"
proof -
  assume s: "schedule_ok s"
  obtain s' r where d: "drain_loop 0 s = (s', r)" by force
  from drain_loop_sends [OF d] s show ?thesis
    by (auto simp: drain_due_def d schedule_ok_def sorted_wrt_append)
qed

lemma schedule_ok_do: "schedule_ok s \<Longrightarrow> schedule_ok (bt_do op s)"
proof (cases op)
  case (BtOrder e)
  assume "schedule_ok s"
  from scheduled.keep_input [OF this, of "OrderIn e"] show ?thesis by (simp add: BtOrder)
next
  case (BtMarket e)
  assume "schedule_ok s"
  from scheduled.keep_input [OF this, of "MarketIn e"] show ?thesis by (simp add: BtMarket)
qed (simp_all add: schedule_ok_drain, simp_all add: schedule_ok_def)

lemma schedule_ok_run: "schedule_ok s \<Longrightarrow> schedule_ok (fold bt_do ops s)"
  by (induction ops arbitrary: s) (simp_all add: schedule_ok_do)

text \<open>
  C21: The backtest venue answers in order and on time. After every history of the gateway, draining
  publishes exactly the front of the schedule, in the order of the due times and, among equal ones,
  of scheduling; nothing is published before it is due, and when no publication is refused
  everything that is due has been published once and the rest stays scheduled.
\<close>

theorem drain_in_due_order:
  assumes "s = fold bt_do ops (backtest_init b now cfg rng src)" and "drain_due s = (s', r)"
  shows "\<exists>out. bg_schedule s = out @ bg_schedule s' \<and> sorted_wrt due_first (bg_schedule s) \<and>
    (\<forall>x \<in> set out. sd_due x \<le> bg_now s) \<and>
    bg_bus s' = fold (\<lambda>x b. fst (publish (sd_topic x) (sd_event x) b)) out (bg_bus s) \<and>
    (\<forall>m. r = Inr m \<longrightarrow> m = length out \<and> (\<forall>x \<in> set (bg_schedule s'). bg_now s < sd_due x))"
proof -
  have ok: "schedule_ok s" unfolding assms(1)
    by (rule schedule_ok_run) (simp add: schedule_ok_def backtest_init_def)
  from drain_loop_sends [OF assms(2) [unfolded drain_due_def]] obtain out where
    out: "bg_schedule s = out @ bg_schedule s'" "\<forall>x \<in> set out. sd_due x \<le> bg_now s"
      "bg_bus s' = fold (\<lambda>x b. fst (publish (sd_topic x) (sd_event x) b)) out (bg_bus s)"
      "\<forall>m. r = Inr m \<longrightarrow> m = length out \<and> (bg_schedule s' = [] \<or> bg_now s < sd_due (hd (bg_schedule s')))"
    by auto
  have "sorted_wrt due_first (bg_schedule s')"
    using ok unfolding schedule_ok_def out(1) by (simp add: sorted_wrt_append)
  then have "bg_schedule s' = [] \<or> (\<forall>x \<in> set (bg_schedule s'). sd_due (hd (bg_schedule s')) \<le> sd_due x)"
    by (cases "bg_schedule s'") (auto simp: due_first_def)
  with out ok show ?thesis unfolding schedule_ok_def by (intro exI [of _ out]) fastforce
qed

definition sample_request :: "order_type \<Rightarrow> dec option \<Rightarrow> order_request" where
  "sample_request ty p =
     \<lparr>ts_event = 1, ts_ingest = 1, source = ''oms'', rq_order_id = 7, rq_coid = ''mm-000000000007'',
      rq_strategy = ''mm'', rq_instrument = sample_instrument, rq_side = BUY, rq_type = ty,
      rq_quantity = 5, rq_price = p, rq_stop_price = None, rq_tif = TIF_GTC, rq_upstream = None\<rparr>"

definition sample_gateway :: backtest_gateway where
  "sample_gateway =
     backtest_init (sample_bus 10 1) 0
       ((default_sim_config ''BINANCE'')\<lparr>sc_submit_ack_ms := 0, sc_cancel_ack_ms := 0, sc_fill_ms := 0\<rparr>)
       (\<lambda>n. 0) (\<lambda>n. n)"

theorem drain_in_due_order_witness:
  "snd (drain_due (fold bt_do [BtOrder (EvOrderRequest (sample_request OT_LIMIT (Some 100)))] sample_gateway)) = Inr 1"
proof -
  let ?s = "fold bt_do [BtOrder (EvOrderRequest (sample_request OT_LIMIT (Some 100)))] sample_gateway"
  obtain s' r where d: "drain_due ?s = (s', r)" by force
  have eq: "?s = fold bt_do [BtOrder (EvOrderRequest (sample_request OT_LIMIT (Some 100)))]
      (backtest_init (sample_bus 10 1) 0
         ((default_sim_config ''BINANCE'')\<lparr>sc_submit_ack_ms := 0, sc_cancel_ack_ms := 0, sc_fill_ms := 0\<rparr>)
         (\<lambda>n. 0) (\<lambda>n. n))" by (simp only: sample_gateway_def)
  have "(\<exists>x. bg_schedule ?s = [x] \<and> sd_due x = 0) \<and> bg_now ?s = 0"
    by (simp add: sample_gateway_def backtest_init_def bt_on_order_event_def bt_handle_order_request_def
        sample_request_def sample_instrument_def default_sim_config_def Let_def crosses_now_def bg_uuid_def
        schedule_ack_def schedule_event_def trunc_def)
  moreover have "\<exists>m. r = Inr m"
    using d by (auto simp: sample_gateway_def backtest_init_def bt_on_order_event_def bt_handle_order_request_def
        sample_request_def sample_instrument_def default_sim_config_def Let_def crosses_now_def bg_uuid_def
        schedule_ack_def schedule_event_def trunc_def drain_due_def drain_loop.simps publish_def sample_bus_def)
  ultimately show ?thesis
    using drain_in_due_order [OF eq d] d
    by (cases "bg_schedule s'") (auto simp: Cons_eq_append_conv)
qed

subsection \<open>Amending a partially filled order\<close>

text \<open>
  An amend on the backtest venue gives a partially filled order its whole new quantity again and
  is never answered: nothing is scheduled for it, and the next trade through its price fills the full
  new quantity on top of what had been filled before.
\<close>

theorem amend_refills_silently:
  assumes "dget (bg_resting s) (ar_order_id req) = Some o1"
    and "ar_new_quantity req = Some q" and "0 < q" and "ar_new_price req = None"
    and "instrument_id (ro_instrument o1) = instrument_id (tr_instrument t)" and "trade_crosses t o1"
    and "sc_partial_probability (bg_cfg s) \<le> 0"
  defines "s1 \<equiv> bt_handle_amend_request req s"
  shows "bg_schedule s1 = bg_schedule s \<and>
    (\<exists>x f. set (bg_schedule (match_one t (ar_order_id req) s1)) = insert x (set (bg_schedule s1)) \<and>
       sd_event x = EvFill f \<and> fl_order_id f = ro_order_id o1 \<and> fl_quantity f = q)"
proof -
  have g: "dget (bg_resting s1) (ar_order_id req) = Some (o1\<lparr>ro_quantity := q, ro_leaves := q\<rparr>)"
    using assms(1,2,4) by (simp add: s1_def bt_handle_amend_request_def)
  have c: "bg_cfg s1 = bg_cfg s" "bg_schedule s1 = bg_schedule s"
    by (simp_all add: s1_def bt_handle_amend_request_def)
  have t: "trade_crosses t (o1\<lparr>ro_quantity := q, ro_leaves := q\<rparr>)"
    using assms(6) by (simp add: trade_crosses_def)
  show ?thesis using assms(3,5,7) t
    by (simp add: c match_one_def g emit_fills_for_resting_def draw_split_def schedule_fill_def Let_def
        bg_uuid_def schedule_event_def case_prod_beta) (auto split: option.split)
qed

definition sample_resting :: backtest_gateway where
  "sample_resting = sample_gateway
     \<lparr>bg_resting := [(7, (resting_of (sample_request OT_LIMIT (Some 100)) ''bt-1'')\<lparr>ro_leaves := 2\<rparr>)]\<rparr>"

definition sample_amend :: amend_request where
  "sample_amend =
     \<lparr>ts_event = 1, ts_ingest = 1, source = ''oms'', ar_order_id = 7, ar_coid = ''mm-000000000007'',
      ar_instrument = sample_instrument, ar_side = BUY, ar_new_quantity = Some 5, ar_new_price = None\<rparr>"

definition sample_trade :: trade_event where
  "sample_trade =
     \<lparr>ts_event = 2, ts_ingest = 2, source = ''BINANCE'', tr_instrument = sample_instrument, tr_price = 99,
      tr_quantity = 1, tr_aggressor = None, tr_venue_trade_id = None\<rparr>"

theorem amend_refills_silently_witness:
  "\<exists>x f. set (bg_schedule (match_one sample_trade 7 (bt_handle_amend_request sample_amend sample_resting))) = {x} \<and>
     sd_event x = EvFill f \<and> fl_quantity f = 5"
proof -
  let ?o = "(resting_of (sample_request OT_LIMIT (Some 100)) ''bt-1'')\<lparr>ro_leaves := 2\<rparr>"
  have 1: "dget (bg_resting sample_resting) (ar_order_id sample_amend) = Some ?o"
    by (simp add: sample_resting_def sample_amend_def)
  have 2: "ar_new_quantity sample_amend = Some 5" "(0 :: dec) < 5" "ar_new_price sample_amend = None"
    by (simp_all add: sample_amend_def)
  have 3: "instrument_id (ro_instrument ?o) = instrument_id (tr_instrument sample_trade)"
    "trade_crosses sample_trade ?o"
    by (simp_all add: sample_trade_def sample_request_def resting_of_def trade_crosses_def)
  have 4: "sc_partial_probability (bg_cfg sample_resting) \<le> 0" "bg_schedule sample_resting = []"
    by (simp_all add: sample_resting_def sample_gateway_def backtest_init_def default_sim_config_def)
  show ?thesis
    using amend_refills_silently [OF 1 2 3 4(1)] 4(2) by (auto simp: sample_amend_def)
qed

end
