(* ===== verification/Json.thy ===== *)
theory Json
  imports Core_Types
begin

text \<open>
  What the venue's messages are made of: parsed JSON values, Python's \<open>str\<close>, \<open>int\<close> and \<open>Decimal\<close> on
  them, and the fixed-point printing of a decimal that \<open>order_gateways/binance/order_gateway.py\<close>
  sends. Binance writes prices and quantities as strings and identifiers and times as integers, so
  JSON numbers are integers here. A text is a number when it has an optional sign, digits with an
  optional point and an optional exponent; the other spellings Python knows (blanks around it,
  underscores, infinities) are not sent and count as errors.
\<close>

datatype json = JNull | JBool bool | JInt int | JStr string | JArr "json list" | JObj "(string \<times> json) list"

type_synonym jobj = "(string, json) dict"

subsection \<open>Printing integers\<close>

definition digit :: "nat \<Rightarrow> char" where
  "digit n = char_of (48 + n)"

function show_nat :: "nat \<Rightarrow> string" where
  "show_nat n = (if n < 10 then [digit n] else show_nat (n div 10) @ [digit (n mod 10)])"
  by pat_completeness auto
termination by (relation "measure id") auto

declare show_nat.simps [simp del]

definition show_int :: "int \<Rightarrow> string" where
  "show_int n = (if n < 0 then ''-'' @ show_nat (nat (- n)) else show_nat (nat n))"

text \<open>\<open>str(x)\<close>; of a container only that its text is neither empty nor a number matters.\<close>

fun py_str :: "json \<Rightarrow> string" where
  "py_str JNull = ''None''"
| "py_str (JBool b) = (if b then ''True'' else ''False'')"
| "py_str (JInt n) = show_int n"
| "py_str (JStr s) = s"
| "py_str (JArr xs) = ''[...]''"
| "py_str (JObj d) = ''{...}''"

definition upper :: "string \<Rightarrow> string" where
  "upper s = map (\<lambda>c. let n = of_char c :: nat in if 97 \<le> n \<and> n \<le> 122 then char_of (n - 32) else c) s"

text \<open>\<open>bool(x)\<close>\<close>

fun truthy :: "json \<Rightarrow> bool" where
  "truthy JNull = False"
| "truthy (JBool b) = b"
| "truthy (JInt n) = (n \<noteq> 0)"
| "truthy (JStr s) = (s \<noteq> [])"
| "truthy (JArr xs) = (xs \<noteq> [])"
| "truthy (JObj d) = (d \<noteq> [])"

text \<open>\<open>d.get(k, dflt)\<close> and \<open>d[k]\<close>\<close>

definition jget :: "json \<Rightarrow> string \<Rightarrow> jobj \<Rightarrow> json" where
  "jget dflt k d = (case dget d k of None \<Rightarrow> dflt | Some v \<Rightarrow> v)"

definition jitem :: "string \<Rightarrow> jobj \<Rightarrow> py_error + json" where
  "jitem k d = (case dget d k of None \<Rightarrow> Inl KeyError | Some v \<Rightarrow> Inr v)"

subsection \<open>Reading numbers\<close>

definition is_digit :: "char \<Rightarrow> bool" where
  "is_digit c \<longleftrightarrow> 48 \<le> (of_char c :: nat) \<and> (of_char c :: nat) \<le> 57"

definition digit_value :: "char \<Rightarrow> nat" where
  "digit_value c = of_char c - 48"

definition digits_value :: "string \<Rightarrow> nat" where
  "digits_value s = foldl (\<lambda>n c. 10 * n + digit_value c) 0 s"

definition read_nat :: "string \<Rightarrow> nat option" where
  "read_nat s = (if s \<noteq> [] \<and> list_all is_digit s then Some (digits_value s) else None)"

text \<open>A text without its sign, and whether that sign was a minus.\<close>

definition split_sign :: "string \<Rightarrow> bool \<times> string" where
  "split_sign s =
     (case s of
        [] \<Rightarrow> (False, [])
      | c # t \<Rightarrow> if c = CHR ''-'' then (True, t) else if c = CHR ''+'' then (False, t) else (False, s))"

definition read_int :: "string \<Rightarrow> int option" where
  "read_int s =
     (case split_sign s of
        (neg, t) \<Rightarrow> map_option (\<lambda>n. if neg then - int n else int n) (read_nat t))"

definition read_fixed :: "string \<Rightarrow> rat option" where
  "read_fixed s =
     (let ip = takeWhile is_digit s; rest = dropWhile is_digit s
      in case rest of
           [] \<Rightarrow> map_option of_nat (read_nat ip)
         | c # fp \<Rightarrow>
             if c = CHR ''.'' \<and> ip @ fp \<noteq> [] \<and> list_all is_digit fp
             then Some (of_nat (digits_value (ip @ fp)) / 10 ^ length fp)
             else None)"

definition is_exponent_mark :: "char \<Rightarrow> bool" where
  "is_exponent_mark c \<longleftrightarrow> c = CHR ''e'' \<or> c = CHR ''E''"

definition dec_of_string :: "string \<Rightarrow> dec option" where
  "dec_of_string s =
     (case split_sign s of
        (neg, t) \<Rightarrow>
          (let m = takeWhile (\<lambda>c. \<not> is_exponent_mark c) t;
               e = (case dropWhile (\<lambda>c. \<not> is_exponent_mark c) t of [] \<Rightarrow> Some 0 | c # es \<Rightarrow> read_int es)
           in case (read_fixed m, e) of
                (Some x, Some k) \<Rightarrow> Some ((if neg then - x else x) * 10 powi k)
              | _ \<Rightarrow> None))"

text \<open>\<open>Decimal(str(x))\<close> and \<open>int(x)\<close>\<close>

definition py_decimal :: "json \<Rightarrow> py_error + dec" where
  "py_decimal j = (case dec_of_string (py_str j) of None \<Rightarrow> Inl InvalidOperation | Some d \<Rightarrow> Inr d)"

fun py_int :: "json \<Rightarrow> py_error + int" where
  "py_int (JInt n) = Inr n"
| "py_int (JBool b) = Inr (if b then 1 else 0)"
| "py_int (JStr s) = (case read_int s of None \<Rightarrow> Inl ValueError | Some n \<Rightarrow> Inr n)"
| "py_int _ = Inl TypeError"

text \<open>\<open>for x in value\<close> over what was parsed\<close>

definition json_iter :: "json \<Rightarrow> py_error + json list" where
  "json_iter j =
     (case j of
        JArr xs \<Rightarrow> Inr xs
      | JObj d \<Rightarrow> Inr (map (\<lambda>kv. JStr (fst kv)) d)
      | JStr s \<Rightarrow> Inr (map (\<lambda>c. JStr [c]) s)
      | _ \<Rightarrow> Inl TypeError)"

subsection \<open>Printing decimals\<close>

text \<open>
  \<open>format(d.normalize(), "f")\<close>: sign, integer part, and the digits behind the point without
  trailing zeros. A finite fraction has no more digits than its denominator, which bounds the loop.
\<close>

fun frac_digits :: "nat \<Rightarrow> rat \<Rightarrow> nat list" where
  "frac_digits 0 f = []"
| "frac_digits (Suc n) f =
     (if f = 0 then [] else nat \<lfloor>10 * f\<rfloor> # frac_digits n (10 * f - of_int \<lfloor>10 * f\<rfloor>))"

definition fixed_text :: "rat \<Rightarrow> string" where
  "fixed_text a =
     (let ip = nat \<lfloor>a\<rfloor>; fr = frac_digits (nat (snd (quotient_of a))) (a - of_nat ip)
      in show_nat ip @ (if fr = [] then [] else ''.'' @ map digit fr))"

definition format_decimal :: "dec \<Rightarrow> string" where
  "format_decimal d =
     (let r = rnd d in if r < 0 then ''-'' @ fixed_text (- r) else fixed_text r)"

subsection \<open>What is printed is read back\<close>

lemma digit_simps [simp]: "n < 10 \<Longrightarrow> is_digit (digit n)" "n < 10 \<Longrightarrow> digit_value (digit n) = n"
  by (simp_all add: is_digit_def digit_def digit_value_def)

lemma is_digit_not [simp]:
  "\<not> is_digit (CHR ''.'')" "\<not> is_digit (CHR ''-'')" "\<not> is_digit (CHR ''+'')" "\<not> is_digit (CHR ''e'')"
  "\<not> is_digit (CHR ''E'')"
  by (simp_all add: is_digit_def)

lemma digits_value_snoc [simp]: "digits_value (s @ [c]) = 10 * digits_value s + digit_value c"
  by (simp add: digits_value_def)

lemma digits_value_Nil [simp]: "digits_value [] = 0"
  by (simp add: digits_value_def)

lemma digits_value_append: "digits_value (s @ t) = digits_value s * 10 ^ length t + digits_value t"
  by (induction t rule: rev_induct) (simp_all add: algebra_simps flip: append_assoc)

lemma digits_value_Cons: "digits_value (c # t) = digit_value c * 10 ^ length t + digits_value t"
  using digits_value_append [of "[c]" t] digits_value_snoc [of "[]" c] by simp

lemma show_nat_digits [simp]: "list_all is_digit (show_nat n)"
proof (induction n rule: show_nat.induct)
  case (1 n)
  then show ?case by (subst show_nat.simps) auto
qed

lemma digits_value_show [simp]: "digits_value (show_nat n) = n"
proof (induction n rule: show_nat.induct)
  case (1 n)
  then show ?case by (subst show_nat.simps) (auto simp: digits_value_Cons)
qed

lemma show_nat_not_Nil [simp]: "show_nat n \<noteq> []"
  by (subst show_nat.simps) simp

lemma read_nat_show [simp]: "read_nat (show_nat n) = Some n"
  by (simp add: read_nat_def)

lemma split_sign_digits: "list_all is_digit s \<Longrightarrow> s \<noteq> [] \<Longrightarrow> split_sign (s @ t) = (False, s @ t)"
  by (cases s) (auto simp: split_sign_def)

lemma split_sign_minus [simp]: "split_sign (CHR ''-'' # t) = (True, t)"
  by (simp add: split_sign_def)

lemma read_int_show: "read_int (show_int n) = Some n"
  using split_sign_digits [OF show_nat_digits, of "nat n" "[]"]
  by (simp add: read_int_def show_int_def)

text \<open>A denominator that divides some power of ten divides the one with itself as exponent.\<close>

lemma dvd_power_self:
  fixes m q :: nat
  assumes "q dvd m ^ k" and "0 < q"
  shows "q dvd m ^ q"
  using assms
proof (induction q rule: less_induct)
  case (less q)
  define g where "g = gcd q m"
  show ?case
  proof (cases "q = 1")
    case False
    have g: "g \<noteq> 1"
    proof
      assume "g = 1"
      then have "coprime q m" by (simp only: g_def coprime_iff_gcd_eq_1)
      then have "coprime q (m ^ k)" by simp
      from coprime_common_divisor [OF this dvd_refl less.prems(1)] False show False by simp
    qed
    have "g dvd q" by (simp add: g_def)
    then obtain q' where q: "q = g * q'" by (elim dvdE)
    with less.prems(2) have pos: "0 < q'" "0 < g" by (auto intro: Nat.gr0I)
    with g have "1 < g" by linarith
    with pos have less': "q' < q" by (simp add: q)
    have "q' dvd m ^ k" using less.prems(1) dvd_mult_right unfolding q by blast
    with less.IH [OF less'] pos(1) have "q' dvd m ^ q'" by blast
    then have "g * q' dvd m * m ^ q'" by (intro mult_dvd_mono) (simp_all add: g_def)
    then have "q dvd m ^ Suc q'" by (simp add: q)
    also have "m ^ Suc q' dvd m ^ q" using less' by (intro le_imp_power_dvd) simp
    finally show ?thesis .
  qed simp
qed

lemma dgrid_denominator:
  assumes "dgrid k x"
  shows "dgrid (nat (snd (quotient_of x))) x"
proof -
  obtain p q where pq: "quotient_of x = (p, q)" by force
  have q: "0 < q" "coprime p q" and x: "x = of_int p / of_int q"
    using quotient_of_denom_pos [OF pq] quotient_of_coprime [OF pq] quotient_of_div [OF pq] by auto
  from assms obtain z where "x * 10 ^ k = of_int z" by (auto simp: dgrid_def Ints_def)
  then have "of_int (p * 10 ^ k) = (of_int (z * q) :: rat)" using q(1) by (simp add: x field_simps)
  then have "p * 10 ^ k = z * q" by (simp only: of_int_eq_iff)
  then have "q dvd 10 ^ k" using q(2) by (metis coprime_commute coprime_dvd_mult_right_iff dvd_triv_right)
  then have "nat q dvd 10 ^ k" using q(1)
    by (metis (no_types, opaque_lifting) int_dvd_int_iff int_nat_eq less_imp_le of_nat_numeral of_nat_power)
  then have "nat q dvd 10 ^ nat q" using q(1) by (intro dvd_power_self) auto
  then have "q dvd 10 ^ nat q" using q(1)
    by (metis (no_types, opaque_lifting) int_dvd_int_iff int_nat_eq less_imp_le of_nat_numeral of_nat_power)
  then obtain r where r: "10 ^ nat q = q * r" by (auto elim: dvdE)
  have "x * of_int (10 ^ nat q) = of_int (p * r)" using q(1) by (simp add: r x)
  then show ?thesis by (simp add: dgrid_def pq)
qed

lemma frac_step:
  assumes "0 \<le> f" "f < (1 :: rat)"
  shows "nat \<lfloor>10 * f\<rfloor> < 10" "0 \<le> 10 * f - of_int \<lfloor>10 * f\<rfloor>" "10 * f - of_int \<lfloor>10 * f\<rfloor> < 1"
  using assms by linarith+

lemma frac_digits_small: "0 \<le> f \<Longrightarrow> f < 1 \<Longrightarrow> \<forall>d \<in> set (frac_digits n f). d < 10"
  by (induction n f rule: frac_digits.induct) (auto simp: frac_step)

lemma frac_digits_value:
  assumes "0 \<le> f" "f < 1" "dgrid n f"
  shows "of_nat (digits_value (map digit (frac_digits n f))) / 10 ^ length (frac_digits n f) = f"
  using assms
proof (induction n f rule: frac_digits.induct)
  case (1 f)
  then have "f \<in> \<int>" by (simp add: dgrid_def)
  then obtain z where "f = of_int z" by (auto elim: Ints_cases)
  with 1 have "f = 0" by simp
  then show ?case by simp
next
  case (2 n f)
  let ?h = "\<lfloor>10 * f\<rfloor>" and ?t = "10 * f - of_int \<lfloor>10 * f\<rfloor>"
  show ?case
  proof (cases "f = 0")
    case False
    have h: "0 \<le> ?h" using 2(2) by simp
    have "dgrid n (10 * f)" using 2(4) by (simp add: dgrid_def ac_simps)
    then have "dgrid n ?t" by (intro dgrid_diff) auto
    from 2(1) [OF False frac_step(2,3) [OF 2(2,3)] this]
    have t: "of_nat (digits_value (map digit (frac_digits n ?t))) = ?t * 10 ^ length (frac_digits n ?t)"
      by (simp add: field_simps)
    have "of_nat (nat ?h) = (of_int ?h :: rat)" using h by simp
    with False t frac_step(1) [OF 2(2,3)] show ?thesis
      by (simp add: digits_value_Cons field_simps)
  qed simp
qed

lemma takeWhile_all: "list_all P s \<Longrightarrow> takeWhile P (s @ t) = s @ takeWhile P t"
  "list_all P s \<Longrightarrow> dropWhile P (s @ t) = dropWhile P t"
  by (induction s) auto

lemma takeWhile_whole [simp]: "list_all P s \<Longrightarrow> takeWhile P s = s" "list_all P s \<Longrightarrow> dropWhile P s = []"
  by (induction s) auto

lemma read_fixed_digits: "list_all is_digit s \<Longrightarrow> s \<noteq> [] \<Longrightarrow> read_fixed s = Some (of_nat (digits_value s))"
  by (simp add: read_fixed_def read_nat_def)

lemma read_fixed_point:
  "list_all is_digit s \<Longrightarrow> list_all is_digit t \<Longrightarrow> t \<noteq> [] \<Longrightarrow>
    read_fixed (s @ CHR ''.'' # t) = Some (of_nat (digits_value s) + of_nat (digits_value t) / 10 ^ length t)"
  using takeWhile_all [of is_digit s "CHR ''.'' # t"]
  by (simp add: read_fixed_def digits_value_append add_divide_distrib)

lemma digit_no_mark: "is_digit c \<Longrightarrow> \<not> is_exponent_mark c"
  by (auto simp: is_digit_def is_exponent_mark_def)

lemma dec_of_string_fixed:
  assumes "split_sign s = (neg, t)" and "list_all (\<lambda>c. is_digit c \<or> c = CHR ''.'') t" and "read_fixed t = Some x"
  shows "dec_of_string s = Some (if neg then - x else x)"
proof -
  have "list_all (\<lambda>c. \<not> is_exponent_mark c) t"
    using assms(2) by (auto simp: list_all_iff digit_no_mark is_exponent_mark_def)
  then show ?thesis using assms(1,3) by (simp add: dec_of_string_def Let_def)
qed

lemma dgrid_rnd: "\<exists>k. dgrid k (rnd x)"
proof -
  have p: "\<exists>k. dgrid k (of_int n * 10 powi e)" for n e
  proof (cases "0 \<le> e")
    case True
    then have "of_int n * 10 powi e = (of_int (n * 10 ^ nat e) :: rat)" by (simp add: power_int_def)
    then show ?thesis by (metis dgrid_of_int)
  next
    case False
    then have "of_int n * 10 powi e * 10 ^ nat (- e) = (of_int n :: rat)" by (simp add: power_int_def field_simps)
    then show ?thesis by (metis Ints_of_int dgrid_def)
  qed
  then have "\<exists>k. dgrid k (rnd_pos y)" for y by (simp add: rnd_pos_def)
  then show ?thesis by (auto simp: rnd_def intro: dgrid_minus)
qed

text \<open>
  The text a decimal is sent as, read as a decimal again, is the decimal rounded to the 28 digits
  of the context, so a value that was computed by decimal arithmetic arrives unchanged; and it has
  no exponent.
\<close>

lemma fixed_text_read:
  assumes "0 \<le> a" and "dgrid k a"
  shows "read_fixed (fixed_text a) = Some a" "list_all (\<lambda>c. is_digit c \<or> c = CHR ''.'') (fixed_text a)"
proof -
  let ?f = "a - of_nat (nat \<lfloor>a\<rfloor>)" and ?n = "nat (snd (quotient_of a))"
  let ?ds = "map digit (frac_digits ?n ?f)"
  have ip: "of_nat (nat \<lfloor>a\<rfloor>) = (of_int \<lfloor>a\<rfloor> :: rat)" using assms(1) by simp
  have f: "0 \<le> ?f" "?f < 1" unfolding ip by linarith+
  have "dgrid ?n ?f" using dgrid_denominator [OF assms(2)] dgrid_of_int [of ?n "\<lfloor>a\<rfloor>"]
    unfolding ip by (rule dgrid_diff)
  from frac_digits_value [OF f this] have v: "of_nat (digits_value ?ds) / 10 ^ length ?ds = ?f" by simp
  have d: "list_all is_digit ?ds" using frac_digits_small [OF f] by (auto simp: list_all_iff)
  have "list_all (\<lambda>c. is_digit c \<or> c = CHR ''.'') s" if "list_all is_digit s" for s
    using that by (auto simp: list_all_iff)
  note w = this [OF d] this [OF show_nat_digits]
  have "read_fixed (fixed_text a) = Some a \<and> list_all (\<lambda>c. is_digit c \<or> c = CHR ''.'') (fixed_text a)"
  proof (cases "?ds = []")
    case True
    with v have "a = of_nat (nat \<lfloor>a\<rfloor>)" by simp
    with True w show ?thesis by (simp add: fixed_text_def read_fixed_digits)
  next
    case False
    with read_fixed_point [OF show_nat_digits d False, of "nat \<lfloor>a\<rfloor>"] v w show ?thesis
      by (simp add: fixed_text_def Let_def)
  qed
  then show "read_fixed (fixed_text a) = Some a" "list_all (\<lambda>c. is_digit c \<or> c = CHR ''.'') (fixed_text a)"
    by simp_all
qed

lemma split_sign_fixed: "split_sign (fixed_text a) = (False, fixed_text a)"
  by (simp add: fixed_text_def Let_def split_sign_digits)

lemma format_decimal_read: "dec_of_string (format_decimal d) = Some (rnd d)"
proof -
  obtain k where k: "dgrid k (rnd d)" using dgrid_rnd by blast
  show ?thesis
  proof (cases "rnd d < 0")
    case True
    then have "0 \<le> - rnd d" by linarith
    note r = fixed_text_read [OF this dgrid_minus [OF k]]
    have "split_sign (format_decimal d) = (True, fixed_text (- rnd d))"
      using True by (simp add: format_decimal_def del: rnd_neg_iff)
    from dec_of_string_fixed [OF this r(2,1)] show ?thesis by simp
  next
    case False
    then have "0 \<le> rnd d" by linarith
    note r = fixed_text_read [OF this k]
    have "split_sign (format_decimal d) = (False, fixed_text (rnd d))"
      using False by (simp add: format_decimal_def split_sign_fixed del: rnd_neg_iff)
    from dec_of_string_fixed [OF this r(2,1)] show ?thesis by simp
  qed
qed

lemma format_decimal_plain: "list_all (\<lambda>c. is_digit c \<or> c = CHR ''.'' \<or> c = CHR ''-'') (format_decimal d)"
proof -
  obtain k where k: "dgrid k (rnd d)" using dgrid_rnd by blast
  have w: "list_all (\<lambda>c. is_digit c \<or> c = CHR ''.'' \<or> c = CHR ''-'') s"
    if "list_all (\<lambda>c. is_digit c \<or> c = CHR ''.'') s" for s
    using that by (auto simp: list_all_iff)
  show ?thesis
  proof (cases "rnd d < 0")
    case True
    then have "0 \<le> - rnd d" by linarith
    from w [OF fixed_text_read(2) [OF this dgrid_minus [OF k]]] True show ?thesis
      by (simp add: format_decimal_def del: rnd_neg_iff)
  next
    case False
    then have "0 \<le> rnd d" by linarith
    from w [OF fixed_text_read(2) [OF this k]] False show ?thesis
      by (simp add: format_decimal_def del: rnd_neg_iff)
  qed
qed

end
