(* ===== verification/Binance_Rest.thy ===== *)
theory Binance_Rest
  imports Json
begin

text \<open>
  The ground of the Binance adapter: \<open>order_gateways/binance/errors.py\<close> (error codes to exceptions),
  \<open>order_translation.py\<close>, \<open>symbols.py\<close>, and \<open>rest_client.py\<close> with its signed requests, the clock
  offset and the one retry. The HTTP transport and the HMAC are not under the source tree: they are
  the fields \<open>rc_http\<close>, a function from the requests sent so far, the newest last, to the reply, and
  \<open>rc_sign\<close>. The wall clock in milliseconds is read through \<open>rc_wall\<close>. The rate limiter only delays
  a request (every weight used is below its capacity) and the texts of replies that are not JSON are
  dropped.
\<close>

subsection \<open>Exceptions\<close>

datatype venue_exn =
    RateLimitedError string int "rat option" int
  | OrderGatewayAuthError string int
  | OrderGatewayError string
  | OrderErr string "int option" bool
  | PyExn py_error

text \<open>\<open>exc.message\<close>, which is also \<open>str(exc)\<close>\<close>

fun exn_message :: "venue_exn \<Rightarrow> string" where
  "exn_message (RateLimitedError m c r h) = m"
| "exn_message (OrderGatewayAuthError m c) = m"
| "exn_message (OrderGatewayError m) = m"
| "exn_message (OrderErr m c b) = m"
| "exn_message (PyExn e) = []"

text \<open>\<open>except OrderGatewayError\<close> catches the rate limit and authentication errors too.\<close>

fun is_gateway_error :: "venue_exn \<Rightarrow> bool" where
  "is_gateway_error (OrderErr m c b) = False"
| "is_gateway_error (PyExn e) = False"
| "is_gateway_error _ = True"

record error_response =
  er_code :: int
  er_msg :: string
  er_http :: int

definition auth_codes :: "int list" where "auth_codes = [- 1022, - 2014, - 2015, - 1125]"
definition logical_reject_codes :: "int list" where "logical_reject_codes = [- 2010, - 2021]"
definition rate_limit_codes :: "int list" where "rate_limit_codes = [- 1003]"
definition amend_noop :: int where "amend_noop = - 5027"
definition amend_modify_limit :: int where "amend_modify_limit = - 5026"
definition invalid_timestamp_code :: int where "invalid_timestamp_code = - 1021"

definition from_payload :: "jobj \<Rightarrow> int \<Rightarrow> py_error + error_response" where
  "from_payload p http =
     (case py_int (jget (JInt 0) ''code'' p) of
        Inl e \<Rightarrow> Inl e
      | Inr c \<Rightarrow> Inr \<lparr>er_code = c, er_msg = py_str (jget (JStr []) ''msg'' p), er_http = http\<rparr>)"

definition is_rate_limited :: "error_response \<Rightarrow> bool" where
  "is_rate_limited e \<longleftrightarrow> er_http e \<in> {418, 429} \<or> er_code e \<in> set rate_limit_codes"

definition is_auth_error :: "error_response \<Rightarrow> bool" where
  "is_auth_error e \<longleftrightarrow> er_code e \<in> set auth_codes"

definition is_logical_reject :: "error_response \<Rightarrow> bool" where
  "is_logical_reject e \<longleftrightarrow> er_code e \<in> set logical_reject_codes"

definition translate_error :: "error_response \<Rightarrow> rat option \<Rightarrow> venue_exn" where
  "translate_error e retry_after =
     (if is_rate_limited e then
        RateLimitedError (''binance rate-limited: '' @ er_msg e) (er_code e) retry_after (er_http e)
      else if is_auth_error e then
        OrderGatewayAuthError
          (''binance auth failed: '' @ er_msg e @ '' (code '' @ show_int (er_code e) @ '')'') (er_code e)
      else if is_logical_reject e then
        OrderErr (''binance rejected order: '' @ er_msg e) (Some (er_code e)) True
      else if er_code e \<noteq> 0 then
        OrderErr (''binance error '' @ show_int (er_code e) @ '': '' @ er_msg e) (Some (er_code e)) False
      else OrderGatewayError (''binance HTTP '' @ show_int (er_http e) @ '': '' @ er_msg e))"

subsection \<open>Sides, order types and times in force\<close>

fun side_to_binance :: "side \<Rightarrow> string" where
  "side_to_binance BUY = ''BUY''"
| "side_to_binance SELL = ''SELL''"

definition side_from_binance :: "string \<Rightarrow> venue_exn + side" where
  "side_from_binance s =
     (if upper s = ''BUY'' then Inr BUY
      else if upper s = ''SELL'' then Inr SELL
      else Inl (OrderErr (''unknown binance side: '' @ s) None False))"

fun order_type_to_binance :: "order_type \<Rightarrow> time_in_force \<Rightarrow> bool \<Rightarrow> string \<times> time_in_force" where
  "order_type_to_binance OT_MARKET tif futures = (''MARKET'', tif)"
| "order_type_to_binance OT_LIMIT tif futures = (''LIMIT'', tif)"
| "order_type_to_binance OT_IOC tif futures = (''LIMIT'', TIF_IOC)"
| "order_type_to_binance OT_FOK tif futures = (''LIMIT'', TIF_FOK)"
| "order_type_to_binance OT_POST_ONLY tif futures =
     (if futures then (''LIMIT'', TIF_GTX) else (''LIMIT_MAKER'', tif))"
| "order_type_to_binance OT_STOP tif futures = (''STOP_LOSS'', tif)"
| "order_type_to_binance OT_STOP_LIMIT tif futures = (''STOP_LOSS_LIMIT'', tif)"

fun tif_to_binance :: "time_in_force \<Rightarrow> venue_exn + string" where
  "tif_to_binance TIF_GTC = Inr ''GTC''"
| "tif_to_binance TIF_IOC = Inr ''IOC''"
| "tif_to_binance TIF_FOK = Inr ''FOK''"
| "tif_to_binance TIF_GTX = Inr ''GTX''"
| "tif_to_binance _ = Inl (OrderErr ''unsupported time-in-force for Binance'' None False)"

subsection \<open>Symbols\<close>

record symbol_mapper =
  sm_by_canonical :: "(string, instrument) dict"
  sm_by_wire :: "(string, instrument) dict"
  sm_wire :: "(string, string) dict"

definition canonical_to_wire :: "instrument \<Rightarrow> string" where
  "canonical_to_wire i = upper (i_base i @ i_quote i)"

definition symbol_mapper_init :: "instrument list \<Rightarrow> symbol_mapper" where
  "symbol_mapper_init ins =
     fold (\<lambda>i m.
         if i_exchange i \<noteq> ''BINANCE'' then m
         else let wire = canonical_to_wire i
              in \<lparr>sm_by_canonical = dset (i_symbol i) i (sm_by_canonical m),
                  sm_by_wire = dset wire i (sm_by_wire m), sm_wire = dset (i_symbol i) wire (sm_wire m)\<rparr>)
       ins \<lparr>sm_by_canonical = [], sm_by_wire = [], sm_wire = []\<rparr>"

definition wire_symbol :: "instrument \<Rightarrow> symbol_mapper \<Rightarrow> string" where
  "wire_symbol i m = (case dget (sm_wire m) (i_symbol i) of Some w \<Rightarrow> w | None \<Rightarrow> canonical_to_wire i)"

definition by_wire :: "string \<Rightarrow> symbol_mapper \<Rightarrow> instrument option" where
  "by_wire w m = dget (sm_by_wire m) (upper w)"

definition by_canonical :: "string \<Rightarrow> symbol_mapper \<Rightarrow> instrument option" where
  "by_canonical c m = dget (sm_by_canonical m) c"

definition all_wire_symbols :: "symbol_mapper \<Rightarrow> string list" where
  "all_wire_symbols m = dkeys (sm_by_wire m)"

subsection \<open>The REST client\<close>

record http_request =
  hq_method :: string
  hq_path :: string
  hq_params :: jobj
  hq_keyed :: bool

datatype http_reply = JsonReply int json "rat option" | TextReply int | ClientError string | TimeoutError

record rest_client =
  rc_connected :: bool
  rc_offset :: int
  rc_futures :: bool
  rc_recv_window :: int
  rc_max_drift :: int
  rc_creds :: bool
  rc_wall :: "nat \<Rightarrow> int"
  rc_reads :: nat
  rc_sign :: "jobj \<Rightarrow> string"
  rc_http :: "http_request list \<Rightarrow> http_reply"
  rc_log :: "http_request list"

definition api_prefix :: "rest_client \<Rightarrow> string" where
  "api_prefix c = (if rc_futures c then ''/fapi/v1'' else ''/api/v3'')"

text \<open>\<open>_send\<close>\<close>

definition rest_send :: "http_request \<Rightarrow> rest_client \<Rightarrow> rest_client \<times> (venue_exn + json)" where
  "rest_send rq c =
     (let c1 = c\<lparr>rc_log := rc_log c @ [rq]\<rparr>
      in case rc_http c (rc_log c1) of
           ClientError m \<Rightarrow> (c1, Inl (OrderGatewayError (''binance transport error: '' @ m)))
         | TimeoutError \<Rightarrow> (c1, Inl (OrderGatewayError ''binance request timed out''))
         | TextReply st \<Rightarrow> (c1, Inl (OrderGatewayError ''binance non-JSON response: ''))
         | JsonReply st payload retry_after \<Rightarrow>
             if 400 \<le> st
             then (case from_payload (case payload of JObj d \<Rightarrow> d | _ \<Rightarrow> []) st of
                     Inl e \<Rightarrow> (c1, Inl (PyExn e))
                   | Inr err \<Rightarrow> (c1, Inl (translate_error err retry_after)))
             else (c1, Inr payload))"

definition read_wall :: "rest_client \<Rightarrow> int \<times> rest_client" where
  "read_wall c = (rc_wall c (rc_reads c), c\<lparr>rc_reads := Suc (rc_reads c)\<rparr>)"

definition server_time :: "json \<Rightarrow> py_error + int" where
  "server_time data =
     (case data of
        JObj d \<Rightarrow> (case jitem ''serverTime'' d of Inl e \<Rightarrow> Inl e | Inr t \<Rightarrow> py_int t)
      | _ \<Rightarrow> Inl TypeError)"

definition sync_server_time :: "bool \<Rightarrow> rest_client \<Rightarrow> rest_client \<times> (venue_exn + unit)" where
  "sync_server_time initial c =
     (case read_wall c of
        (before, c1) \<Rightarrow>
          (case rest_send \<lparr>hq_method = ''GET'', hq_path = api_prefix c @ ''/time'', hq_params = [], hq_keyed = False\<rparr> c1 of
             (c2, Inl e) \<Rightarrow> (c2, Inl e)
           | (c2, Inr data) \<Rightarrow>
               (case read_wall c2 of
                  (after, c3) \<Rightarrow>
                    (case server_time data of
                       Inl e \<Rightarrow> (c3, Inl (PyExn e))
                     | Inr server \<Rightarrow>
                         (let offset = server - (before + after) div 2
                          in if initial \<and> rc_max_drift c < \<bar>offset\<bar>
                             then (c3, Inl (OrderGatewayError ''Binance server time disagrees with local clock''))
                             else (c3\<lparr>rc_offset := offset\<rparr>, Inr ()))))))"

definition rest_connect :: "rest_client \<Rightarrow> rest_client \<times> (venue_exn + unit)" where
  "rest_connect c =
     (if rc_connected c then (c, Inr ())
      else case sync_server_time True c of
             (c1, Inl e) \<Rightarrow> (c1, Inl e)
           | (c1, Inr _) \<Rightarrow> (c1\<lparr>rc_connected := True\<rparr>, Inr ()))"

definition rest_close :: "rest_client \<Rightarrow> rest_client" where
  "rest_close c = c\<lparr>rc_connected := False\<rparr>"

text \<open>\<open>_build\<close>: the parameters of a signed request carry the adjusted time and the signature.\<close>

definition rest_build :: "string \<Rightarrow> string \<Rightarrow> jobj \<Rightarrow> bool \<Rightarrow> rest_client \<Rightarrow> rest_client \<times> (venue_exn + http_request)" where
  "rest_build method path params signed c =
     (if \<not> signed then (c, Inr \<lparr>hq_method = method, hq_path = path, hq_params = params, hq_keyed = False\<rparr>)
      else if \<not> rc_creds c then (c, Inl (OrderGatewayError ''signed request requires credentials''))
      else case read_wall c of
             (now, c1) \<Rightarrow>
               (let ps = dset ''recvWindow'' (JInt (rc_recv_window c))
                           (dset ''timestamp'' (JInt (now + rc_offset c)) params)
                in (c1, Inr \<lparr>hq_method = method, hq_path = path,
                             hq_params = dset ''signature'' (JStr (rc_sign c ps)) ps, hq_keyed = True\<rparr>)))"

definition build_and_send :: "string \<Rightarrow> string \<Rightarrow> jobj \<Rightarrow> bool \<Rightarrow> rest_client \<Rightarrow> rest_client \<times> (venue_exn + json)" where
  "build_and_send method path params signed c =
     (case rest_build method path params signed c of
        (c1, Inl e) \<Rightarrow> (c1, Inl e)
      | (c1, Inr rq) \<Rightarrow> rest_send rq c1)"

fun is_timestamp_error :: "venue_exn \<Rightarrow> bool" where
  "is_timestamp_error (OrderErr m c b) = (c = Some invalid_timestamp_code)"
| "is_timestamp_error _ = False"

definition rest_request :: "string \<Rightarrow> string \<Rightarrow> jobj \<Rightarrow> bool \<Rightarrow> rest_client \<Rightarrow> rest_client \<times> (venue_exn + json)" where
  "rest_request method path params signed c =
     (if \<not> rc_connected c
      then (c, Inl (OrderGatewayError ''REST client not connected; call connect() first''))
      else
        case build_and_send method path params signed c of
          (c1, Inr j) \<Rightarrow> (c1, Inr j)
        | (c1, Inl e) \<Rightarrow>
            if \<not> signed \<or> \<not> is_timestamp_error e then (c1, Inl e)
            else
              case sync_server_time False c1 of
                (c2, Inl e2) \<Rightarrow> (c2, Inl e2)
              | (c2, Inr _) \<Rightarrow> build_and_send method path params signed c2)"

end
