(* ===== verification/Venue_Sync.thy ===== *)
theory Venue_Sync
  imports Binance_Rest OMS_Engine
begin

text \<open>
  \<open>order_gateways/binance/state_bootstrap.py\<close>: the adoption of what already rests at the venue and
  the periodic resynchronization that closes orders the venue no longer has. The OMS is a part of
  the state, the bus and the clock are the ones the OMS uses. A pass of the resynchronization waits
  for REST calls between its parts; each part between two calls is atomic, and the parts are here
  run in one go, so what the OMS does in between is not part of a pass.
\<close>

record venue_sync =
  vs_oms :: oms
  vs_rest :: rest_client
  vs_symbols :: symbol_mapper
  vs_tracked :: "instrument list"
  vs_gone :: "(string, nat) dict"

definition venue_sync_init :: "oms \<Rightarrow> rest_client \<Rightarrow> symbol_mapper \<Rightarrow> instrument list \<Rightarrow> venue_sync" where
  "venue_sync_init w rc sm ins =
     \<lparr>vs_oms = w, vs_rest = rc, vs_symbols = sm, vs_tracked = ins, vs_gone = []\<rparr>"

definition gone_threshold :: nat where
  "gone_threshold = 2"

definition lookback_ms :: int where
  "lookback_ms = 600000"

definition venue_terminal_status :: "string \<Rightarrow> order_status option" where
  "venue_terminal_status st =
     (if st = ''FILLED'' then Some FILLED
      else if st \<in> {''CANCELED'', ''CANCELLED''} then Some CANCELLED
      else if st \<in> {''EXPIRED'', ''EXPIRED_IN_MATCH''} then Some EXPIRED
      else if st = ''REJECTED'' then Some REJECTED
      else None)"

definition order_type_from_binance :: "string \<Rightarrow> string \<Rightarrow> order_type \<times> time_in_force" where
  "order_type_from_binance binance_type tif =
     (let t = upper binance_type; f = upper tif;
          our_tif = (if f = ''IOC'' then TIF_IOC else if f = ''FOK'' then TIF_FOK
                     else if f = ''GTX'' then TIF_GTX else TIF_GTC)
      in if t = ''MARKET'' then (OT_MARKET, our_tif)
         else if t = ''LIMIT_MAKER'' \<or> t = ''LIMIT'' \<and> f = ''GTX'' then (OT_POST_ONLY, our_tif)
         else if t = ''LIMIT'' then (OT_LIMIT, our_tif)
         else if t \<in> {''STOP'', ''STOP_LOSS''} then (OT_STOP, our_tif)
         else if t \<in> {''STOP_LOSS_LIMIT'', ''STOP_LIMIT''} then (OT_STOP_LIMIT, our_tif)
         else (OT_LIMIT, our_tif))"

definition vs_call :: "string \<Rightarrow> jobj \<Rightarrow> venue_sync \<Rightarrow> venue_sync \<times> (venue_exn + json)" where
  "vs_call path params s =
     (case rest_request ''GET'' path params True (vs_rest s) of (rc, r) \<Rightarrow> (s\<lparr>vs_rest := rc\<rparr>, r))"

subsection \<open>Adoption\<close>

text \<open>\<open>str(o.get(k) or "")\<close>\<close>

definition text_or_empty :: "string \<Rightarrow> jobj \<Rightarrow> string" where
  "text_or_empty k d = (let j = jget JNull k d in if truthy j then py_str j else [])"

definition reported_price :: "json \<Rightarrow> py_error + dec option" where
  "reported_price j =
     (if j = JNull \<or> j \<in> {JStr [], JStr ''0'', JStr ''0.0''} then Inr None
      else sum_bind (py_decimal j) (\<lambda>d. Inr (Some d)))"

record venue_order =
  vo_side :: side
  vo_type :: order_type
  vo_tif :: time_in_force
  vo_quantity :: dec
  vo_executed :: dec
  vo_price :: "dec option"
  vo_exchange_id :: string
  vo_created :: timestamp

text \<open>The fields the loop reads; any exception makes it skip the order.\<close>

definition read_order :: "jobj \<Rightarrow> py_error + venue_order" where
  "read_order o1 =
     sum_bind (sum_bind (jitem ''origQty'' o1) py_decimal) (\<lambda>qty.
     sum_bind (py_decimal (jget (JStr ''0'') ''executedQty'' o1)) (\<lambda>executed.
     sum_bind (reported_price (jget JNull ''price'' o1)) (\<lambda>price.
     sum_bind (jitem ''side'' o1) (\<lambda>sd.
     sum_bind (case side_from_binance (py_str sd) of Inl _ \<Rightarrow> Inl OrderError | Inr x \<Rightarrow> Inr x) (\<lambda>sd'.
     sum_bind (jitem ''orderId'' o1) (\<lambda>xid.
     sum_bind (py_int (jget (JInt 0) ''time'' o1)) (\<lambda>t.
       (case order_type_from_binance (py_str (jget (JStr ''LIMIT'') ''type'' o1))
               (py_str (jget (JStr ''GTC'') ''timeInForce'' o1)) of
          (ty, tif) \<Rightarrow>
            Inr \<lparr>vo_side = sd', vo_type = ty, vo_tif = tif, vo_quantity = qty, vo_executed = executed,
              vo_price = price, vo_exchange_id = py_str xid, vo_created = t * 1000000\<rparr>))))))))"

definition adopt_venue_order :: "instrument \<Rightarrow> coid \<Rightarrow> jobj \<Rightarrow> oms \<Rightarrow> oms" where
  "adopt_venue_order ins c o1 w =
     (case read_order o1 of
        Inl _ \<Rightarrow> w
      | Inr v \<Rightarrow> fst (adopt_order ins c (vo_side v) (vo_type v) (vo_quantity v) (vo_executed v) (vo_price v)
                        (vo_tif v) (Some (vo_exchange_id v)) (Some (vo_created v)) w))"

text \<open>The orders of one symbol: the client order ids seen, in the order they are added.\<close>

fun adopt_rows :: "instrument \<Rightarrow> json list \<Rightarrow> coid list \<Rightarrow> oms \<Rightarrow> oms \<times> (py_error + coid list)" where
  "adopt_rows ins [] seen w = (w, Inr seen)"
| "adopt_rows ins (JObj o1 # rows) seen w =
     (let c = text_or_empty ''clientOrderId'' o1
      in if c = [] then adopt_rows ins rows seen w
         else adopt_rows ins rows (c # seen) (adopt_venue_order ins c o1 w))"
| "adopt_rows ins (_ # rows) seen w = (w, Inl AttributeError)"

fun adopt_open_orders ::
    "instrument list \<Rightarrow> coid list \<Rightarrow> string list \<Rightarrow> venue_sync \<Rightarrow>
     venue_sync \<times> (py_error + coid list \<times> string list)" where
  "adopt_open_orders [] seen fetched s = (s, Inr (seen, fetched))"
| "adopt_open_orders (ins # rest) seen fetched s =
     (case vs_call (api_prefix (vs_rest s) @ ''/openOrders'')
             [(''symbol'', JStr (wire_symbol ins (vs_symbols s)))] s of
        (s1, Inl _) \<Rightarrow> adopt_open_orders rest seen fetched s1
      | (s1, Inr orders) \<Rightarrow>
          (case json_iter orders of
             Inl e \<Rightarrow> (s1, Inl e)
           | Inr rows \<Rightarrow>
               (case adopt_rows ins rows seen (vs_oms s1) of
                  (w, Inl e) \<Rightarrow> (s1\<lparr>vs_oms := w\<rparr>, Inl e)
                | (w, Inr seen') \<Rightarrow>
                    adopt_open_orders rest seen' (instrument_id ins # fetched) (s1\<lparr>vs_oms := w\<rparr>))))"

subsection \<open>Positions of the venue\<close>

text \<open>One row of the loop: a symbol that is not tracked and a flat position are left out.\<close>

definition read_position :: "symbol_mapper \<Rightarrow> json \<Rightarrow> py_error + venue_position option" where
  "read_position sm j =
     (case j of
        JObj p \<Rightarrow>
          (case by_wire (text_or_empty ''symbol'' p) sm of
             None \<Rightarrow> Inr None
           | Some ins \<Rightarrow>
               sum_bind (py_decimal (jget (JStr ''0'') ''positionAmt'' p)) (\<lambda>amt.
                 if amt = 0 then Inr None
                 else
                   sum_bind (py_decimal (jget (JStr ''0'') ''entryPrice'' p)) (\<lambda>entry.
                   sum_bind (py_decimal (jget (JStr ''0'') ''markPrice'' p)) (\<lambda>mark.
                   sum_bind (py_decimal (jget (JStr ''0'') ''unRealizedProfit'' p)) (\<lambda>upnl.
                     Inr (Some \<lparr>vp_instrument = ins, vp_net_quantity = amt, vp_entry_price = entry,
                       vp_mark_price = (if mark = 0 then entry else mark), vp_unrealized = upnl\<rparr>))))))
      | _ \<Rightarrow> Inl AttributeError)"

definition publish_venue_positions :: "venue_sync \<Rightarrow> venue_sync \<times> (py_error + unit)" where
  "publish_venue_positions s =
     (if \<not> rc_futures (vs_rest s) then (s, Inr ())
      else
        case vs_call ''/fapi/v2/positionRisk'' [] s of
          (s1, Inl _) \<Rightarrow> (s1, Inr ())
        | (s1, Inr positions) \<Rightarrow>
            (case sum_bind (json_iter positions) (sum_map (read_position (vs_symbols s1))) of
               Inl e \<Rightarrow> (s1, Inl e)
             | Inr ps \<Rightarrow>
                 (let w = vs_oms s1;
                      ev = EvVenuePositions \<lparr>ts_event = om_now w, ts_ingest = om_now w,
                             source = ''binance-state-bootstrap'', ve_positions = List.map_filter id ps\<rparr>
                  in case publish VENUE_POSITIONS ev (om_bus w) of
                       (b, r) \<Rightarrow> (s1\<lparr>vs_oms := w\<lparr>om_bus := b\<rparr>\<rparr>, r))))"

definition vs_bootstrap :: "venue_sync \<Rightarrow> venue_sync \<times> (py_error + unit)" where
  "vs_bootstrap s =
     (case adopt_open_orders (vs_tracked s) [] [] s of
        (s1, Inl e) \<Rightarrow> (s1, Inl e)
      | (s1, Inr _) \<Rightarrow> publish_venue_positions s1)"

subsection \<open>Orders that left the venue\<close>

definition in_flight :: "order_status list" where
  "in_flight = [PENDING_NEW, PENDING_AMEND, PENDING_CANCEL]"

text \<open>
  The first loop of \<open>_terminalize_gone_orders\<close>: the counters, the ids seen live, and the orders to
  resolve, bucketed by instrument.
\<close>

record gone_scan =
  gs_gone :: "(string, nat) dict"
  gs_live :: "coid list"
  gs_bucket :: "(string, oms_order list) dict"

definition scan_order :: "coid list \<Rightarrow> string list \<Rightarrow> oms_order \<Rightarrow> gone_scan \<Rightarrow> gone_scan" where
  "scan_order seen fetched o1 st =
     (if instrument_id (o_instrument o1) \<notin> set fetched then st
      else if o_status o1 \<in> set in_flight \<or> o_coid o1 \<in> set seen
      then st\<lparr>gs_live := o_coid o1 # gs_live st\<rparr>
      else
        let n = (case dget (gs_gone st) (o_coid o1) of None \<Rightarrow> 0 | Some m \<Rightarrow> m) + 1;
            k = instrument_id (o_instrument o1)
        in st\<lparr>gs_gone := dset (o_coid o1) n (gs_gone st),
              gs_bucket := (if n < gone_threshold then gs_bucket st
                 else dset k ((case dget (gs_bucket st) k of None \<Rightarrow> [] | Some os \<Rightarrow> os) @ [o1]) (gs_bucket st))\<rparr>)"

text \<open>The second loop: counters of orders seen live or no longer open are dropped.\<close>

definition prune_gone :: "coid list \<Rightarrow> coid list \<Rightarrow> (string, nat) dict \<Rightarrow> (string, nat) dict" where
  "prune_gone live open_coids gone = filter (\<lambda>(c, n). c \<notin> set live \<and> c \<in> set open_coids) gone"

definition fetch_recent_orders :: "string \<Rightarrow> venue_sync \<Rightarrow> venue_sync \<times> json list option" where
  "fetch_recent_orders wire s =
     (let start_ms = om_now (vs_oms s) div 1000000 - lookback_ms
      in case vs_call (api_prefix (vs_rest s) @ ''/allOrders'')
                [(''symbol'', JStr wire), (''startTime'', JInt start_ms)] s of
           (s1, Inl _) \<Rightarrow> (s1, None)
         | (s1, Inr rows) \<Rightarrow> (s1, case rows of JArr xs \<Rightarrow> Some xs | _ \<Rightarrow> None))"

text \<open>\<open>{str(r.get("clientOrderId") or ""): r for r in rows}\<close>\<close>

fun rows_by_coid :: "json list \<Rightarrow> (coid, jobj) dict \<Rightarrow> py_error + (coid, jobj) dict" where
  "rows_by_coid [] d = Inr d"
| "rows_by_coid (JObj r # rows) d = rows_by_coid rows (dset (text_or_empty ''clientOrderId'' r) r d)"
| "rows_by_coid (_ # rows) d = Inl AttributeError"

definition resolve_order :: "(coid, jobj) dict \<Rightarrow> oms_order \<Rightarrow> venue_sync \<Rightarrow> venue_sync" where
  "resolve_order by_coid o1 s =
     (case dget by_coid (o_coid o1) of
        None \<Rightarrow> s
      | Some row \<Rightarrow>
          (case venue_terminal_status (upper (py_str (jget (JStr []) ''status'' row))) of
             None \<Rightarrow> s\<lparr>vs_gone := dpop (o_coid o1) (vs_gone s)\<rparr>
           | Some st \<Rightarrow>
               (let executed = (case py_decimal (jget (JStr ''0'') ''executedQty'' row) of
                                  Inl _ \<Rightarrow> None | Inr d \<Rightarrow> Some d)
                in s\<lparr>vs_oms := terminalize_from_venue (o_id o1) st executed (vs_oms s),
                     vs_gone := dpop (o_coid o1) (vs_gone s)\<rparr>)))"

fun resolve_gone_orders :: "oms_order list \<Rightarrow> venue_sync \<Rightarrow> venue_sync \<times> (py_error + unit)" where
  "resolve_gone_orders [] s = (s, Inr ())"
| "resolve_gone_orders (o1 # os) s =
     (case fetch_recent_orders (wire_symbol (o_instrument o1) (vs_symbols s)) s of
        (s1, None) \<Rightarrow> (s1, Inr ())
      | (s1, Some rows) \<Rightarrow>
          (case rows_by_coid rows [] of
             Inl e \<Rightarrow> (s1, Inl e)
           | Inr by_coid \<Rightarrow> (fold (resolve_order by_coid) (o1 # os) s1, Inr ())))"

fun resolve_buckets :: "oms_order list list \<Rightarrow> venue_sync \<Rightarrow> venue_sync \<times> (py_error + unit)" where
  "resolve_buckets [] s = (s, Inr ())"
| "resolve_buckets (os # rest) s =
     (case resolve_gone_orders os s of
        (s1, Inl e) \<Rightarrow> (s1, Inl e)
      | (s1, Inr _) \<Rightarrow> resolve_buckets rest s1)"

definition terminalize_gone_orders ::
    "coid list \<Rightarrow> string list \<Rightarrow> venue_sync \<Rightarrow> venue_sync \<times> (py_error + unit)" where
  "terminalize_gone_orders seen fetched s =
     (let sc = fold (scan_order seen fetched) (open_orders (vs_oms s))
                 \<lparr>gs_gone = vs_gone s, gs_live = [], gs_bucket = []\<rparr>;
          open_coids = map o_coid (open_orders (vs_oms s))
      in resolve_buckets (dvals (gs_bucket sc))
           (s\<lparr>vs_gone := prune_gone (gs_live sc) open_coids (gs_gone sc)\<rparr>))"

definition resync_once :: "venue_sync \<Rightarrow> venue_sync \<times> (py_error + unit)" where
  "resync_once s =
     (case adopt_open_orders (vs_tracked s) [] [] s of
        (s1, Inl e) \<Rightarrow> (s1, Inl e)
      | (s1, Inr (seen, fetched)) \<Rightarrow>
          (case terminalize_gone_orders seen fetched s1 of
             (s2, Inl e) \<Rightarrow> (s2, Inl e)
           | (s2, Inr _) \<Rightarrow> publish_venue_positions s2))"

end
