(* ===== verification/Binance_Gateway.thy ===== *)
theory Binance_Gateway
  imports Binance_Rest Event_Bus "HOL-Library.Sublist"
begin

text \<open>
  \<open>order_gateways/binance/order_gateway.py\<close>: orders, cancels and amends as REST calls and the events
  their outcomes become. A handler waits for its calls and the bus runs it to its end before the
  next one, so it is one function; the clock may move while it waits, and is therefore read as a
  function of the number of HTTP requests sent. An exception that the code catches is a branch, one
  that it does not catch is the handler's result. \<open>bn_sent\<close> records what was published and whether
  the bus took it; the bus is not stopped while the gateway runs. The venue's error code, which only
  the event log prints, is not a field of the rejection.
\<close>

record binance_gateway =
  bn_bus :: async_bus
  bn_clock :: "nat \<Rightarrow> timestamp"
  bn_symbols :: symbol_mapper
  bn_rest :: rest_client
  bn_exchange_ids :: "(uuid, string) dict"
  bn_internal :: "(coid, uuid) dict"
  bn_sides :: "(coid, string) dict"
  bn_started :: bool
  bn_dropped :: nat
  bn_sent :: "(topic \<times> event \<times> bool) list"

definition binance_init ::
    "async_bus \<Rightarrow> (nat \<Rightarrow> timestamp) \<Rightarrow> symbol_mapper \<Rightarrow> rest_client \<Rightarrow> binance_gateway" where
  "binance_init b clk sm rc =
     \<lparr>bn_bus = b, bn_clock = clk, bn_symbols = sm, bn_rest = rc, bn_exchange_ids = [], bn_internal = [],
      bn_sides = [], bn_started = False, bn_dropped = 0, bn_sent = []\<rparr>"

definition binance_venue :: string where
  "binance_venue = ''BINANCE''"

definition bn_now :: "binance_gateway \<Rightarrow> timestamp" where
  "bn_now g = bn_clock g (length (rc_log (bn_rest g)))"

definition bn_call ::
    "string \<Rightarrow> string \<Rightarrow> jobj \<Rightarrow> binance_gateway \<Rightarrow> binance_gateway \<times> (venue_exn + json)" where
  "bn_call method endpoint params g =
     (case rest_request method (api_prefix (bn_rest g) @ endpoint) params True (bn_rest g) of
        (rc, r) \<Rightarrow> (g\<lparr>bn_rest := rc\<rparr>, r))"

subsection \<open>Publishing\<close>

definition bn_publish :: "event \<Rightarrow> binance_gateway \<Rightarrow> binance_gateway" where
  "bn_publish e g =
     (case publish ORDERS e (bn_bus g) of
        (b, r) \<Rightarrow>
          (let g1 = g\<lparr>bn_bus := b, bn_sent := bn_sent g @ [(ORDERS, e, r = Inr ())]\<rparr>
           in if r = Inr () then g1 else g1\<lparr>bn_dropped := bn_dropped g1 + 1\<rparr>))"

definition bn_response :: "uuid \<Rightarrow> coid \<Rightarrow> string \<Rightarrow> binance_gateway \<Rightarrow> order_response" where
  "bn_response i c reason g =
     \<lparr>ts_event = bn_now g, ts_ingest = bn_now g, source = binance_venue, re_order_id = i, re_coid = c,
      re_reason = reason\<rparr>"

definition publish_ack :: "order_request \<Rightarrow> string \<Rightarrow> binance_gateway \<Rightarrow> binance_gateway" where
  "publish_ack req xid g =
     bn_publish (EvAck \<lparr>ts_event = bn_now g, ts_ingest = bn_now g, source = binance_venue,
       re_order_id = rq_order_id req, re_coid = rq_coid req, re_reason = [], ak_exchange_id = xid\<rparr>) g"

definition publish_reject :: "order_request \<Rightarrow> string \<Rightarrow> binance_gateway \<Rightarrow> binance_gateway" where
  "publish_reject req reason g =
     bn_publish (EvRejected (bn_response (rq_order_id req) (rq_coid req) reason g)) g"

definition publish_cancel_rejected :: "cancel_request \<Rightarrow> string \<Rightarrow> binance_gateway \<Rightarrow> binance_gateway" where
  "publish_cancel_rejected req reason g =
     bn_publish (EvCancelRejected (bn_response (cr_order_id req) (cr_coid req) reason g)) g"

definition publish_amend_reject :: "amend_request \<Rightarrow> string \<Rightarrow> binance_gateway \<Rightarrow> binance_gateway" where
  "publish_amend_reject req reason g =
     bn_publish (EvAmendRejected (bn_response (ar_order_id req) (ar_coid req) (''amend failed: '' @ reason) g)) g"

text \<open>The \<open>OrderCancelled\<close> that several branches publish.\<close>

definition publish_cancelled :: "uuid \<Rightarrow> coid \<Rightarrow> string \<Rightarrow> binance_gateway \<Rightarrow> binance_gateway" where
  "publish_cancelled i c reason g = bn_publish (EvCancelled (bn_response i c reason g)) g"

subsection \<open>New orders\<close>

text \<open>Market and post-only spot orders carry no time in force.\<close>

definition build_order_params :: "order_request \<Rightarrow> binance_gateway \<Rightarrow> venue_exn + jobj" where
  "build_order_params req g =
     (case order_type_to_binance (rq_type req) (rq_tif req) (rc_futures (bn_rest g)) of
        (ty, tif) \<Rightarrow>
          (let base = [(''symbol'', JStr (wire_symbol (rq_instrument req) (bn_symbols g))),
                       (''side'', JStr (side_to_binance (rq_side req))), (''type'', JStr ty),
                       (''quantity'', JStr (format_decimal (rq_quantity req))),
                       (''newClientOrderId'', JStr (rq_coid req)), (''newOrderRespType'', JStr ''ACK'')];
               rest = (case rq_price req of
                         Some p \<Rightarrow> if ty \<noteq> ''MARKET'' then [(''price'', JStr (format_decimal p))] else []
                       | None \<Rightarrow> [])
                    @ (case rq_stop_price req of
                         Some p \<Rightarrow> [(''stopPrice'', JStr (format_decimal p))] | None \<Rightarrow> [])
           in if ty \<in> {''MARKET'', ''LIMIT_MAKER''} then Inr (base @ rest)
              else case tif_to_binance tif of
                     Inl e \<Rightarrow> Inl e
                   | Inr t \<Rightarrow> Inr (base @ (''timeInForce'', JStr t) # rest)))"

text \<open>\<open>resp["orderId"]\<close>\<close>

definition json_item :: "string \<Rightarrow> json \<Rightarrow> py_error + json" where
  "json_item k j = (case j of JObj d \<Rightarrow> jitem k d | _ \<Rightarrow> Inl TypeError)"

definition handle_new :: "order_request \<Rightarrow> binance_gateway \<Rightarrow> binance_gateway \<times> (venue_exn + unit)" where
  "handle_new req g =
     (if i_exchange (rq_instrument req) \<noteq> binance_venue then (g, Inr ())
      else
        case build_order_params req g of
          Inl (OrderErr m c b) \<Rightarrow> (publish_reject req (''order translation failed: '' @ m) g, Inr ())
        | Inl e \<Rightarrow> (g, Inl e)
        | Inr params \<Rightarrow>
            (case bn_call ''POST'' ''/order'' params g of
               (g1, Inl (OrderErr m c b)) \<Rightarrow> (publish_reject req m g1, Inr ())
             | (g1, Inl e) \<Rightarrow>
                 if is_gateway_error e
                 then (publish_reject req (''order_gateway error: '' @ exn_message e) g1, Inr ())
                 else (g1, Inl e)
             | (g1, Inr resp) \<Rightarrow>
                 (case json_item ''orderId'' resp of
                    Inl e \<Rightarrow> (g1, Inl (PyExn e))
                  | Inr j \<Rightarrow>
                      (let xid = py_str j;
                           g2 = g1\<lparr>bn_exchange_ids := dset (rq_order_id req) xid (bn_exchange_ids g1),
                                   bn_internal := dset (rq_coid req) (rq_order_id req) (bn_internal g1),
                                   bn_sides := dset (rq_coid req) (side_to_binance (rq_side req)) (bn_sides g1)\<rparr>
                       in (publish_ack req xid g2, Inr ())))))"

subsection \<open>Cancels\<close>

definition order_gone_codes :: "int option list" where
  "order_gone_codes = [Some (- 2011), Some (- 2013)]"

definition cancel_params :: "instrument \<Rightarrow> coid \<Rightarrow> binance_gateway \<Rightarrow> jobj" where
  "cancel_params ins c g =
     [(''symbol'', JStr (wire_symbol ins (bn_symbols g))), (''origClientOrderId'', JStr c)]"

definition bn_handle_cancel :: "cancel_request \<Rightarrow> binance_gateway \<Rightarrow> binance_gateway \<times> (venue_exn + unit)" where
  "bn_handle_cancel req g =
     (if i_exchange (cr_instrument req) \<noteq> binance_venue then (g, Inr ())
      else
        case bn_call ''DELETE'' ''/order'' (cancel_params (cr_instrument req) (cr_coid req) g) g of
          (g1, Inl (OrderErr m c b)) \<Rightarrow>
            if c \<in> set order_gone_codes
            then (publish_cancelled (cr_order_id req) (cr_coid req) (''cancel revealed order gone: '' @ m) g1, Inr ())
            else (publish_cancel_rejected req m g1, Inr ())
        | (g1, Inl e) \<Rightarrow>
            if is_gateway_error e
            then (publish_cancel_rejected req (''transport error: '' @ exn_message e) g1, Inr ())
            else (g1, Inl e)
        | (g1, Inr _) \<Rightarrow> (g1, Inr ()))"

subsection \<open>Amends\<close>

text \<open>\<open>_cancel_then_terminalize\<close>\<close>

definition cancel_then_terminalize ::
    "amend_request \<Rightarrow> string \<Rightarrow> binance_gateway \<Rightarrow> binance_gateway \<times> (venue_exn + unit)" where
  "cancel_then_terminalize req why g =
     (let cancelled = publish_cancelled (ar_order_id req) (ar_coid req) why
      in case bn_call ''DELETE'' ''/order'' (cancel_params (ar_instrument req) (ar_coid req) g) g of
           (g1, Inl (OrderErr m c b)) \<Rightarrow>
             if c \<notin> set order_gone_codes
             then (publish_amend_reject req (''modify-limit cancel failed: '' @ m) g1, Inr ())
             else (cancelled g1, Inr ())
         | (g1, Inl e) \<Rightarrow>
             if is_gateway_error e
             then (publish_amend_reject req (''modify-limit cancel transport error: '' @ exn_message e) g1, Inr ())
             else (g1, Inl e)
         | (g1, Inr _) \<Rightarrow> (cancelled g1, Inr ()))"

text \<open>\<open>value not in (None, "", "0", "0.0")\<close>, and the venue's figure or else the requested one.\<close>

definition is_reported :: "json \<Rightarrow> bool" where
  "is_reported j \<longleftrightarrow> (case j of JNull \<Rightarrow> False | JStr s \<Rightarrow> s \<notin> {[], ''0'', ''0.0''} | _ \<Rightarrow> True)"

definition applied_figure :: "json \<Rightarrow> dec option \<Rightarrow> py_error + dec option" where
  "applied_figure j requested =
     (if is_reported j then (case py_decimal j of Inl e \<Rightarrow> Inl e | Inr d \<Rightarrow> Inr (Some d))
      else Inr requested)"

definition amend_response :: "amend_request \<Rightarrow> json \<Rightarrow> binance_gateway \<Rightarrow> binance_gateway \<times> (venue_exn + unit)" where
  "amend_response req resp g =
     (case resp of
        JObj d \<Rightarrow>
          (let status = upper (py_str (jget (JStr []) ''status'' d))
           in if status \<in> {''CANCELED'', ''EXPIRED'', ''REJECTED''}
              then (publish_cancelled (ar_order_id req) (ar_coid req)
                      (''amend cancelled order: venue status '' @ status) g, Inr ())
              else
                case (applied_figure (jget JNull ''price'' d) (ar_new_price req),
                      applied_figure (jget JNull ''origQty'' d) (ar_new_quantity req)) of
                  (Inr p, Inr q) \<Rightarrow>
                    (bn_publish (EvAmended \<lparr>ts_event = bn_now g, ts_ingest = bn_now g, source = binance_venue,
                       re_order_id = ar_order_id req, re_coid = ar_coid req, re_reason = [],
                       am_new_price = p, am_new_quantity = q,
                       am_new_exchange_id = map_option py_str (dget d ''orderId'')\<rparr>) g, Inr ())
                | (Inl e, _) \<Rightarrow> (g, Inl (PyExn e))
                | (_, Inl e) \<Rightarrow> (g, Inl (PyExn e)))
      | JArr _ \<Rightarrow> (g, Inl (PyExn AttributeError))
      | JStr w \<Rightarrow> (g, Inl (PyExn (if sublist ''orderId'' w then TypeError else AttributeError)))
      | _ \<Rightarrow> (g, Inl (PyExn TypeError)))"

definition amend_params :: "amend_request \<Rightarrow> string \<Rightarrow> binance_gateway \<Rightarrow> jobj" where
  "amend_params req sd g =
     [(''symbol'', JStr (wire_symbol (ar_instrument req) (bn_symbols g))), (''side'', JStr sd),
      (''origClientOrderId'', JStr (ar_coid req))]
     @ (case ar_new_price req of None \<Rightarrow> [] | Some p \<Rightarrow> [(''price'', JStr (format_decimal p))])
     @ (case ar_new_quantity req of None \<Rightarrow> [] | Some q \<Rightarrow> [(''quantity'', JStr (format_decimal q))])"

definition handle_amend_futures :: "amend_request \<Rightarrow> binance_gateway \<Rightarrow> binance_gateway \<times> (venue_exn + unit)" where
  "handle_amend_futures req g =
     (let sd = (case dget (bn_sides g) (ar_coid req) of Some w \<Rightarrow> w | None \<Rightarrow> side_to_binance (ar_side req));
          g0 = g\<lparr>bn_sides := dset (ar_coid req) sd (bn_sides g)\<rparr>
      in case bn_call ''PUT'' ''/order'' (amend_params req sd g0) g0 of
           (g1, Inl (OrderErr m c b)) \<Rightarrow>
             if c = Some amend_noop then (g1, Inr ())
             else if c = Some (- 2013)
             then (publish_cancelled (ar_order_id req) (ar_coid req) (''amend revealed order gone: '' @ m) g1, Inr ())
             else if c = Some amend_modify_limit
             then cancel_then_terminalize req (''amend modify-limit exhausted: '' @ m) g1
             else (publish_amend_reject req m g1, Inr ())
         | (g1, Inl e) \<Rightarrow>
             if is_gateway_error e
             then (publish_amend_reject req (''transport error: '' @ exn_message e) g1, Inr ())
             else (g1, Inl e)
         | (g1, Inr resp) \<Rightarrow> amend_response req resp g1)"

definition handle_amend_spot :: "amend_request \<Rightarrow> binance_gateway \<Rightarrow> binance_gateway \<times> (venue_exn + unit)" where
  "handle_amend_spot req g =
     (case bn_call ''DELETE'' ''/order'' (cancel_params (ar_instrument req) (ar_coid req) g) g of
        (g1, Inl (OrderErr m c b)) \<Rightarrow>
          (publish_cancelled (ar_order_id req) (ar_coid req) (''amend revealed order gone: '' @ m) g1, Inr ())
      | (g1, Inl e) \<Rightarrow>
          if is_gateway_error e
          then (publish_amend_reject req (''transport error: '' @ exn_message e) g1, Inr ())
          else (g1, Inl e)
      | (g1, Inr _) \<Rightarrow> (publish_cancelled (ar_order_id req) (ar_coid req) [] g1, Inr ()))"

definition bn_handle_amend :: "amend_request \<Rightarrow> binance_gateway \<Rightarrow> binance_gateway \<times> (venue_exn + unit)" where
  "bn_handle_amend req g =
     (if i_exchange (ar_instrument req) \<noteq> binance_venue then (g, Inr ())
      else if rc_futures (bn_rest g) then handle_amend_futures req g
      else handle_amend_spot req g)"

definition bn_on_order_event :: "event \<Rightarrow> binance_gateway \<Rightarrow> binance_gateway \<times> (venue_exn + unit)" where
  "bn_on_order_event e g =
     (case e of
        EvOrderRequest req \<Rightarrow> handle_new req g
      | EvCancelRequest req \<Rightarrow> bn_handle_cancel req g
      | EvAmendRequest req \<Rightarrow> bn_handle_amend req g
      | _ \<Rightarrow> (g, Inr ()))"

subsection \<open>Life cycle and the orders of an earlier session\<close>

definition bn_start :: "binance_gateway \<Rightarrow> binance_gateway \<times> (venue_exn + unit)" where
  "bn_start g =
     (if bn_started g then (g, Inr ())
      else case rest_connect (bn_rest g) of (rc, r) \<Rightarrow> (g\<lparr>bn_started := True, bn_rest := rc\<rparr>, r))"

definition bn_stop :: "binance_gateway \<Rightarrow> binance_gateway" where
  "bn_stop g = (if bn_started g then g\<lparr>bn_started := False, bn_rest := rest_close (bn_rest g)\<rparr> else g)"

fun cancel_stale_list ::
    "string \<Rightarrow> json list \<Rightarrow> nat \<Rightarrow> binance_gateway \<Rightarrow> binance_gateway \<times> (venue_exn + nat)" where
  "cancel_stale_list wire [] count g = (g, Inr count)"
| "cancel_stale_list wire (JObj d # os) count g =
     (case bn_call ''DELETE'' ''/order'' [(''symbol'', JStr wire), (''orderId'', jget JNull ''orderId'' d)] g of
        (g1, Inl _) \<Rightarrow> cancel_stale_list wire os count g1
      | (g1, Inr _) \<Rightarrow> cancel_stale_list wire os (Suc count) g1)"
| "cancel_stale_list wire (_ # os) count g = (g, Inl (PyExn AttributeError))"

fun cancel_stale_symbols ::
    "string list \<Rightarrow> nat \<Rightarrow> binance_gateway \<Rightarrow> binance_gateway \<times> (venue_exn + nat)" where
  "cancel_stale_symbols [] count g = (g, Inr count)"
| "cancel_stale_symbols (wire # ws) count g =
     (case bn_call ''GET'' ''/openOrders'' [(''symbol'', JStr wire)] g of
        (g1, Inl _) \<Rightarrow> cancel_stale_symbols ws count g1
      | (g1, Inr orders) \<Rightarrow>
          (case json_iter orders of
             Inl e \<Rightarrow> (g1, Inl (PyExn e))
           | Inr os \<Rightarrow>
               (case cancel_stale_list wire os count g1 of
                  (g2, Inl e) \<Rightarrow> (g2, Inl e)
                | (g2, Inr n) \<Rightarrow> cancel_stale_symbols ws n g2)))"

definition cancel_stale_orders :: "binance_gateway \<Rightarrow> binance_gateway \<times> (venue_exn + nat)" where
  "cancel_stale_orders g = cancel_stale_symbols (all_wire_symbols (bn_symbols g)) 0 g"

definition binance_snapshot :: "binance_gateway \<Rightarrow> string \<times> nat \<times> string list" where
  "binance_snapshot g = (binance_venue, bn_dropped g, all_wire_symbols (bn_symbols g))"

end
