(* ===== verification/Binance_Properties.thy ===== *)
theory Binance_Properties
  imports Binance_Gateway OMS_Properties
begin

text \<open>
  What the Binance gateway promises the OMS. First the REST client: what a request can put on the
  wire. Then every handler: the one event it answers with, and where that event leaves the order
  of the OMS that waits for it.
\<close>

subsection \<open>What a request sends\<close>

lemma rest_send_log:
  "rest_send rq c = (c', r) \<Longrightarrow> c' = c\<lparr>rc_log := rc_log c @ [rq]\<rparr>"
  by (auto simp: rest_send_def Let_def split: http_reply.splits if_splits sum.splits)

lemma read_wall_log:
  "read_wall c = (t, c') \<Longrightarrow> c' = c\<lparr>rc_reads := Suc (rc_reads c)\<rparr>"
  by (auto simp: read_wall_def)

definition same_client :: "rest_client \<Rightarrow> rest_client \<Rightarrow> bool" where
  "same_client c c' \<longleftrightarrow> rc_connected c' = rc_connected c \<and> rc_futures c' = rc_futures c \<and> rc_http c' = rc_http c"

text \<open>\<open>copies\<close>: the requests of a log that are for this call, whatever time and signature they carry.\<close>

definition is_copy :: "string \<Rightarrow> string \<Rightarrow> jobj \<Rightarrow> http_request \<Rightarrow> bool" where
  "is_copy method path params rq \<longleftrightarrow>
     hq_method rq = method \<and> hq_path rq = path \<and>
     (\<forall>k. k \<notin> {''timestamp'', ''recvWindow'', ''signature''} \<longrightarrow> dget (hq_params rq) k = dget params k)"

lemma build_copy:
  "rest_build method path params signed c = (c', Inr rq) \<Longrightarrow>
    is_copy method path params rq \<and> rc_log c' = rc_log c \<and> same_client c c'"
  by (auto simp: rest_build_def is_copy_def same_client_def Let_def read_wall_def split: if_splits)

lemma build_error:
  "rest_build method path params signed c = (c', Inl e) \<Longrightarrow> c' = c \<and> \<not> is_timestamp_error e"
  by (auto simp: rest_build_def Let_def read_wall_def split: if_splits)

lemma build_and_send_log:
  assumes "build_and_send method path params signed c = (c', r)"
  shows "same_client c c' \<and>
    (\<exists>rqs. rc_log c' = rc_log c @ rqs \<and> length rqs \<le> 1 \<and> list_all (is_copy method path params) rqs \<and>
       (rqs = [] \<longrightarrow> (\<exists>e. r = Inl e \<and> \<not> is_timestamp_error e)))"
proof (cases "rest_build method path params signed c")
  case (Pair c1 b)
  show ?thesis
  proof (cases b)
    case (Inl e)
    with assms Pair have "rest_build method path params signed c = (c', Inl e)" "r = Inl e"
      by (simp_all add: build_and_send_def)
    with build_error [OF this(1)] show ?thesis by (simp add: same_client_def)
  next
    case (Inr rq)
    with build_copy Pair have c: "is_copy method path params rq" "rc_log c1 = rc_log c" "same_client c c1" by auto
    from assms Pair Inr have "rest_send rq c1 = (c', r)" by (simp add: build_and_send_def)
    from rest_send_log [OF this] c show ?thesis by (auto simp: same_client_def)
  qed
qed

lemma sync_log:
  assumes "sync_server_time initial c = (c', r)"
  shows "same_client c c' \<and> (\<exists>rq. rc_log c' = rc_log c @ [rq] \<and> hq_method rq = ''GET'' \<and> hq_path rq = api_prefix c @ ''/time'')"
proof -
  obtain c2 d where d: "rest_send \<lparr>hq_method = ''GET'', hq_path = api_prefix c @ ''/time'', hq_params = [], hq_keyed = False\<rparr>
      (snd (read_wall c)) = (c2, d)" by force
  from rest_send_log [OF this] have "c2 = (snd (read_wall c))\<lparr>rc_log := rc_log c @
      [\<lparr>hq_method = ''GET'', hq_path = api_prefix c @ ''/time'', hq_params = [], hq_keyed = False\<rparr>]\<rparr>"
    by (simp add: read_wall_def)
  with assms d show ?thesis
    by (auto simp: sync_server_time_def same_client_def read_wall_def Let_def split: sum.splits if_splits)
qed


lemma timestamp_reply:
  assumes "build_and_send method path params signed c = (c', Inl e)" and "is_timestamp_error e"
  shows "\<exists>rq st p ra err. rc_log c' = rc_log c @ [rq] \<and> is_copy method path params rq \<and>
    rc_http c (rc_log c') = JsonReply st (JObj p) ra \<and> 400 \<le> st \<and>
    from_payload p st = Inr err \<and> er_code err = invalid_timestamp_code"
proof -
  from assms build_error obtain c1 rq where b: "rest_build method path params signed c = (c1, Inr rq)"
    "rest_send rq c1 = (c', Inl e)"
    by (fastforce simp: build_and_send_def split: prod.splits sum.splits)
  from build_copy [OF b(1)] have c: "is_copy method path params rq" "rc_log c1 = rc_log c" "rc_http c1 = rc_http c"
    by (auto simp: same_client_def)
  have l: "rc_log c' = rc_log c @ [rq]" using rest_send_log [OF b(2)] c(2) by simp
  obtain st p ra err where "rc_http c (rc_log c @ [rq]) = JsonReply st p ra" "400 \<le> st"
    "from_payload (case p of JObj d \<Rightarrow> d | _ \<Rightarrow> []) st = Inr err" "e = translate_error err ra"
    using b(2) assms(2) c
    by (auto simp: rest_send_def Let_def split: http_reply.splits if_splits sum.splits)
  moreover from this assms(2) have e: "er_code err = invalid_timestamp_code"
    by (auto simp: translate_error_def split: if_splits)
  moreover from calculation have "\<exists>d. p = JObj d"
    by (cases p) (auto simp: from_payload_def jget_def invalid_timestamp_code_def)
  ultimately show ?thesis using l c(1) by auto
qed


subsection \<open>Every request of the OMS is answered\<close>

lemma bn_publish_sent: "\<exists>ok. bn_sent (bn_publish e g) = bn_sent g @ [(ORDERS, e, ok)]"
  by (auto simp: bn_publish_def Let_def split: prod.splits)

lemma bn_call_sent [simp]: "bn_call m p ps g = (g1, r) \<Longrightarrow> bn_sent g1 = bn_sent g"
  by (auto simp: bn_call_def split: prod.splits)

text \<open>Exactly one event was published between two states, and it satisfies a predicate.\<close>

definition answered :: "(event \<Rightarrow> bool) \<Rightarrow> binance_gateway \<Rightarrow> binance_gateway \<Rightarrow> bool" where
  "answered P g g' \<longleftrightarrow> (\<exists>e ok. bn_sent g' = bn_sent g @ [(ORDERS, e, ok)] \<and> P e)"

lemma answered_publish: "P e \<Longrightarrow> bn_sent h = bn_sent g \<Longrightarrow> answered P g (bn_publish e h)"
  using bn_publish_sent [of e h] by (auto simp: answered_def)

fun answers_new :: "uuid \<Rightarrow> event \<Rightarrow> bool" where
  "answers_new i (EvAck a) = (re_order_id a = i)"
| "answers_new i (EvRejected r) = (re_order_id r = i)"
| "answers_new i _ = False"

fun answers_cancel :: "uuid \<Rightarrow> event \<Rightarrow> bool" where
  "answers_cancel i (EvCancelled r) = (re_order_id r = i)"
| "answers_cancel i (EvCancelRejected r) = (re_order_id r = i)"
| "answers_cancel i _ = False"

fun answers_amend :: "uuid \<Rightarrow> event \<Rightarrow> bool" where
  "answers_amend i (EvCancelled r) = (re_order_id r = i)"
| "answers_amend i (EvAmendRejected r) = (re_order_id r = i)"
| "answers_amend i (EvAmended a) = (re_order_id a = i)"
| "answers_amend i _ = False"

lemmas answer_defs = publish_ack_def publish_reject_def publish_cancel_rejected_def
  publish_amend_reject_def publish_cancelled_def bn_response_def

lemma handle_new_answered:
  assumes "handle_new req g = (g', Inr ())" and "i_exchange (rq_instrument req) = binance_venue"
  shows "answered (answers_new (rq_order_id req)) g g'"
  using assms
  by (auto simp: handle_new_def answer_defs Let_def split: sum.splits venue_exn.splits prod.splits if_splits
      intro!: answered_publish)

lemma handle_cancel_answered:
  assumes "bn_handle_cancel req g = (g', Inr ())" and "i_exchange (cr_instrument req) = binance_venue"
  shows "answered (answers_cancel (cr_order_id req)) g g' \<or>
    bn_sent g' = bn_sent g \<and>
    (\<exists>j. snd (bn_call ''DELETE'' ''/order'' (cancel_params (cr_instrument req) (cr_coid req) g) g) = Inr j)"
  using assms
  by (auto simp: bn_handle_cancel_def answer_defs split: sum.splits venue_exn.splits prod.splits if_splits
      intro!: answered_publish)

lemma spot_amend_answered:
  assumes "handle_amend_spot req g = (g', Inr ())"
  shows "answered (answers_amend (ar_order_id req)) g g'"
  using assms
  by (auto simp: handle_amend_spot_def answer_defs split: sum.splits venue_exn.splits prod.splits if_splits
      intro!: answered_publish)

lemma terminalize_answered:
  assumes "cancel_then_terminalize req why h = (g', Inr ())" and "bn_sent h = bn_sent g"
  shows "answered (answers_amend (ar_order_id req)) g g'"
  using assms
  by (auto simp: cancel_then_terminalize_def answer_defs Let_def split: sum.splits venue_exn.splits prod.splits if_splits
      intro!: answered_publish)

lemma response_answered:
  assumes "amend_response req resp h = (g', Inr ())" and "bn_sent h = bn_sent g"
  shows "answered (answers_amend (ar_order_id req)) g g'"
  using assms
  by (auto simp: amend_response_def answer_defs Let_def split: json.splits sum.splits prod.splits if_splits
      intro!: answered_publish)

definition amend_call :: "amend_request \<Rightarrow> binance_gateway \<Rightarrow> binance_gateway \<times> (venue_exn + json)" where
  "amend_call req g =
     (let sd = (case dget (bn_sides g) (ar_coid req) of Some w \<Rightarrow> w | None \<Rightarrow> side_to_binance (ar_side req));
          g0 = g\<lparr>bn_sides := dset (ar_coid req) sd (bn_sides g)\<rparr>
      in bn_call ''PUT'' ''/order'' (amend_params req sd g0) g0)"

lemma amend_call_sent: "amend_call req g = (g1, r) \<Longrightarrow> bn_sent g1 = bn_sent g"
  unfolding amend_call_def Let_def by (drule bn_call_sent) simp

definition amend_outcome ::
    "amend_request \<Rightarrow> binance_gateway \<times> (venue_exn + json) \<Rightarrow> binance_gateway \<times> (venue_exn + unit)" where
  "amend_outcome req gr =
     (case gr of
        (g1, Inr resp) \<Rightarrow> amend_response req resp g1
      | (g1, Inl (OrderErr m c b)) \<Rightarrow>
          if c = Some amend_noop then (g1, Inr ())
          else if c = Some (- 2013)
          then (publish_cancelled (ar_order_id req) (ar_coid req) (''amend revealed order gone: '' @ m) g1, Inr ())
          else if c = Some amend_modify_limit
          then cancel_then_terminalize req (''amend modify-limit exhausted: '' @ m) g1
          else (publish_amend_reject req m g1, Inr ())
      | (g1, Inl e) \<Rightarrow>
          if is_gateway_error e
          then (publish_amend_reject req (''transport error: '' @ exn_message e) g1, Inr ())
          else (g1, Inl e))"

lemma handle_amend_futures_eq: "handle_amend_futures req g = amend_outcome req (amend_call req g)"
  unfolding handle_amend_futures_def amend_outcome_def amend_call_def Let_def
  by (auto split: prod.split sum.split venue_exn.split)

lemma futures_amend_answered:
  assumes "handle_amend_futures req g = (g', Inr ())"
  shows "answered (answers_amend (ar_order_id req)) g g' \<or>
    bn_sent g' = bn_sent g \<and> (\<exists>m b. snd (amend_call req g) = Inl (OrderErr m (Some amend_noop) b))"
proof -
  obtain g1 r where c: "amend_call req g = (g1, r)" by force
  note s = amend_call_sent [OF c]
  have o: "amend_outcome req (g1, r) = (g', Inr ())" using assms by (simp add: handle_amend_futures_eq c)
  consider resp where "r = Inr resp" | m c' b where "r = Inl (OrderErr m c' b)"
    | e where "r = Inl e" "\<forall>m c' b. e \<noteq> OrderErr m c' b"
    by (metis sum.exhaust)
  then show ?thesis
  proof cases
    case 1
    with o s show ?thesis by (auto simp: amend_outcome_def intro: response_answered)
  next
    case 2
    with o s c show ?thesis
      by (auto simp: amend_outcome_def publish_cancelled_def publish_amend_reject_def bn_response_def
          split: if_splits intro: answered_publish terminalize_answered)
  next
    case 3
    with o s show ?thesis
      by (cases e) (auto simp: amend_outcome_def publish_amend_reject_def bn_response_def
          intro!: answered_publish)
  qed
qed

subsection \<open>Where the answers leave the order\<close>

lemma get_open_orders [simp]: "get_order i (publish_open_orders s) = get_order i s"
  by (simp add: publish_open_orders_def)

lemma try_get:
  assumes "get_order i s = Some o1"
  shows "\<exists>o2. get_order i (fst (try_transition i st t s)) = Some o2 \<and>
    o_status o2 = (if validate_transition (Some (o_status o1)) st = Inr () then st else o_status o1)"
  using assms validate_cases [of "Some (o_status o1)" st]
  by (auto simp: try_transition_def transition_to_def split: sum.splits)

lemma try_cases:
  assumes "get_order i s = Some o1" and "try_transition i st t s = (s1, b)"
  shows "\<exists>o2. get_order i s1 = Some o2 \<and>
    o_status o2 = (if validate_transition (Some (o_status o1)) st = Inr () then st else o_status o1)"
  using try_get [OF assms(1), of st t] assms(2) by simp

text \<open>
  An event settles an order: handled by an OMS that holds the order in the status, it takes the
  order to one of the given statuses.
\<close>

definition settles :: "uuid \<Rightarrow> order_status \<Rightarrow> order_status set \<Rightarrow> event \<Rightarrow> bool" where
  "settles i st S e \<longleftrightarrow>
     (\<forall>s o1. get_order i s = Some o1 \<longrightarrow> o_status o1 = st \<longrightarrow>
        (\<exists>o2. get_order i (on_order_event e s) = Some o2 \<and> o_status o2 \<in> S))"

lemma settlesI:
  "(\<And>s o1. get_order i s = Some o1 \<Longrightarrow> o_status o1 = st \<Longrightarrow>
     \<exists>o2. get_order i (on_order_event e s) = Some o2 \<and> o_status o2 \<in> S) \<Longrightarrow> settles i st S e"
  by (simp add: settles_def)

lemma settles_cancelled:
  "re_order_id r = i \<Longrightarrow> CANCELLED \<in> S \<Longrightarrow> \<not> is_terminal st \<Longrightarrow> settles i st S (EvCancelled r)"
proof (rule settlesI)
  fix s o1
  assume a: "re_order_id r = i" "CANCELLED \<in> S" "\<not> is_terminal st" "get_order i s = Some o1" "o_status o1 = st"
  from try_get [OF a(4), of CANCELLED "ts_event r"] a
  show "\<exists>o2. get_order i (on_order_event (EvCancelled r) s) = Some o2 \<and> o_status o2 \<in> S"
    by (auto simp: on_order_event_def handle_cancel_def)
qed

lemma amend_answer_settles: "answers_amend i e \<Longrightarrow> settles i PENDING_AMEND {ACKNOWLEDGED, CANCELLED, FILLED} e"
proof (cases e)
  case (EvAmendRejected r)
  assume i: "answers_amend i e"
  show ?thesis
  proof (rule settlesI)
    fix s o1
    assume a: "get_order i s = Some o1" "o_status o1 = PENDING_AMEND"
    let ?s = "upd_order i (\<lambda>o2. o2\<lparr>o_pending_amend := None\<rparr>) s"
    from a have "get_order i ?s = Some (o1\<lparr>o_pending_amend := None\<rparr>)" by simp
    from try_get [OF this, of FILLED "om_now ?s"] try_get [OF this, of ACKNOWLEDGED "om_now ?s"]
    show "\<exists>o2. get_order i (on_order_event e s) = Some o2 \<and> o_status o2 \<in> {ACKNOWLEDGED, CANCELLED, FILLED}"
      using EvAmendRejected i a
      by (auto simp: on_order_event_def handle_amend_rejected_def Let_def validate_transition_def)
  qed
next
  case (EvAmended b)
  assume i: "answers_amend i e"
  show ?thesis
  proof (rule settlesI)
    fix s o1
    assume a: "get_order i s = Some o1" "o_status o1 = PENDING_AMEND"
    obtain s1 ok where t: "try_transition i ACKNOWLEDGED (ts_event b) s = (s1, ok)" by force
    from try_cases [OF a(1) t] a(2)
    show "\<exists>o2. get_order i (on_order_event e s) = Some o2 \<and> o_status o2 \<in> {ACKNOWLEDGED, CANCELLED, FILLED}"
      using EvAmended i a t
      by (cases ok) (auto simp: on_order_event_def handle_amend_def clear_pending_amend_def commit_amend_def
          validate_transition_def)
  qed
qed (auto intro: settles_cancelled)

lemma cancel_answer_settles: "answers_cancel i e \<Longrightarrow> settles i PENDING_CANCEL {ACKNOWLEDGED, CANCELLED} e"
proof (cases e)
  case (EvCancelRejected r)
  assume i: "answers_cancel i e"
  show ?thesis
  proof (rule settlesI)
    fix s o1
    assume a: "get_order i s = Some o1" "o_status o1 = PENDING_CANCEL"
    from try_get [OF a(1), of ACKNOWLEDGED "ts_event r"] a(2) EvCancelRejected i
    show "\<exists>o2. get_order i (on_order_event e s) = Some o2 \<and> o_status o2 \<in> {ACKNOWLEDGED, CANCELLED}"
      by (auto simp: on_order_event_def handle_cancel_rejected_def validate_transition_def)
  qed
qed (auto intro: settles_cancelled)

lemma new_answer_settles: "answers_new i e \<Longrightarrow> settles i PENDING_NEW {ACKNOWLEDGED, REJECTED} e"
proof (cases e)
  case (EvAck b)
  assume i: "answers_new i e"
  show ?thesis
  proof (rule settlesI)
    fix s o1
    assume a: "get_order i s = Some o1" "o_status o1 = PENDING_NEW"
    obtain s1 ok where t: "try_transition i ACKNOWLEDGED (ts_event b) s = (s1, ok)" by force
    from try_cases [OF a(1) t] a(2) EvAck i t
    show "\<exists>o2. get_order i (on_order_event e s) = Some o2 \<and> o_status o2 \<in> {ACKNOWLEDGED, REJECTED}"
      by (cases ok) (auto simp: on_order_event_def handle_ack_def validate_transition_def)
  qed
next
  case (EvRejected b)
  assume i: "answers_new i e"
  show ?thesis
  proof (rule settlesI)
    fix s o1
    assume a: "get_order i s = Some o1" "o_status o1 = PENDING_NEW"
    obtain s1 ok where t: "try_transition i REJECTED (ts_event b) s = (s1, ok)" by force
    from try_cases [OF a(1) t] a(2) EvRejected i t
    show "\<exists>o2. get_order i (on_order_event e s) = Some o2 \<and> o_status o2 \<in> {ACKNOWLEDGED, REJECTED}"
      by (cases ok) (auto simp: on_order_event_def handle_reject_def validate_transition_def)
  qed
qed auto

lemma answered_mono: "answered P g g' \<Longrightarrow> (\<And>a. P a \<Longrightarrow> Q a) \<Longrightarrow> answered Q g g'"
  by (auto simp: answered_def)

text \<open>
  C9: Every request the gateway handles to its end is answered, and the answer settles the order.
  A new order gets one acknowledgement or rejection; a cancel that the venue refuses or that does
  not get through gets one answer (one that the venue accepts is confirmed by the user data stream);
  an amend gets one answer in every case but one, the futures code -5027 ("no need to modify"). The
  OMS, on that answer, takes the order out of PENDING_NEW, PENDING_CANCEL or PENDING_AMEND.
\<close>

theorem requests_are_answered:
  assumes "bn_on_order_event e g = (g', Inr ())"
  shows "(\<forall>req. e = EvOrderRequest req \<longrightarrow> i_exchange (rq_instrument req) = binance_venue \<longrightarrow>
      answered (settles (rq_order_id req) PENDING_NEW {ACKNOWLEDGED, REJECTED}) g g') \<and>
    (\<forall>req. e = EvCancelRequest req \<longrightarrow> i_exchange (cr_instrument req) = binance_venue \<longrightarrow>
      answered (settles (cr_order_id req) PENDING_CANCEL {ACKNOWLEDGED, CANCELLED}) g g' \<or>
      bn_sent g' = bn_sent g \<and>
      (\<exists>j. snd (bn_call ''DELETE'' ''/order'' (cancel_params (cr_instrument req) (cr_coid req) g) g) = Inr j)) \<and>
    (\<forall>req. e = EvAmendRequest req \<longrightarrow> i_exchange (ar_instrument req) = binance_venue \<longrightarrow>
      answered (settles (ar_order_id req) PENDING_AMEND {ACKNOWLEDGED, CANCELLED, FILLED}) g g' \<or>
      bn_sent g' = bn_sent g \<and> rc_futures (bn_rest g) \<and>
      (\<exists>m b. snd (amend_call req g) = Inl (OrderErr m (Some amend_noop) b)))"
proof (intro conjI allI impI)
  fix req
  assume "e = EvOrderRequest req" "i_exchange (rq_instrument req) = binance_venue"
  with assms have "answered (answers_new (rq_order_id req)) g g'"
    by (auto simp: bn_on_order_event_def intro: handle_new_answered)
  then show "answered (settles (rq_order_id req) PENDING_NEW {ACKNOWLEDGED, REJECTED}) g g'"
    by (rule answered_mono) (rule new_answer_settles)
next
  fix req
  assume "e = EvCancelRequest req" "i_exchange (cr_instrument req) = binance_venue"
  with assms have "bn_handle_cancel req g = (g', Inr ())" "i_exchange (cr_instrument req) = binance_venue"
    by (auto simp: bn_on_order_event_def)
  from handle_cancel_answered [OF this]
  show "answered (settles (cr_order_id req) PENDING_CANCEL {ACKNOWLEDGED, CANCELLED}) g g' \<or>
      bn_sent g' = bn_sent g \<and>
      (\<exists>j. snd (bn_call ''DELETE'' ''/order'' (cancel_params (cr_instrument req) (cr_coid req) g) g) = Inr j)"
    using answered_mono cancel_answer_settles by blast
next
  fix req
  assume "e = EvAmendRequest req" "i_exchange (ar_instrument req) = binance_venue"
  with assms have h: "(if rc_futures (bn_rest g) then handle_amend_futures req g else handle_amend_spot req g) = (g', Inr ())"
    by (simp add: bn_on_order_event_def bn_handle_amend_def)
  show "answered (settles (ar_order_id req) PENDING_AMEND {ACKNOWLEDGED, CANCELLED, FILLED}) g g' \<or>
      bn_sent g' = bn_sent g \<and> rc_futures (bn_rest g) \<and>
      (\<exists>m b. snd (amend_call req g) = Inl (OrderErr m (Some amend_noop) b))"
  proof (cases "rc_futures (bn_rest g)")
    case True
    with h futures_amend_answered [of req g g'] show ?thesis
      using answered_mono amend_answer_settles by (simp only: if_True) blast
  next
    case False
    with h spot_amend_answered [of req g g'] show ?thesis
      using answered_mono amend_answer_settles by (simp only: if_False) blast
  qed
qed

text \<open>
  On a futures account an amend that the venue answers with "no need to modify" is not answered
  at all: no event is published, so the order of the OMS waits in PENDING_AMEND for the timeout
  sweep.
\<close>

theorem amend_noop_unanswered:
  assumes "rc_futures (bn_rest g)" and "i_exchange (ar_instrument req) = binance_venue"
    and "snd (amend_call req g) = Inl (OrderErr m (Some amend_noop) b)"
  shows "\<exists>g'. bn_on_order_event (EvAmendRequest req) g = (g', Inr ()) \<and> bn_sent g' = bn_sent g"
proof -
  obtain g1 where c: "amend_call req g = (g1, Inl (OrderErr m (Some amend_noop) b))"
    using assms(3) by (cases "amend_call req g") auto
  with assms(1,2) amend_call_sent [OF c] show ?thesis
    by (simp add: bn_on_order_event_def bn_handle_amend_def handle_amend_futures_eq amend_outcome_def)
qed

text \<open>A gateway on a venue that answers every request the same way.\<close>

definition sample_rest :: "bool \<Rightarrow> http_reply \<Rightarrow> rest_client" where
  "sample_rest fut reply =
     \<lparr>rc_connected = True, rc_offset = 0, rc_futures = fut, rc_recv_window = 5000, rc_max_drift = 1000,
      rc_creds = True, rc_wall = (\<lambda>n. 1000), rc_reads = 0, rc_sign = (\<lambda>p. ''00''), rc_http = (\<lambda>l. reply),
      rc_log = []\<rparr>"

definition sample_binance :: "bool \<Rightarrow> http_reply \<Rightarrow> binance_gateway" where
  "sample_binance fut reply =
     (binance_init (sample_bus 10 1) (\<lambda>n. 7) (symbol_mapper_init [sample_instrument]) (sample_rest fut reply))
       \<lparr>bn_started := True\<rparr>"

definition refusal :: "int \<Rightarrow> http_reply" where
  "refusal c = JsonReply 400 (JObj [(''code'', JInt c), (''msg'', JStr ''no'')]) None"

definition sample_amend_request :: amend_request where
  "sample_amend_request =
     \<lparr>ts_event = 1, ts_ingest = 1, source = ''oms'', ar_order_id = 7, ar_coid = ''mm-000000000007'',
      ar_instrument = sample_instrument, ar_side = BUY, ar_new_quantity = Some 5, ar_new_price = None\<rparr>"

lemmas sample_call_defs = sample_binance_def sample_rest_def binance_init_def refusal_def bn_call_def
  rest_request_def build_and_send_def rest_build_def read_wall_def rest_send_def from_payload_def jget_def
  translate_error_def is_rate_limited_def is_auth_error_def is_logical_reject_def rate_limit_codes_def
  auth_codes_def logical_reject_codes_def amend_noop_def

lemma sample_instrument_venue [simp]: "i_exchange sample_instrument = binance_venue"
  by (simp add: sample_instrument_def binance_venue_def)

theorem amend_noop_unanswered_witness:
  "\<exists>g'. bn_on_order_event (EvAmendRequest sample_amend_request) (sample_binance True (refusal (- 5027))) = (g', Inr ()) \<and>
     bn_sent g' = []"
proof -
  let ?g = "sample_binance True (refusal (- 5027))"
  have 1: "rc_futures (bn_rest ?g)" "i_exchange (ar_instrument sample_amend_request) = binance_venue"
    by (simp_all add: sample_binance_def binance_init_def sample_rest_def sample_amend_request_def)
  have "\<exists>m b. snd (amend_call sample_amend_request ?g) = Inl (OrderErr m (Some amend_noop) b)"
    by (simp add: amend_call_def Let_def sample_call_defs invalid_timestamp_code_def) blast
  then obtain m b where "snd (amend_call sample_amend_request ?g) = Inl (OrderErr m (Some amend_noop) b)" by blast
  from amend_noop_unanswered [OF 1 this] show ?thesis by (simp add: sample_binance_def binance_init_def)
qed

theorem requests_are_answered_witness:
  "\<exists>e ok. bn_sent (fst (bn_on_order_event (EvAmendRequest sample_amend_request) (sample_binance False (refusal (- 1100))))) =
     [(ORDERS, e, ok)] \<and> settles 7 PENDING_AMEND {ACKNOWLEDGED, CANCELLED, FILLED} e"
proof -
  let ?g = "sample_binance False (refusal (- 1100))"
  obtain g' r where g': "bn_on_order_event (EvAmendRequest sample_amend_request) ?g = (g', r)" by force
  have "r = Inr ()"
    using g' by (auto simp: bn_on_order_event_def bn_handle_amend_def handle_amend_spot_def sample_amend_request_def
        sample_call_defs invalid_timestamp_code_def)
  with g' requests_are_answered [of "EvAmendRequest sample_amend_request" ?g g'] show ?thesis
    by (auto simp: answered_def sample_amend_request_def sample_binance_def binance_init_def sample_rest_def)
qed

text \<open>
  C28: A failed cancel is read in two ways. When the venue refuses to cancel an order with an error
  that does not say the order is gone (a rejected parameter, say), the cancel handler reports the
  cancel as rejected and the order of the OMS goes back to ACKNOWLEDGED; the amend handler of a spot
  account, which sends the same request, reports the order as cancelled, and the OMS gives up an order
  that still rests at the venue.
\<close>

theorem spot_amend_abandons_resting_order:
  assumes "\<not> rc_futures (bn_rest g)" and "i_exchange ins = binance_venue"
    and "snd (bn_call ''DELETE'' ''/order'' (cancel_params ins c g) g) = Inl (OrderErr m code b)"
    and "code \<notin> set order_gone_codes"
    and "cr_instrument cr = ins" "cr_coid cr = c" "ar_instrument ar = ins" "ar_coid ar = c"
  shows "answered (\<lambda>e. \<exists>r. e = EvCancelRejected r \<and> re_order_id r = cr_order_id cr) g
      (fst (bn_on_order_event (EvCancelRequest cr) g)) \<and>
    answered (\<lambda>e. (\<exists>r. e = EvCancelled r) \<and> settles (ar_order_id ar) PENDING_AMEND {CANCELLED} e) g
      (fst (bn_on_order_event (EvAmendRequest ar) g))"
proof -
  obtain g1 where d: "bn_call ''DELETE'' ''/order'' (cancel_params ins c g) g = (g1, Inl (OrderErr m code b))"
    using assms(3) by (cases "bn_call ''DELETE'' ''/order'' (cancel_params ins c g) g") auto
  from assms d bn_call_sent [OF d] show ?thesis
    by (auto simp: bn_on_order_event_def bn_handle_cancel_def bn_handle_amend_def handle_amend_spot_def
        publish_cancel_rejected_def publish_cancelled_def bn_response_def intro!: answered_publish settles_cancelled)
qed

theorem spot_amend_abandons_resting_order_witness:
  "\<exists>e ok. bn_sent (fst (bn_on_order_event (EvAmendRequest sample_amend_request) (sample_binance False (refusal (- 1100))))) =
     [(ORDERS, e, ok)] \<and> settles 7 PENDING_AMEND {CANCELLED} e"
proof -
  let ?g = "sample_binance False (refusal (- 1100))"
  let ?c = "\<lparr>ts_event = 1, ts_ingest = 1, source = ''oms'', cr_order_id = 7, cr_coid = ''mm-000000000007'',
      cr_instrument = sample_instrument\<rparr> :: cancel_request"
  have 1: "\<not> rc_futures (bn_rest ?g)" "i_exchange sample_instrument = binance_venue"
    by (simp_all add: sample_binance_def binance_init_def sample_rest_def)
  have "\<exists>m b. snd (bn_call ''DELETE'' ''/order'' (cancel_params sample_instrument ''mm-000000000007'' ?g) ?g) =
      Inl (OrderErr m (Some (- 1100)) b)"
    by (simp add: sample_call_defs invalid_timestamp_code_def) blast
  then obtain m b where 2: "snd (bn_call ''DELETE'' ''/order'' (cancel_params sample_instrument ''mm-000000000007'' ?g) ?g) =
      Inl (OrderErr m (Some (- 1100)) b)" by blast
  have 3: "Some (- 1100) \<notin> set order_gone_codes" by (simp add: order_gone_codes_def)
  from spot_amend_abandons_resting_order [OF 1 2 3, of ?c sample_amend_request] show ?thesis
    by (auto simp: answered_def sample_amend_request_def sample_binance_def binance_init_def)
qed

end
