(* ===== verification/Venue_Sync_Properties.thy ===== *)
theory Venue_Sync_Properties
  imports Venue_Sync Binance_Properties
begin

text \<open>
  What the synchronization with the venue promises: what is sent in an order is read back when the
  order is adopted, and an order is closed only on what the venue reports about it.
\<close>

subsection \<open>Sending an order and adopting it\<close>

lemma side_round_trip: "side_from_binance (side_to_binance sd) = Inr sd"
  by (cases sd) (simp_all add: side_from_binance_def upper_def)

text \<open>The order type that comes back: two of ours are times in force at the venue.\<close>

fun adopted_type :: "order_type \<Rightarrow> time_in_force \<Rightarrow> order_type" where
  "adopted_type OT_LIMIT TIF_GTX = OT_POST_ONLY"
| "adopted_type OT_IOC tif = OT_LIMIT"
| "adopted_type OT_FOK tif = OT_LIMIT"
| "adopted_type ty tif = ty"

definition sent_tif :: "jobj \<Rightarrow> string" where
  "sent_tif ps = (case dget ps ''timeInForce'' of Some (JStr t) \<Rightarrow> t | _ \<Rightarrow> ''GTC'')"

lemma type_round_trip:
  assumes "order_type_to_binance ty tif fut = (t, f)" and "t \<notin> {''MARKET'', ''LIMIT_MAKER''} \<Longrightarrow> tif_to_binance f = Inr w"
    and "t \<in> {''MARKET'', ''LIMIT_MAKER''} \<Longrightarrow> w = ''GTC''"
  shows "fst (order_type_from_binance t w) = adopted_type ty tif"
  using assms
  by (cases ty; cases tif; cases fut) (auto simp: order_type_from_binance_def upper_def)

text \<open>
  C15: What the gateway sends can be read back. Of the parameters of a new order, the texts of the
  quantity and of the price read as the decimals that were asked for, rounded to the 28 digits of
  the context and without an exponent, the side reads as the side, the client order id is the
  order's, and the type, adopted by the synchronization from the venue's answer, is the type of the
  order, save that IOC and FOK orders come back as limit orders and a GTX limit order as post-only.
\<close>

theorem order_params_round_trip:
  assumes "build_order_params req g = Inr ps"
  shows "dget ps ''newClientOrderId'' = Some (JStr (rq_coid req)) \<and>
    (\<exists>w. dget ps ''quantity'' = Some (JStr w) \<and> dec_of_string w = Some (rnd (rq_quantity req)) \<and>
       list_all (\<lambda>c. is_digit c \<or> c = CHR ''.'' \<or> c = CHR ''-'') w) \<and>
    (\<forall>p. rq_price req = Some p \<longrightarrow> rq_type req \<noteq> OT_MARKET \<longrightarrow>
       (\<exists>w. dget ps ''price'' = Some (JStr w) \<and> dec_of_string w = Some (rnd p) \<and>
          list_all (\<lambda>c. is_digit c \<or> c = CHR ''.'' \<or> c = CHR ''-'') w)) \<and>
    (\<exists>w. dget ps ''side'' = Some (JStr w) \<and> side_from_binance w = Inr (rq_side req)) \<and>
    (\<exists>t. dget ps ''type'' = Some (JStr t) \<and>
       fst (order_type_from_binance t (sent_tif ps)) = adopted_type (rq_type req) (rq_tif req))"
proof -
  obtain t f where tf: "order_type_to_binance (rq_type req) (rq_tif req) (rc_futures (bn_rest g)) = (t, f)" by force
  let ?omit = "t \<in> {''MARKET'', ''LIMIT_MAKER''}"
  obtain w where w: "?omit \<Longrightarrow> w = ''GTC''" "\<not> ?omit \<Longrightarrow> tif_to_binance f = Inr w"
    using assms tf by (cases ?omit) (auto simp: build_order_params_def Let_def split: sum.splits)
  have m: "t = ''MARKET'' \<Longrightarrow> rq_type req = OT_MARKET"
    using tf by (cases "rq_type req") (auto split: if_splits)
  have s: "sent_tif ps = w \<and> dget ps ''type'' = Some (JStr t) \<and>
      dget ps ''newClientOrderId'' = Some (JStr (rq_coid req)) \<and>
      dget ps ''quantity'' = Some (JStr (format_decimal (rq_quantity req))) \<and>
      dget ps ''side'' = Some (JStr (side_to_binance (rq_side req))) \<and>
      (\<forall>p. rq_price req = Some p \<longrightarrow> t \<noteq> ''MARKET'' \<longrightarrow> dget ps ''price'' = Some (JStr (format_decimal p)))"
    using assms tf w
    by (cases ?omit; cases "rq_price req"; cases "rq_stop_price req")
      (auto simp: build_order_params_def sent_tif_def dget_append split: sum.splits if_splits)
  from type_round_trip [OF tf w(2,1)] s m show ?thesis
    by (auto simp: format_decimal_read format_decimal_plain side_round_trip)
qed

definition sample_post_only :: order_request where
  "sample_post_only =
     \<lparr>ts_event = 1, ts_ingest = 1, source = ''oms'', rq_order_id = 7, rq_coid = ''mm-000000000007'',
      rq_strategy = ''mm'', rq_instrument = sample_instrument, rq_side = BUY, rq_type = OT_POST_ONLY,
      rq_quantity = 5, rq_price = Some 100, rq_stop_price = None, rq_tif = TIF_GTC, rq_upstream = None\<rparr>"

theorem order_params_round_trip_witness:
  "\<exists>ps w. build_order_params sample_post_only (sample_binance True TimeoutError) = Inr ps \<and>
     dget ps ''quantity'' = Some (JStr w) \<and> dec_of_string w = Some 5 \<and>
     (\<exists>t. dget ps ''type'' = Some (JStr t) \<and> fst (order_type_from_binance t (sent_tif ps)) = OT_POST_ONLY)"
proof -
  obtain ps where p: "build_order_params sample_post_only (sample_binance True TimeoutError) = Inr ps"
    by (simp add: build_order_params_def sample_post_only_def sample_binance_def sample_rest_def binance_init_def)
  from order_params_round_trip [OF p] p show ?thesis by (auto simp: sample_post_only_def)
qed

subsection \<open>Closing orders that left the venue\<close>

lemma terminalize_other: "i \<noteq> j \<Longrightarrow> get_order i (terminalize_from_venue j st q w) = get_order i w"
  by (auto simp: terminalize_from_venue_def Let_def try_transition_def split: option.splits sum.splits)

lemma terminalize_status:
  assumes "get_order i w = Some o1"
  shows "\<exists>o2. get_order i (terminalize_from_venue j st q w) = Some o2 \<and>
    (o_status o2 = o_status o1 \<or> i = j \<and> o_status o2 = st)"
proof (cases "i = j")
  case True
  with assms show ?thesis
    by (auto simp: terminalize_from_venue_def Let_def try_transition_def transition_to_def
        split: option.splits sum.splits)
qed (use assms terminalize_other in auto)

lemma terminalize_reaches:
  assumes "get_order i w = Some o1" and "\<not> order_is_terminal o1" and "status_is_terminal st"
    and "validate_transition (Some (o_status o1)) st = Inr ()"
  shows "\<exists>o2. get_order i (terminalize_from_venue i st q w) = Some o2 \<and> o_status o2 = st"
  using assms
  by (auto simp: terminalize_from_venue_def Let_def try_transition_def transition_to_def split: option.splits)

text \<open>
  What the venue has said about an order: a row of an answer to the query for recent orders, with
  its client order id and a status that means the given terminal state.
\<close>

definition venue_reported ::
    "(http_request list \<Rightarrow> http_reply) \<Rightarrow> coid \<Rightarrow> order_status \<Rightarrow> bool" where
  "venue_reported http c st \<longleftrightarrow>
     (\<exists>t wire rows row. rc_http (vs_rest t) = http \<and> snd (fetch_recent_orders wire t) = Some rows \<and>
        JObj row \<in> set rows \<and> text_or_empty ''clientOrderId'' row = c \<and>
        venue_terminal_status (upper (py_str (jget (JStr []) ''status'' row))) = Some st)"

lemma rows_by_coid_mem:
  "rows_by_coid rows d = Inr d' \<Longrightarrow> dget d' c = Some row \<Longrightarrow>
    dget d c = Some row \<or> JObj row \<in> set rows \<and> text_or_empty ''clientOrderId'' row = c"
  by (induction rows d rule: rows_by_coid.induct) (auto split: if_splits)

text \<open>The invariant of the passes that resolve: the order is as it was, or closed as reported.\<close>

definition resolved_ok ::
    "(oms_order \<Rightarrow> bool) \<Rightarrow> (http_request list \<Rightarrow> http_reply) \<Rightarrow> oms_order \<Rightarrow> venue_sync \<Rightarrow> bool" where
  "resolved_ok C http o1 s \<longleftrightarrow> rc_http (vs_rest s) = http \<and>
     (\<exists>o2. get_order (o_id o1) (vs_oms s) = Some o2 \<and>
        (o_status o2 = o_status o1 \<or> C o1 \<and> venue_reported http (o_coid o1) (o_status o2)))"

lemma rest_request_http: "rc_http (fst (rest_request m p ps True c)) = rc_http c"
proof -
  obtain c1 r where b: "build_and_send m p ps True c = (c1, r)" by force
  obtain c2 r2 where s: "sync_server_time False c1 = (c2, r2)" by force
  obtain c3 r3 where b3: "build_and_send m p ps True c2 = (c3, r3)" by force
  show ?thesis
    using build_and_send_log [OF b] sync_log [OF s] build_and_send_log [OF b3] b s b3
    by (auto simp: rest_request_def same_client_def split: sum.splits)
qed

lemma vs_call_http: "vs_call p ps s = (s1, r) \<Longrightarrow> rc_http (vs_rest s1) = rc_http (vs_rest s) \<and> vs_oms s1 = vs_oms s"
  using rest_request_http [of "''GET''" p ps "vs_rest s"] by (auto simp: vs_call_def split: prod.splits)

lemma fetch_http:
  "fetch_recent_orders w s = (s1, r) \<Longrightarrow> rc_http (vs_rest s1) = rc_http (vs_rest s) \<and> vs_oms s1 = vs_oms s"
  using vs_call_http by (auto simp: fetch_recent_orders_def Let_def split: prod.splits sum.splits)


lemma resolve_order_ok:
  assumes "resolved_ok C http o1 s" and "\<And>row st. dget d (o_coid x) = Some row \<Longrightarrow>
      venue_terminal_status (upper (py_str (jget (JStr []) ''status'' row))) = Some st \<Longrightarrow>
      venue_reported http (o_coid x) st"
    and "o_id x = o_id o1 \<Longrightarrow> x = o1 \<and> C o1"
  shows "resolved_ok C http o1 (resolve_order d x s)"
proof (cases "dget d (o_coid x)")
  case (Some row)
  show ?thesis
  proof (cases "venue_terminal_status (upper (py_str (jget (JStr []) ''status'' row)))")
    case (Some st)
    let ?q = "case py_decimal (jget (JStr ''0'') ''executedQty'' row) of Inl _ \<Rightarrow> None | Inr d \<Rightarrow> Some d"
    from assms(1) obtain o2 where o2: "get_order (o_id o1) (vs_oms s) = Some o2"
      "o_status o2 = o_status o1 \<or> C o1 \<and> venue_reported http (o_coid o1) (o_status o2)"
      by (auto simp: resolved_ok_def)
    from terminalize_status [OF o2(1), of "o_id x" st ?q] o2(2) assms(3) assms(2) [OF \<open>dget d (o_coid x) = Some row\<close> Some]
    have "\<exists>o3. get_order (o_id o1) (terminalize_from_venue (o_id x) st ?q (vs_oms s)) = Some o3 \<and>
        (o_status o3 = o_status o1 \<or> C o1 \<and> venue_reported http (o_coid o1) (o_status o3))" by force
    with assms(1) Some \<open>dget d (o_coid x) = Some row\<close> show ?thesis
      by (simp add: resolve_order_def resolved_ok_def Let_def)
  qed (use assms(1) \<open>dget d (o_coid x) = Some row\<close> in \<open>simp add: resolve_order_def resolved_ok_def\<close>)
qed (use assms(1) in \<open>simp add: resolve_order_def\<close>)

lemma resolve_gone_ok:
  assumes "resolved_ok C http o1 s" and "\<And>x. x \<in> set os \<Longrightarrow> o_id x = o_id o1 \<Longrightarrow> x = o1 \<and> C o1"
    and "resolve_gone_orders os s = (s', r)"
  shows "resolved_ok C http o1 s'"
proof (cases os)
  case (Cons x xs)
  obtain s1 rows where f: "fetch_recent_orders (wire_symbol (o_instrument x) (vs_symbols s)) s = (s1, rows)" by force
  from fetch_http [OF f] assms(1) have s1: "resolved_ok C http o1 s1" by (simp add: resolved_ok_def)
  show ?thesis
  proof (cases rows)
    case None
    with f s1 Cons assms(3) show ?thesis by simp
  next
    case (Some rs)
    show ?thesis
    proof (cases "rows_by_coid rs []")
      case (Inl e)
      with f s1 Cons Some assms(3) show ?thesis by simp
    next
      case (Inr d)
      have v: "venue_reported http c st" if "dget d c = Some row"
        "venue_terminal_status (upper (py_str (jget (JStr []) ''status'' row))) = Some st" for c row st
      proof -
        from rows_by_coid_mem [OF Inr that(1)] have "JObj row \<in> set rs" "text_or_empty ''clientOrderId'' row = c"
          by auto
        moreover have "rc_http (vs_rest s) = http" using assms(1) by (simp add: resolved_ok_def)
        moreover have "snd (fetch_recent_orders (wire_symbol (o_instrument x) (vs_symbols s)) s) = Some rs"
          using f Some by simp
        ultimately show ?thesis using that(2) unfolding venue_reported_def by blast
      qed
      have "resolved_ok C http o1 (fold (resolve_order d) ys t)"
        if "resolved_ok C http o1 t" "set ys \<subseteq> set os" for ys t
        using that
      proof (induction ys arbitrary: t)
        case (Cons y ys)
        then have y: "y \<in> set os" by simp
        show ?case
          using Cons.IH [OF resolve_order_ok [OF Cons.prems(1) v assms(2) [OF y]]] Cons.prems(2) by simp
      qed simp
      from this [OF s1, of os] f Some Inr Cons assms(3) show ?thesis by simp
    qed
  qed
qed (use assms in simp)

lemma resolve_buckets_ok:
  "resolved_ok C http o1 s \<Longrightarrow>
    (\<And>os x. os \<in> set bs \<Longrightarrow> x \<in> set os \<Longrightarrow> o_id x = o_id o1 \<Longrightarrow> x = o1 \<and> C o1) \<Longrightarrow>
    resolve_buckets bs s = (s', r) \<Longrightarrow> resolved_ok C http o1 s'"
proof (induction bs s rule: resolve_buckets.induct)
  case (2 os rest s)
  obtain s1 r1 where r1: "resolve_gone_orders os s = (s1, r1)" by force
  from 2(2) 2(3) r1 have s1: "resolved_ok C http o1 s1" by (intro resolve_gone_ok [of C http o1 s os s1 r1]) auto
  show ?case
  proof (cases r1)
    case (Inl e)
    with 2(4) r1 s1 show ?thesis by simp
  next
    case (Inr u)
    have "x = o1 \<and> C o1" if "ys \<in> set rest" "x \<in> set ys" "o_id x = o_id o1" for ys x
      using 2(3) [of ys x] that by simp
    from 2(1) [OF r1 [symmetric] Inr s1 this] 2(4) r1 Inr show ?thesis by simp
  qed
qed simp

text \<open>What the scan puts into a bucket: open orders absent without excuse for the second pass.\<close>

definition absent_again :: "coid list \<Rightarrow> string list \<Rightarrow> (string, nat) dict \<Rightarrow> oms_order \<Rightarrow> bool" where
  "absent_again seen fetched gone o1 \<longleftrightarrow>
     instrument_id (o_instrument o1) \<in> set fetched \<and> o_status o1 \<notin> set in_flight \<and> o_coid o1 \<notin> set seen \<and>
     (\<exists>n. dget gone (o_coid o1) = Some n \<and> gone_threshold \<le> n + 1)"

definition in_bucket :: "oms_order \<Rightarrow> (string, oms_order list) dict \<Rightarrow> bool" where
  "in_bucket o1 d \<longleftrightarrow> (\<exists>k os. dget d k = Some os \<and> o1 \<in> set os)"

lemma scan_step_bucket:
  "in_bucket x (gs_bucket (scan_order seen fetched y st)) \<Longrightarrow>
    in_bucket x (gs_bucket st) \<or> x = y \<and> absent_again seen fetched (gs_gone st) y"
  by (fastforce simp: in_bucket_def scan_order_def Let_def absent_again_def gone_threshold_def
      split: if_splits option.splits)

lemma scan_step_gone:
  "c \<noteq> o_coid y \<Longrightarrow> dget (gs_gone (scan_order seen fetched y st)) c = dget (gs_gone st) c"
  by (auto simp: scan_order_def Let_def)

lemma scan_bucket:
  "distinct (map o_coid os) \<Longrightarrow> in_bucket x (gs_bucket (fold (scan_order seen fetched) os st)) \<Longrightarrow>
    in_bucket x (gs_bucket st) \<or> x \<in> set os \<and> absent_again seen fetched (gs_gone st) x"
proof (induction os arbitrary: st)
  case (Cons y os)
  from Cons.IH [of "scan_order seen fetched y st"] Cons.prems
  consider "in_bucket x (gs_bucket (scan_order seen fetched y st))"
    | "x \<in> set os" "absent_again seen fetched (gs_gone (scan_order seen fetched y st)) x" by auto
  then show ?case
  proof cases
    case 1
    from scan_step_bucket [OF this] show ?thesis by auto
  next
    case 2
    then have "o_coid x \<in> o_coid ` set os" by simp
    then have "o_coid x \<noteq> o_coid y" using Cons.prems(1) by auto
    with 2 scan_step_gone [of "o_coid x" y seen fetched st] show ?thesis by (simp add: absent_again_def)
  qed
qed simp

lemma bucket_distinct:
  "dict_ok d \<Longrightarrow> dict_ok (gs_bucket (fold (scan_order seen fetched) os (st\<lparr>gs_bucket := d\<rparr>)))"
proof (induction os arbitrary: st d)
  case (Cons y os)
  let ?t = "scan_order seen fetched y (st\<lparr>gs_bucket := d\<rparr>)"
  have "dict_ok (gs_bucket ?t)" using Cons.prems by (auto simp: scan_order_def Let_def)
  from Cons.IH [OF this, of ?t] show ?case by simp
qed simp

lemma open_orders_own:
  assumes "oms_ok w" and "x \<in> set (open_orders w)"
  shows "get_order (o_id x) w = Some x"
proof -
  from assms(2) obtain i where "(i, x) \<in> set (om_orders w)" by (auto simp: open_orders_def dvals_def)
  with oms_okD(1) [OF assms(1)] have "get_order i w = Some x"
    by (simp add: get_order_def dget_def dict_ok_def map_of_eq_Some_iff)
  with oms_okD(4) [OF assms(1) this] show ?thesis by simp
qed


definition sample_row :: jobj where
  "sample_row = [(''clientOrderId'', JStr ''mm-000000000000''), (''status'', JStr ''FILLED''), (''executedQty'', JStr ''5'')]"

definition sample_missing :: venue_sync where
  "sample_missing =
     (venue_sync_init sample_adopted (sample_rest False (JsonReply 200 (JArr [JObj sample_row]) None))
        (symbol_mapper_init [sample_instrument]) [sample_instrument])
       \<lparr>vs_gone := [(''mm-000000000000'', 1)]\<rparr>"

lemma sample_missing_fetch:
  "\<exists>rc. fetch_recent_orders wire (sample_missing\<lparr>vs_gone := d\<rparr>) =
     (sample_missing\<lparr>vs_gone := d, vs_rest := rc\<rparr>, Some [JObj sample_row])"
  by (simp add: sample_missing_def fetch_recent_orders_def vs_call_def rest_request_def build_and_send_def
      rest_build_def read_wall_def rest_send_def sample_rest_def venue_sync_init_def Let_def)

lemma sample_adopted_orders:
  "om_orders sample_adopted = [(0, (new_order 0 ''mm-000000000000'' (strategy_id_from_client_order_id ''mm-000000000000'')
      sample_instrument BUY OT_LIMIT 5 (Some 100) TIF_GTC 1000 None)\<lparr>o_status := ACKNOWLEDGED\<rparr>)]"
  by (simp add: sample_adopted_def adopt_order_def sample_oms_def oms_init_def uuid4_def new_order_def
      track_order_def Let_def dset_def)

lemma sample_row_status: "venue_terminal_status (upper (py_str (jget (JStr []) ''status'' sample_row))) = Some FILLED"
  by (simp add: sample_row_def jget_def upper_def venue_terminal_status_def)

lemma sample_row_coid: "text_or_empty ''clientOrderId'' sample_row = ''mm-000000000000''"
  by (simp add: sample_row_def text_or_empty_def jget_def)

text \<open>The order of the sample is missing for the second time, and the venue reports it as filled.\<close>

lemma sample_missing_closes:
  "\<exists>s' o2. terminalize_gone_orders [] [instrument_id sample_instrument] sample_missing = (s', Inr ()) \<and>
     get_order 0 (vs_oms s') = Some o2 \<and> o_status o2 = FILLED"
proof -
  let ?o = "(new_order 0 ''mm-000000000000'' (strategy_id_from_client_order_id ''mm-000000000000'')
      sample_instrument BUY OT_LIMIT 5 (Some 100) TIF_GTC 1000 None)\<lparr>o_status := ACKNOWLEDGED\<rparr>"
  let ?d = "[(''mm-000000000000'', 2 :: nat)]"
  have o: "o_coid ?o = ''mm-000000000000''" "o_instrument ?o = sample_instrument" "o_status ?o = ACKNOWLEDGED"
    "o_id ?o = 0" by (simp_all add: new_order_def)
  have v: "vs_oms sample_missing = sample_adopted" "vs_gone sample_missing = [(''mm-000000000000'', 1)]"
    by (simp_all add: sample_missing_def venue_sync_init_def)
  have op: "open_orders (vs_oms sample_missing) = [?o]"
    using o(3) by (simp add: v open_orders_def dvals_def sample_adopted_orders order_is_terminal_def)
  have "scan_order [] [instrument_id sample_instrument] ?o
      \<lparr>gs_gone = vs_gone sample_missing, gs_live = [], gs_bucket = []\<rparr> =
      \<lparr>gs_gone = ?d, gs_live = [], gs_bucket = [(instrument_id sample_instrument, [?o])]\<rparr>"
    by (simp add: scan_order_def o v in_flight_def gone_threshold_def dset_def Let_def)
  then have t: "terminalize_gone_orders [] [instrument_id sample_instrument] sample_missing =
      resolve_buckets [[?o]] (sample_missing\<lparr>vs_gone := ?d\<rparr>)"
    using o by (simp add: terminalize_gone_orders_def op prune_gone_def dvals_def)
  obtain rc where f: "fetch_recent_orders (wire_symbol sample_instrument (vs_symbols sample_missing))
      (sample_missing\<lparr>vs_gone := ?d\<rparr>) = (sample_missing\<lparr>vs_gone := ?d, vs_rest := rc\<rparr>, Some [JObj sample_row])"
    using sample_missing_fetch by blast
  have g: "get_order 0 sample_adopted = Some ?o" by (rule sample_adopted_order)
  have "\<exists>o2. get_order 0 (terminalize_from_venue 0 FILLED q sample_adopted) = Some o2 \<and> o_status o2 = FILLED" for q
    using terminalize_reaches [OF g] o(3) by (simp add: order_is_terminal_def status_is_terminal_def validate_transition_def)
  with f o show ?thesis
    by (simp add: t resolve_order_def sample_row_coid sample_row_status v Let_def dset_def)
qed


end
