(* ===== verification/User_Data.thy ===== *)
theory User_Data
  imports Binance_Rest Event_Bus
begin

text \<open>
  \<open>order_gateways/binance/user_data.py\<close>: the private stream of the venue, whose frames become
  fills, cancellations, rejections and account snapshots. A frame arrives parsed (or as text that
  is not JSON); the connection loop around it is input and output. The lookup of the strategy of a
  client order id, a callback into the OMS, is the field \<open>ud_lookup\<close>. A publication is not guarded
  here: an exception of the bus ends the handling of the frame and, in the code, the session. The
  venue's trade id of a fill, which no component reads, is not a field of the fill.
\<close>

record user_data =
  ud_bus :: async_bus
  ud_now :: timestamp
  ud_symbols :: symbol_mapper
  ud_lookup :: "coid \<Rightarrow> strategy_id option"
  ud_order_ids :: "(coid, uuid) dict"
  ud_uuid_src :: "nat \<Rightarrow> uuid"
  ud_uuid_n :: nat
  ud_sent :: "(topic \<times> event) list"

definition user_data_init ::
    "async_bus \<Rightarrow> timestamp \<Rightarrow> symbol_mapper \<Rightarrow> (coid \<Rightarrow> strategy_id option) \<Rightarrow> (nat \<Rightarrow> uuid) \<Rightarrow> user_data" where
  "user_data_init b now sm lookup src =
     \<lparr>ud_bus = b, ud_now = now, ud_symbols = sm, ud_lookup = lookup, ud_order_ids = [], ud_uuid_src = src,
      ud_uuid_n = 0, ud_sent = []\<rparr>"

definition ud_publish :: "topic \<Rightarrow> event \<Rightarrow> user_data \<Rightarrow> user_data \<times> (py_error + unit)" where
  "ud_publish t e s =
     (case publish t e (ud_bus s) of
        (b, Inl err) \<Rightarrow> (s\<lparr>ud_bus := b\<rparr>, Inl err)
      | (b, Inr _) \<Rightarrow> (s\<lparr>ud_bus := b, ud_sent := ud_sent s @ [(t, e)]\<rparr>, Inr ()))"

definition ud_on_order_event :: "event \<Rightarrow> user_data \<Rightarrow> user_data" where
  "ud_on_order_event e s =
     (case e of
        EvOrderRequest r \<Rightarrow> s\<lparr>ud_order_ids := dset (rq_coid r) (rq_order_id r) (ud_order_ids s)\<rparr>
      | EvAck a \<Rightarrow> s\<lparr>ud_order_ids := dset (re_coid a) (re_order_id a) (ud_order_ids s)\<rparr>
      | _ \<Rightarrow> s)"

subsection \<open>Execution reports\<close>

definition ms_to_ns :: "int \<Rightarrow> timestamp" where
  "ms_to_ns ms = ms * 1000000"

text \<open>\<open>msg.get(k, "").upper()\<close>\<close>

definition upper_field :: "string \<Rightarrow> jobj \<Rightarrow> py_error + string" where
  "upper_field k msg = (case jget (JStr []) k msg of JStr w \<Rightarrow> Inr (upper w) | _ \<Rightarrow> Inl AttributeError)"

definition decimal_item :: "string \<Rightarrow> jobj \<Rightarrow> py_error + dec" where
  "decimal_item k msg = sum_bind (jitem k msg) py_decimal"

text \<open>The arguments the handler passes on to \<open>_publish_fill\<close> besides the message.\<close>

record report_context =
  rx_instrument :: instrument
  rx_order_id :: uuid
  rx_coid :: coid
  rx_exchange_id :: string
  rx_strategy :: strategy_id
  rx_ts_event :: timestamp

definition fill_of_report :: "jobj \<Rightarrow> report_context \<Rightarrow> uuid \<Rightarrow> timestamp \<Rightarrow> py_error + fill_event" where
  "fill_of_report msg cx fid now =
     sum_bind (upper_field ''S'' msg) (\<lambda>sd.
     sum_bind (decimal_item ''l'' msg) (\<lambda>last_qty.
     sum_bind (decimal_item ''L'' msg) (\<lambda>last_price.
     sum_bind (decimal_item ''z'' msg) (\<lambda>cum_qty.
     sum_bind (decimal_item ''q'' msg) (\<lambda>original_qty.
     sum_bind (py_decimal (jget (JStr ''0'') ''n'' msg)) (\<lambda>fee.
       Inr \<lparr>ts_event = rx_ts_event cx, ts_ingest = now, source = ''binance'', fl_fill_id = fid,
         fl_order_id = rx_order_id cx, fl_coid = rx_coid cx, fl_exchange_id = Some (rx_exchange_id cx),
         fl_strategy = rx_strategy cx, fl_instrument = rx_instrument cx,
         fl_side = (if sd = ''BUY'' then BUY else SELL), fl_price = last_price, fl_quantity = last_qty,
         fl_cumulative = cum_qty, fl_leaves = dsub original_qty cum_qty, fl_fee = fee,
         fl_fee_currency = (let n = jget (JStr []) ''N'' msg in if truthy n then py_str n else []),
         fl_is_maker = Some (truthy (jget (JBool False) ''m'' msg))\<rparr>))))))"

definition publish_fill :: "jobj \<Rightarrow> report_context \<Rightarrow> user_data \<Rightarrow> user_data \<times> (py_error + unit)" where
  "publish_fill msg cx s =
     (case fill_of_report msg cx (ud_uuid_src s (ud_uuid_n s)) (ud_now s) of
        Inl e \<Rightarrow> (s, Inl e)
      | Inr f \<Rightarrow> ud_publish FILLS (EvFill f) (s\<lparr>ud_uuid_n := Suc (ud_uuid_n s)\<rparr>))"

definition report_response :: "report_context \<Rightarrow> string \<Rightarrow> user_data \<Rightarrow> order_response" where
  "report_response cx reason s =
     \<lparr>ts_event = rx_ts_event cx, ts_ingest = ud_now s, source = ''binance'', re_order_id = rx_order_id cx,
      re_coid = rx_coid cx, re_reason = reason\<rparr>"

definition report_by_type :: "json \<Rightarrow> jobj \<Rightarrow> report_context \<Rightarrow> user_data \<Rightarrow> user_data \<times> (py_error + unit)" where
  "report_by_type ty msg cx s =
     (let why = py_str (jget (JStr []) ''r'' msg)
      in if ty = JStr ''TRADE'' then publish_fill msg cx s
         else if ty = JStr ''CANCELED'' then
           ud_publish ORDERS (EvCancelled (report_response cx ''binance reported CANCELED'' s)) s
         else if ty = JStr ''EXPIRED'' then
           ud_publish ORDERS (EvCancelled (report_response cx (''binance EXPIRED: '' @ why) s)) s
         else if ty = JStr ''REJECTED'' then
           ud_publish ORDERS (EvRejected (report_response cx (''binance REJECTED: '' @ why) s)) s
         else (s, Inr ()))"

definition handle_execution_report :: "jobj \<Rightarrow> user_data \<Rightarrow> user_data \<times> (py_error + unit)" where
  "handle_execution_report msg s =
     (case jget (JStr []) ''s'' msg of
        JStr w \<Rightarrow>
          (case by_wire w (ud_symbols s) of
             None \<Rightarrow> (s, Inr ())
           | Some ins \<Rightarrow>
               (let c = py_str (jget (JStr []) ''c'' msg)
                in case dget (ud_order_ids s) c of
                     None \<Rightarrow> (s, Inr ())
                   | Some i \<Rightarrow>
                       (case py_int (jget (jget (JInt 0) ''E'' msg) ''T'' msg) of
                          Inl e \<Rightarrow> (s, Inl e)
                        | Inr t \<Rightarrow>
                            report_by_type (jget JNull ''x'' msg) msg
                              \<lparr>rx_instrument = ins, rx_order_id = i, rx_coid = c,
                               rx_exchange_id = py_str (jget (JStr []) ''i'' msg),
                               rx_strategy = (case ud_lookup s c of
                                                Some sid \<Rightarrow> if sid = [] then ''unknown'' else sid
                                              | None \<Rightarrow> ''unknown''),
                               rx_ts_event = ms_to_ns t\<rparr> s)))
      | _ \<Rightarrow> (s, Inl AttributeError))"

subsection \<open>Account frames\<close>

definition balance_of :: "string \<Rightarrow> string option \<Rightarrow> json \<Rightarrow> py_error + account_balance" where
  "balance_of free_key locked_key j =
     (case j of
        JObj b \<Rightarrow>
          sum_bind (py_decimal (jget (JStr ''0'') free_key b)) (\<lambda>free.
          sum_bind (case locked_key of None \<Rightarrow> Inr 0 | Some k \<Rightarrow> py_decimal (jget (JStr ''0'') k b)) (\<lambda>locked.
            Inr \<lparr>ab_asset = py_str (jget (JStr []) ''a'' b), ab_free = free, ab_locked = locked\<rparr>))
      | _ \<Rightarrow> Inl AttributeError)"

text \<open>\<open>d.get("B") or []\<close>, as the list that is iterated\<close>

definition raw_balances :: "jobj \<Rightarrow> py_error + json list" where
  "raw_balances d =
     (let b = jget JNull ''B'' d
      in if \<not> truthy b then Inr []
         else case b of
                JArr xs \<Rightarrow> Inr xs
              | JObj _ \<Rightarrow> Inl AttributeError
              | JStr _ \<Rightarrow> Inl AttributeError
              | _ \<Rightarrow> Inl TypeError)"

definition event_time :: "jobj \<Rightarrow> timestamp \<Rightarrow> py_error + timestamp" where
  "event_time msg now =
     (case jget JNull ''E'' msg of
        JNull \<Rightarrow> Inr now
      | j \<Rightarrow> sum_bind (py_int j) (\<lambda>ms. Inr (ms_to_ns ms)))"

definition publish_account ::
    "py_error + account_balance list \<Rightarrow> jobj \<Rightarrow> user_data \<Rightarrow> user_data \<times> (py_error + unit)" where
  "publish_account balances msg s =
     (case sum_bind balances (\<lambda>bs. sum_bind (event_time msg (ud_now s)) (\<lambda>t.
             Inr \<lparr>ts_event = t, ts_ingest = ud_now s, source = ''binance'', ac_balances = bs\<rparr>)) of
        Inl e \<Rightarrow> (s, Inl e)
      | Inr ev \<Rightarrow> ud_publish ACCOUNT (EvAccount ev) s)"

definition handle_account_position :: "jobj \<Rightarrow> user_data \<Rightarrow> user_data \<times> (py_error + unit)" where
  "handle_account_position msg s =
     publish_account (sum_bind (raw_balances msg) (sum_map (balance_of ''f'' (Some ''l'')))) msg s"

definition handle_futures_account_update :: "jobj \<Rightarrow> user_data \<Rightarrow> user_data \<times> (py_error + unit)" where
  "handle_futures_account_update msg s =
     (let a = jget JNull ''a'' msg;
          account = (if truthy a then (case a of JObj d \<Rightarrow> Inr d | _ \<Rightarrow> Inl AttributeError) else Inr [])
      in publish_account
           (sum_bind account (\<lambda>d. sum_bind (raw_balances d) (sum_map (balance_of ''wb'' None)))) msg s)"

subsection \<open>Frames\<close>

definition setdefault :: "string \<Rightarrow> json \<Rightarrow> jobj \<Rightarrow> jobj" where
  "setdefault k v d = (case dget d k of None \<Rightarrow> dset k v d | Some _ \<Rightarrow> d)"

text \<open>The nested order of a futures frame with the times of the frame hoisted into it.\<close>

definition hoist_order :: "jobj \<Rightarrow> py_error + jobj" where
  "hoist_order msg =
     (case jget (JObj []) ''o'' msg of
        JObj d \<Rightarrow>
          (let d1 = setdefault ''E'' (jget JNull ''E'' msg) d
           in Inr (setdefault ''T'' (jget (jget (jget JNull ''E'' msg) ''T'' msg) ''T'' d1) d1))
      | _ \<Rightarrow> Inl TypeError)"

datatype frame = NotJson | Parsed json

definition handle_frame :: "frame \<Rightarrow> user_data \<Rightarrow> user_data \<times> (py_error + unit)" where
  "handle_frame fr s =
     (case fr of
        NotJson \<Rightarrow> (s, Inr ())
      | Parsed (JObj msg) \<Rightarrow>
          (let ty = jget JNull ''e'' msg
           in if ty = JStr ''executionReport'' then handle_execution_report msg s
              else if ty = JStr ''outboundAccountPosition'' then handle_account_position msg s
              else if ty = JStr ''ORDER_TRADE_UPDATE'' then
                (case hoist_order msg of
                   Inl e \<Rightarrow> (s, Inl e)
                 | Inr order \<Rightarrow> handle_execution_report order s)
              else if ty = JStr ''ACCOUNT_UPDATE'' then handle_futures_account_update msg s
              else if ty = JStr ''listKeyExpired'' then (s, Inl FeedDisconnected)
              else (s, Inr ()))
      | Parsed _ \<Rightarrow> (s, Inl AttributeError))"

end
