(* ===== verification/User_Data_Properties.thy ===== *)
theory User_Data_Properties
  imports User_Data Orders
begin

text \<open>
  What the user data stream makes of a trade report: a fill with the figures of the report, and, when
  the venue sends the same report again after a reconnection, a second fill under a new identifier.
\<close>

definition same_context :: "user_data \<Rightarrow> user_data \<Rightarrow> bool" where
  "same_context s t \<longleftrightarrow> ud_symbols t = ud_symbols s \<and> ud_lookup t = ud_lookup s \<and>
     ud_order_ids t = ud_order_ids s \<and> ud_now t = ud_now s"

lemma ud_publish_sent:
  "ud_publish tp e s = (s1, Inr ()) \<Longrightarrow>
    \<exists>b. s1 = s\<lparr>ud_bus := b, ud_sent := ud_sent s @ [(tp, e)]\<rparr>"
  by (auto simp: ud_publish_def split: prod.splits sum.splits)

lemma no_fill_published:
  "ud_publish tp e s = (s1, Inr ()) \<Longrightarrow> (\<And>f. e \<noteq> EvFill f) \<Longrightarrow> ud_sent s1 \<noteq> ud_sent s @ [(FILLS, EvFill f)]"
  by (drule ud_publish_sent) auto

lemma report_by_type_fill:
  assumes "report_by_type ty msg cx s = (s1, Inr ())" and "ud_sent s1 = ud_sent s @ [(FILLS, EvFill f)]"
  shows "ty = JStr ''TRADE''"
  using assms
  by (auto simp: report_by_type_def Let_def split: if_splits dest: no_fill_published)

lemma execution_report_fill:
  assumes "handle_execution_report msg s = (s1, Inr ())" and "ud_sent s1 = ud_sent s @ [(FILLS, EvFill f)]"
  shows "\<exists>cx. \<forall>t. same_context s t \<longrightarrow> handle_execution_report msg t = publish_fill msg cx t"
proof -
  obtain w ins i n where c: "jget (JStr []) ''s'' msg = JStr w" "by_wire w (ud_symbols s) = Some ins"
      "dget (ud_order_ids s) (py_str (jget (JStr []) ''c'' msg)) = Some i"
      "py_int (jget (jget (JInt 0) ''E'' msg) ''T'' msg) = Inr n"
    using assms by (auto simp: handle_execution_report_def Let_def split: json.splits option.splits sum.splits)
  from assms c have "jget JNull ''x'' msg = JStr ''TRADE''"
    by (auto simp: handle_execution_report_def Let_def dest: report_by_type_fill)
  with c show ?thesis
    by (auto simp: handle_execution_report_def same_context_def report_by_type_def Let_def)
qed

lemma frame_fill:
  assumes "handle_frame fr s = (s1, Inr ())" and "ud_sent s1 = ud_sent s @ [(FILLS, EvFill f)]"
  shows "\<exists>msg cx. \<forall>t. same_context s t \<longrightarrow> handle_frame fr t = publish_fill msg cx t"
proof -
  have no: "publish_account bs m s \<noteq> (s1, Inr ())" for bs m
    using assms(2) no_fill_published [of ACCOUNT _ s s1 f]
    by (auto simp: publish_account_def split: sum.splits)
  obtain msg where m: "fr = Parsed (JObj msg)"
    using assms by (auto simp: handle_frame_def split: frame.splits json.splits)
  let ?ty = "jget JNull ''e'' msg"
  consider "?ty = JStr ''executionReport''" | "?ty = JStr ''ORDER_TRADE_UPDATE''"
    using assms no
    by (auto simp: handle_frame_def m handle_account_position_def handle_futures_account_update_def Let_def
        split: if_splits)
  then show ?thesis
  proof cases
    case 1
    then have h: "handle_frame fr t = handle_execution_report msg t" for t by (simp add: handle_frame_def m)
    from execution_report_fill [of msg s s1 f] assms show ?thesis unfolding h by blast
  next
    case 2
    then obtain d where d: "hoist_order msg = Inr d"
      using assms by (auto simp: handle_frame_def m split: sum.splits)
    with 2 have h: "handle_frame fr t = handle_execution_report d t" for t by (simp add: handle_frame_def m)
    from execution_report_fill [of d s s1 f] assms show ?thesis unfolding h by blast
  qed
qed

lemma fill_other_id:
  "fill_of_report msg cx j now = sum_bind (fill_of_report msg cx i now) (\<lambda>f. Inr (f\<lparr>fl_fill_id := j\<rparr>))"
  by (simp add: fill_of_report_def sum_bind_assoc)

lemma fill_new_id:
  assumes "fill_of_report msg cx i now = Inr f"
  shows "fl_fill_id f = i" "fill_of_report msg cx j now = Inr (f\<lparr>fl_fill_id := j\<rparr>)"
proof -
  have "Inr f = (Inr (f\<lparr>fl_fill_id := i\<rparr>) :: py_error + fill_event)"
    using fill_other_id [of msg cx i now i] assms by simp
  then have "fl_fill_id f = fl_fill_id (f\<lparr>fl_fill_id := i\<rparr>)" by (metis sum.inject(2))
  then show "fl_fill_id f = i" by simp
  show "fill_of_report msg cx j now = Inr (f\<lparr>fl_fill_id := j\<rparr>)"
    using fill_other_id [of msg cx j now i] assms by simp
qed

text \<open>
  C27: A trade report that the venue repeats is counted again. Handling the same frame a second time
  publishes the same fill under a fresh identifier, and an order, which recognizes a fill by its
  identifier only, applies both: its filled quantity grows by the quantity of the one trade twice.
\<close>

theorem repeated_report_counted_twice:
  assumes "inj (ud_uuid_src s)" and "handle_frame fr s = (s1, Inr ())"
    and "ud_sent s1 = ud_sent s @ [(FILLS, EvFill f)]" and "handle_frame fr s1 = (s2, Inr ())"
  shows "\<exists>j. j \<noteq> fl_fill_id f \<and> ud_sent s2 = ud_sent s1 @ [(FILLS, EvFill (f\<lparr>fl_fill_id := j\<rparr>))] \<and>
    (\<forall>o1. fl_fill_id f \<notin> o_applied o1 \<longrightarrow> j \<notin> o_applied o1 \<longrightarrow>
       o_cumulative (fst (record_fill (f\<lparr>fl_fill_id := j\<rparr>) (fst (record_fill f o1)))) =
         dadd (dadd (o_cumulative o1) (fl_quantity f)) (fl_quantity f))"
proof -
  from frame_fill [OF assms(2,3)] obtain msg cx where
    h: "same_context s t \<Longrightarrow> handle_frame fr t = publish_fill msg cx t" for t by blast
  let ?i = "ud_uuid_src s (ud_uuid_n s)" and ?j = "ud_uuid_src s (Suc (ud_uuid_n s))"
  have 1: "publish_fill msg cx s = (s1, Inr ())" using h [of s] assms(2) by (simp add: same_context_def)
  then obtain g where g: "fill_of_report msg cx ?i (ud_now s) = Inr g" by (auto simp: publish_fill_def split: sum.splits)
  with 1 obtain b where s1: "s1 = s\<lparr>ud_uuid_n := Suc (ud_uuid_n s), ud_bus := b, ud_sent := ud_sent s @ [(FILLS, EvFill g)]\<rparr>"
    using ud_publish_sent by (fastforce simp: publish_fill_def)
  with assms(3) have gf: "g = f" by simp
  note id = fill_new_id(1) [OF g, unfolded gf] and j = fill_new_id(2) [OF g, of ?j, unfolded gf]
  have "publish_fill msg cx s1 = (s2, Inr ())" using h [of s1] assms(4) by (simp add: same_context_def s1)
  with j have "ud_publish FILLS (EvFill (f\<lparr>fl_fill_id := ?j\<rparr>)) (s1\<lparr>ud_uuid_n := Suc (ud_uuid_n s1)\<rparr>) = (s2, Inr ())"
    by (simp add: publish_fill_def s1)
  from ud_publish_sent [OF this] have "ud_sent s2 = ud_sent s1 @ [(FILLS, EvFill (f\<lparr>fl_fill_id := ?j\<rparr>))]" by auto
  moreover have "?j \<noteq> ?i" using injD [OF assms(1), of "Suc (ud_uuid_n s)" "ud_uuid_n s"] by auto
  ultimately show ?thesis
    by (intro exI [of _ ?j]) (simp add: id record_fill_cumulative record_fill_applied)
qed

definition sample_report :: jobj where
  "sample_report =
     [(''e'', JStr ''executionReport''), (''s'', JStr (canonical_to_wire sample_instrument)),
      (''c'', JStr ''mm-000000000007''), (''x'', JStr ''TRADE''), (''i'', JInt 5), (''S'', JStr ''BUY''),
      (''l'', JStr ''2''), (''L'', JStr ''100''), (''z'', JStr ''2''), (''q'', JStr ''5''), (''n'', JStr ''0''),
      (''N'', JNull), (''m'', JBool False), (''T'', JInt 1)]"

definition sample_stream :: user_data where
  "sample_stream =
     (user_data_init (sample_bus 10 1) 9 (symbol_mapper_init [sample_instrument]) (\<lambda>c. Some ''mm'') (\<lambda>n. n))
       \<lparr>ud_order_ids := [(''mm-000000000007'', 7)]\<rparr>"

lemma sample_decimals: "dec_of_string ''2'' = Some 2" "dec_of_string ''100'' = Some 100" "dec_of_string ''5'' = Some 5"
  "dec_of_string ''0'' = Some 0"
  by (simp_all add: dec_of_string_def split_sign_def is_exponent_mark_def read_fixed_def read_nat_def is_digit_def
      digits_value_def digit_value_def)

lemma sample_wire: "by_wire (canonical_to_wire sample_instrument) (symbol_mapper_init [sample_instrument]) = Some sample_instrument"
proof -
  have "upper (canonical_to_wire sample_instrument) = canonical_to_wire sample_instrument"
    by (simp add: canonical_to_wire_def sample_instrument_def upper_def)
  then show ?thesis by (simp add: by_wire_def symbol_mapper_init_def Let_def) (simp add: sample_instrument_def)
qed


lemma sample_frame_fill:
  "\<exists>f. handle_frame (Parsed (JObj sample_report)) (sample_stream\<lparr>ud_uuid_n := n, ud_sent := l\<rparr>) =
     (sample_stream\<lparr>ud_uuid_n := Suc n, ud_sent := l @ [(FILLS, EvFill f)]\<rparr>, Inr ()) \<and> fl_quantity f = 2"
proof -
  have "\<exists>f. fill_of_report sample_report cx i now = Inr f \<and> fl_quantity f = 2" for cx i now
    by (simp add: fill_of_report_def sample_report_def upper_field_def decimal_item_def jitem_def py_decimal_def
        sample_decimals jget_def)
  then obtain f where f: "\<And>cx i now. fill_of_report sample_report cx i now = Inr (f cx i now) \<and> fl_quantity (f cx i now) = 2"
    by metis
  have k: "jget (JStr []) ''s'' sample_report = JStr (canonical_to_wire sample_instrument)"
    "jget (JStr []) ''c'' sample_report = JStr ''mm-000000000007''" "jget JNull ''x'' sample_report = JStr ''TRADE''"
    "jget JNull ''e'' sample_report = JStr ''executionReport''"
    "py_int (jget (jget (JInt 0) ''E'' sample_report) ''T'' sample_report) = Inr 1"
    by (simp_all add: sample_report_def jget_def)
  have b: "publish FILLS e (ud_bus sample_stream) = (ud_bus sample_stream, Inr ())" for e
    by (simp add: sample_stream_def user_data_init_def publish_def sample_bus_def)
  have c: "ud_symbols sample_stream = symbol_mapper_init [sample_instrument]"
    "ud_order_ids sample_stream = [(''mm-000000000007'', 7)]"
    by (simp_all add: sample_stream_def user_data_init_def)
  have "\<exists>cx now. handle_frame (Parsed (JObj sample_report)) (sample_stream\<lparr>ud_uuid_n := n, ud_sent := l\<rparr>) =
     (sample_stream\<lparr>ud_uuid_n := Suc n,
        ud_sent := l @ [(FILLS, EvFill (f cx (ud_uuid_src sample_stream n) now))]\<rparr>, Inr ())"
    by (rule exI, rule exI)
      (simp add: handle_frame_def handle_execution_report_def k c sample_wire report_by_type_def Let_def
        publish_fill_def f ud_publish_def b)
  with f show ?thesis by blast
qed

theorem repeated_report_counted_twice_witness:
  "\<exists>s1 f j. handle_frame (Parsed (JObj sample_report)) sample_stream = (s1, Inr ()) \<and>
     ud_sent (fst (handle_frame (Parsed (JObj sample_report)) s1)) =
       [(FILLS, EvFill f), (FILLS, EvFill (f\<lparr>fl_fill_id := j\<rparr>))] \<and> j \<noteq> fl_fill_id f"
proof -
  have n: "sample_stream\<lparr>ud_uuid_n := 0, ud_sent := []\<rparr> = sample_stream"
    by (simp add: sample_stream_def user_data_init_def)
  from sample_frame_fill [where n = 0 and l = "[]"] obtain f where
    1: "handle_frame (Parsed (JObj sample_report)) sample_stream =
      (sample_stream\<lparr>ud_uuid_n := Suc 0, ud_sent := [(FILLS, EvFill f)]\<rparr>, Inr ())" unfolding n by auto
  let ?s1 = "sample_stream\<lparr>ud_uuid_n := Suc 0, ud_sent := [(FILLS, EvFill f)]\<rparr>"
  from sample_frame_fill [where n = "Suc 0" and l = "[(FILLS, EvFill f)]"] obtain g where
    2: "handle_frame (Parsed (JObj sample_report)) ?s1 =
      (sample_stream\<lparr>ud_uuid_n := Suc (Suc 0), ud_sent := [(FILLS, EvFill f), (FILLS, EvFill g)]\<rparr>, Inr ())" by auto
  have "inj (ud_uuid_src sample_stream)" by (simp add: sample_stream_def user_data_init_def)
  moreover have "ud_sent ?s1 = ud_sent sample_stream @ [(FILLS, EvFill f)]"
    by (simp add: sample_stream_def user_data_init_def)
  ultimately obtain j where "j \<noteq> fl_fill_id f"
    "ud_sent (fst (handle_frame (Parsed (JObj sample_report)) ?s1)) = ud_sent ?s1 @ [(FILLS, EvFill (f\<lparr>fl_fill_id := j\<rparr>))]"
    using repeated_report_counted_twice [OF _ 1 _ 2] by (auto simp: 2)
  with 1 show ?thesis by auto
qed

end
