(* ===== verification/Rate_Limiter.thy ===== *)
theory Rate_Limiter
  imports Floats
begin

text \<open>
  \<open>order_gateways/rate_limiter.py\<close>: the token bucket in front of the venue. Tokens, capacity, rate
  and costs are floats, every operation on them rounds; the monotonic clock is an integer of
  nanoseconds. \<open>acquire\<close> is a loop that sleeps: the \<open>n\<close>-th reading of the clock, after a sleep of
  \<open>w\<close> seconds, is \<open>clk n w\<close>, and a loop that never ends is \<open>None\<close>. The lock serializes the callers of
  \<open>acquire\<close>, so a call runs alone.
\<close>

record rate_limiter =
  rl_capacity :: rat
  rl_rate :: rat
  rl_tokens :: rat
  rl_last :: int

definition limiter_init :: "rat \<Rightarrow> rat \<Rightarrow> rat option \<Rightarrow> int \<Rightarrow> py_error + rate_limiter" where
  "limiter_init capacity refill_per_second initial_tokens now =
     (if capacity \<le> 0 then Inl ValueError
      else if refill_per_second \<le> 0 then Inl ValueError
      else Inr \<lparr>rl_capacity = capacity, rl_rate = refill_per_second,
                rl_tokens = (case initial_tokens of None \<Rightarrow> capacity | Some t \<Rightarrow> min t capacity),
                rl_last = now\<rparr>)"

definition elapsed_seconds :: "int \<Rightarrow> rate_limiter \<Rightarrow> rat" where
  "elapsed_seconds now l = float_of (of_int (now - rl_last l) / 1000000000)"

definition refill :: "int \<Rightarrow> rate_limiter \<Rightarrow> rate_limiter" where
  "refill now l =
     (let elapsed_s = elapsed_seconds now l
      in if elapsed_s \<le> 0 then l
         else l\<lparr>rl_tokens := min (rl_capacity l) (float_of (rl_tokens l + float_of (elapsed_s * rl_rate l))),
                rl_last := now\<rparr>)"

definition take_tokens :: "rat \<Rightarrow> rate_limiter \<Rightarrow> rate_limiter" where
  "take_tokens cost l = l\<lparr>rl_tokens := float_of (rl_tokens l - cost)\<rparr>"

definition available :: "int \<Rightarrow> rate_limiter \<Rightarrow> rat \<times> rate_limiter" where
  "available now l = (let l1 = refill now l in (rl_tokens l1, l1))"

definition try_acquire :: "rat \<Rightarrow> int \<Rightarrow> rate_limiter \<Rightarrow> rate_limiter \<times> (py_error + bool)" where
  "try_acquire cost now l =
     (if cost \<le> 0 then (l, Inl ValueError)
      else
        let l1 = refill now l
        in if cost \<le> rl_tokens l1 then (take_tokens cost l1, Inr True) else (l1, Inr False))"

partial_function (option) acquire_loop ::
    "rat \<Rightarrow> (nat \<Rightarrow> rat \<Rightarrow> int) \<Rightarrow> nat \<Rightarrow> rat \<Rightarrow> rate_limiter \<Rightarrow> rate_limiter option" where
  "acquire_loop cost clk n wait_s l =
     (let l1 = refill (clk n wait_s) l
      in if cost \<le> rl_tokens l1 then Some (take_tokens cost l1)
         else acquire_loop cost clk (Suc n) (float_of (float_of (cost - rl_tokens l1) / rl_rate l1)) l1)"

definition acquire ::
    "rat \<Rightarrow> (nat \<Rightarrow> rat \<Rightarrow> int) \<Rightarrow> rate_limiter \<Rightarrow> (rate_limiter \<times> (py_error + unit)) option" where
  "acquire cost clk l =
     (if cost \<le> 0 then Some (l, Inl ValueError)
      else if rl_capacity l < cost then Some (l, Inl ValueError)
      else case acquire_loop cost clk 0 0 l of None \<Rightarrow> None | Some l' \<Rightarrow> Some (l', Inr ()))"

subsection \<open>The bucket\<close>

definition limiter_ok :: "rate_limiter \<Rightarrow> bool" where
  "limiter_ok l \<longleftrightarrow> 0 < rl_rate l \<and> 0 \<le> rl_tokens l \<and> rl_tokens l \<le> rl_capacity l \<and>
     float_of (rl_tokens l) = rl_tokens l \<and> float_of (rl_capacity l) = rl_capacity l"

lemma float_of_le: "0 \<le> x \<Longrightarrow> float_of x \<le> x + x / 2 ^ 53"
  using float_error [of x] abs_ge_self [of "float_of x - x"] by linarith

lemma float_of_ge: "0 \<le> x \<Longrightarrow> x - x / 2 ^ 53 \<le> float_of x"
  using float_error [of x] abs_ge_minus_self [of "float_of x - x"] by linarith

lemma refill_fields [simp]: "rl_capacity (refill now l) = rl_capacity l" "rl_rate (refill now l) = rl_rate l"
  by (simp_all add: refill_def Let_def)

lemma take_fields [simp]: "rl_capacity (take_tokens c l) = rl_capacity l" "rl_rate (take_tokens c l) = rl_rate l"
  "rl_last (take_tokens c l) = rl_last l"
  by (simp_all add: take_tokens_def)

lemma limiter_ok_refill: "limiter_ok l \<Longrightarrow> limiter_ok (refill now l)"
  by (auto simp: limiter_ok_def refill_def Let_def min_def intro!: float_of_nonneg add_nonneg_nonneg)

lemma limiter_ok_take:
  assumes "limiter_ok l" and "0 < cost" and "cost \<le> rl_tokens l"
  shows "limiter_ok (take_tokens cost l)"
proof -
  have "float_of (rl_tokens l - cost) \<le> float_of (rl_tokens l)" using assms(2) by (intro float_of_mono) simp
  with assms show ?thesis by (auto simp: limiter_ok_def take_tokens_def intro: float_of_nonneg)
qed

lemma limiter_ok_try: "limiter_ok l \<Longrightarrow> limiter_ok (fst (try_acquire cost now l))"
  by (simp add: try_acquire_def Let_def limiter_ok_refill limiter_ok_take)

subsection \<open>What is granted\<close>

text \<open>The calls of \<open>try_acquire\<close> in a window, each with its time and cost: the sum of what they got.\<close>

fun granted :: "(int \<times> rat) list \<Rightarrow> rate_limiter \<Rightarrow> rat" where
  "granted [] l = 0"
| "granted ((now, cost) # calls) l =
     (case try_acquire cost now l of
        (l1, r) \<Rightarrow> (if r = Inr True then cost else 0) + granted calls l1)"

text \<open>What a bucket can still give until a time, the rounding of the refills included.\<close>

definition reserve :: "int \<Rightarrow> rate_limiter \<Rightarrow> rat" where
  "reserve till l = rl_tokens l + rl_rate l * (1 + 1 / 2 ^ 50) * (of_int (till - rl_last l) / 1000000000)"

text \<open>What a refill after a positive time adds, the rounding of its three operations included.\<close>

definition accrued :: "int \<Rightarrow> rate_limiter \<Rightarrow> rat" where
  "accrued now l = float_of (elapsed_seconds now l * rl_rate l)"

lemma refill_later:
  "0 < elapsed_seconds now l \<Longrightarrow> refill now l =
     l\<lparr>rl_tokens := min (rl_capacity l) (float_of (rl_tokens l + accrued now l)), rl_last := now\<rparr>"
  by (simp add: refill_def accrued_def)

lemma refill_not_later: "\<not> 0 < elapsed_seconds now l \<Longrightarrow> refill now l = l"
  by (simp add: refill_def)

lemma elapsed_pos_iff: "0 < elapsed_seconds now l \<longleftrightarrow> rl_last l < now"
proof -
  define x where "x = (of_int (now - rl_last l) :: rat) / 1000000000"
  have "0 < float_of x \<longleftrightarrow> 0 < x"
    using float_of_ge [of x] float_of_mono [of x 0] by (cases "0 < x") (auto simp: field_simps)
  also have "0 < x \<longleftrightarrow> rl_last l < now" by (simp add: x_def)
  finally show ?thesis by (simp add: elapsed_seconds_def x_def)
qed

lemma accrued_bounds:
  assumes "0 < rl_rate l" and "rl_last l \<le> now"
  defines "y \<equiv> rl_rate l * (of_int (now - rl_last l) / 1000000000)"
  shows "0 \<le> accrued now l" "accrued now l \<le> y * (1 + 1 / 2 ^ 50)" "y * (1 - 1 / 2 ^ 50) \<le> accrued now l"
proof -
  define x where "x = (of_int (now - rl_last l) :: rat) / 1000000000"
  have x: "0 \<le> x" using assms(2) by (simp add: x_def)
  have y: "y = rl_rate l * x" "0 \<le> rl_rate l * x" using x assms(1) by (simp_all add: y_def x_def)
  have e: "elapsed_seconds now l = float_of x" by (simp add: elapsed_seconds_def x_def)
  let ?z = "float_of x * rl_rate l"
  have a: "float_of x \<le> x * (1 + 1 / 2 ^ 53)" "x * (1 - 1 / 2 ^ 53) \<le> float_of x"
    using float_of_le [OF x] float_of_ge [OF x] by (simp_all add: algebra_simps)
  have z: "0 \<le> ?z" using float_of_nonneg [OF x] assms(1) by simp
  then show "0 \<le> accrued now l" by (simp add: accrued_def e float_of_nonneg)
  have b: "accrued now l \<le> ?z * (1 + 1 / 2 ^ 53)" "?z * (1 - 1 / 2 ^ 53) \<le> accrued now l"
    using float_of_le [OF z] float_of_ge [OF z] by (simp_all add: accrued_def e algebra_simps)
  have "?z * (1 + 1 / 2 ^ 53) \<le> x * (1 + 1 / 2 ^ 53) * rl_rate l * (1 + 1 / 2 ^ 53)"
    using a assms(1) by (intro mult_right_mono) auto
  also have "\<dots> = rl_rate l * x * ((1 + 1 / 2 ^ 53) * (1 + 1 / 2 ^ 53))" by (simp add: ac_simps)
  also have "\<dots> \<le> rl_rate l * x * (1 + 1 / 2 ^ 50)" using y(2) by (intro mult_left_mono) simp_all
  finally show "accrued now l \<le> y * (1 + 1 / 2 ^ 50)" unfolding y(1) using b(1) by (blast intro: order_trans)
  have "y * (1 - 1 / 2 ^ 50) \<le> rl_rate l * x * ((1 - 1 / 2 ^ 53) * (1 - 1 / 2 ^ 53))"
    unfolding y(1) using y(2) by (intro mult_left_mono) simp_all
  also have "\<dots> = x * (1 - 1 / 2 ^ 53) * rl_rate l * (1 - 1 / 2 ^ 53)" by (simp add: ac_simps)
  also have "\<dots> \<le> ?z * (1 - 1 / 2 ^ 53)" using a assms(1) by (intro mult_right_mono) auto
  finally show "y * (1 - 1 / 2 ^ 50) \<le> accrued now l" using b(2) by (blast intro: order_trans)
qed

lemma refill_reserve:
  assumes "limiter_ok l" and "now \<le> till" and "rl_last l \<le> till"
  shows "reserve till (refill now l) \<le> reserve till l + rl_capacity l / 2 ^ 53" "rl_last (refill now l) \<le> till"
proof -
  show "rl_last (refill now l) \<le> till" using assms(2,3) by (simp add: refill_def Let_def)
  have ok: "0 < rl_rate l" "0 \<le> rl_tokens l" "rl_tokens l \<le> rl_capacity l" using assms(1) by (auto simp: limiter_ok_def)
  show "reserve till (refill now l) \<le> reserve till l + rl_capacity l / 2 ^ 53"
  proof (cases "rl_last l < now")
    case False
    with ok show ?thesis by (simp add: refill_not_later elapsed_pos_iff)
  next
    case True
    let ?a = "accrued now l"
    note a = accrued_bounds [of l now, OF ok(1) less_imp_le [OF True]]
    have t: "rl_tokens (refill now l) \<le> rl_tokens l + ?a + rl_capacity l / 2 ^ 53"
    proof (cases "rl_tokens l + ?a \<le> rl_capacity l")
      case le: True
      have "0 \<le> rl_tokens l + ?a" using ok(2) a(1) by simp
      from float_of_le [OF this] le True show ?thesis by (simp add: refill_later elapsed_pos_iff field_simps min_def)
    next
      case False
      with ok True show ?thesis by (simp add: refill_later elapsed_pos_iff min_def)
    qed
    have l: "rl_last (refill now l) = now" using True by (simp add: refill_later elapsed_pos_iff)
    have "rl_rate l * (1 + 1 / 2 ^ 50) * (of_int (till - rl_last l) / 1000000000) =
        rl_rate l * (of_int (now - rl_last l) / 1000000000) * (1 + 1 / 2 ^ 50) +
        rl_rate l * (1 + 1 / 2 ^ 50) * (of_int (till - now) / 1000000000)"
      by (simp add: field_simps)
    with t a(2) show ?thesis unfolding reserve_def l refill_fields by linarith
  qed
qed

lemma take_reserve:
  assumes "limiter_ok l" and "0 < cost" and "cost \<le> rl_tokens l"
  shows "cost + reserve till (take_tokens cost l) \<le> reserve till l + rl_capacity l / 2 ^ 53"
proof -
  have "float_of (rl_tokens l - cost) \<le> rl_tokens l - cost + (rl_tokens l - cost) / 2 ^ 53"
    using assms by (intro float_of_le) simp
  also have "\<dots> \<le> rl_tokens l - cost + rl_capacity l / 2 ^ 53" using assms by (simp add: limiter_ok_def divide_right_mono)
  finally show ?thesis by (simp add: reserve_def take_tokens_def)
qed

lemma try_reserve:
  assumes "limiter_ok l" and "now \<le> till" and "rl_last l \<le> till" and "try_acquire cost now l = (l1, r)"
  shows "(if r = Inr True then cost else 0) + reserve till l1 \<le> reserve till l + rl_capacity l / 2 ^ 52"
    and "rl_last l1 \<le> till" and "rl_capacity l1 = rl_capacity l"
proof -
  note f = refill_reserve [OF assms(1-3)] limiter_ok_refill [OF assms(1), of now]
  have c: "0 \<le> rl_capacity l" using assms(1) by (simp add: limiter_ok_def)
  from assms(4) f show "rl_last l1 \<le> till" "rl_capacity l1 = rl_capacity l"
    using assms(3) by (auto simp: try_acquire_def Let_def split: if_splits)
  show "(if r = Inr True then cost else 0) + reserve till l1 \<le> reserve till l + rl_capacity l / 2 ^ 52"
    using assms(4) f take_reserve [OF f(3), of cost till] c
    by (auto simp: try_acquire_def Let_def split: if_splits)
qed

lemma granted_reserve:
  assumes "limiter_ok l" and "\<forall>t \<in> fst ` set calls. t \<le> till" and "rl_last l \<le> till"
  shows "granted calls l \<le> reserve till l + of_nat (length calls) * (rl_capacity l / 2 ^ 52)"
  using assms
proof (induction calls arbitrary: l)
  case Nil
  have "0 \<le> rl_rate l * (1 + 1 / 2 ^ 50) * (of_int (till - rl_last l) / 1000000000)"
    using Nil by (intro mult_nonneg_nonneg) (auto simp: limiter_ok_def)
  moreover have "0 \<le> rl_tokens l" using Nil by (simp add: limiter_ok_def)
  ultimately show ?case by (simp add: reserve_def)
next
  case (Cons c calls)
  obtain now cost where c: "c = (now, cost)" by force
  obtain l1 r where t: "try_acquire cost now l = (l1, r)" by force
  note s = try_reserve [OF Cons.prems(1) _ Cons.prems(3) t]
  have now: "now \<le> till" using Cons.prems(2) c by simp
  have "limiter_ok l1" using limiter_ok_try [OF Cons.prems(1), of cost now] t by simp
  from Cons.IH [OF this _ s(2)] Cons.prems(2) now
  have "granted calls l1 \<le> reserve till l1 + of_nat (length calls) * (rl_capacity l1 / 2 ^ 52)" by simp
  with s(1) [OF now] s(3) [OF now] show ?case
    by (simp add: c t distrib_right add_divide_distrib del: power_numeral split del: if_split)
qed

text \<open>
  C13: The limiter keeps its rate. Of a full bucket the calls of any window together get at most the
  capacity plus the rate times the length of the window; each operation on the floats can add
  2^-52 of the capacity, and the rate is kept up to a factor of 1 + 2^-50.
\<close>

theorem limiter_keeps_rate:
  assumes "limiter_init capacity rate None t0 = Inr l" and "float_of capacity = capacity"
    and "\<forall>t \<in> fst ` set calls. t \<le> till" and "t0 \<le> till"
  shows "granted calls l \<le> capacity + rate * (1 + 1 / 2 ^ 50) * (of_int (till - t0) / 1000000000)
    + of_nat (length calls) * (capacity / 2 ^ 52)"
proof -
  from assms(1) have l: "l = \<lparr>rl_capacity = capacity, rl_rate = rate, rl_tokens = capacity, rl_last = t0\<rparr>"
    and pos: "0 < capacity" "0 < rate"
    by (auto simp: limiter_init_def split: if_splits)
  have "limiter_ok l" using pos assms(2) by (simp add: l limiter_ok_def)
  from granted_reserve [OF this assms(3)] assms(4) show ?thesis by (simp add: l reserve_def)
qed

theorem limiter_keeps_rate_witness:
  "granted [(0, 1200), (1000000000, 19), (1000000000, 19)]
     \<lparr>rl_capacity = 1200, rl_rate = 20, rl_tokens = 1200, rl_last = 0\<rparr> < 1221"
proof -
  have "float_of 1200 = 1200"
    by (simp add: float_of_def float_pos_def halvings.simps doublings.simps power_int_minus)
  from limiter_keeps_rate [OF _ this, of 20 0 _ "[(0, 1200), (1000000000, 19), (1000000000, 19)]" 1000000000]
  show ?thesis by (simp add: limiter_init_def)
qed

subsection \<open>Waiting for tokens\<close>

text \<open>The bucket is not so large that a nanosecond's refill is lost in the rounding.\<close>

definition fine_grained :: "rate_limiter \<Rightarrow> bool" where
  "fine_grained l \<longleftrightarrow> rl_capacity l / 2 ^ 50 \<le> rl_rate l / 1000000000"

lemma refill_gain:
  assumes "limiter_ok l" and "fine_grained l" and "rl_last l < now"
  shows "min (rl_capacity l) (rl_tokens l + rl_rate l / 2000000000) \<le> rl_tokens (refill now l)"
    and "rl_last (refill now l) = now"
proof -
  let ?a = "accrued now l" and ?d = "of_int (now - rl_last l) / 1000000000 :: rat"
  have ok: "0 < rl_rate l" "0 \<le> rl_tokens l" "rl_tokens l \<le> rl_capacity l" "float_of (rl_capacity l) = rl_capacity l"
    using assms(1) by (auto simp: limiter_ok_def)
  note a = accrued_bounds [of l now, OF ok(1) less_imp_le [OF assms(3)]]
  show "rl_last (refill now l) = now" using assms(3) by (simp add: refill_later elapsed_pos_iff)
  have "(1 :: rat) \<le> of_int (now - rl_last l)" using assms(3) by linarith
  then have "rl_rate l * (1 / 1000000000) \<le> rl_rate l * ?d" using ok(1) by (intro mult_left_mono) auto
  with a(3) have "rl_rate l / 1000000000 * (1 - 1 / 2 ^ 50) \<le> ?a" by (simp add: field_simps)
  then have g: "rl_rate l / 1000000000 * (3 / 4) \<le> ?a" using ok(1) by (simp add: field_simps)
  show "min (rl_capacity l) (rl_tokens l + rl_rate l / 2000000000) \<le> rl_tokens (refill now l)"
  proof (cases "rl_tokens l + ?a \<le> rl_capacity l")
    case True
    have s: "0 \<le> rl_tokens l + ?a" using ok(2) a(1) by simp
    have "(rl_tokens l + ?a) / 2 ^ 53 \<le> rl_capacity l / 2 ^ 53" using True by (simp add: divide_right_mono)
    moreover have "rl_capacity l / 2 ^ 53 \<le> rl_rate l / 1000000000 / 8"
      using assms(2) by (simp add: fine_grained_def)
    moreover note float_of_ge [OF s] g ok(1)
    ultimately have "rl_tokens l + rl_rate l / 2000000000 \<le> float_of (rl_tokens l + ?a)" by linarith
    with assms(3) show ?thesis by (simp add: refill_later elapsed_pos_iff min_def)
  next
    case False
    then have "rl_capacity l \<le> float_of (rl_tokens l + ?a)" using float_of_mono [of "rl_capacity l"] ok(4) by force
    with assms(3) show ?thesis by (simp add: refill_later elapsed_pos_iff)
  qed
qed

lemma acquire_loop_returns:
  assumes "limiter_ok l" and "fine_grained l" and "0 < cost" and "cost \<le> rl_capacity l"
    and "\<And>k w w'. clk k w < clk (Suc k) w'" and "rl_last l < clk n w"
    and "rl_capacity l \<le> rl_tokens l + of_nat m * (rl_rate l / 2000000000)"
  shows "\<exists>l'. acquire_loop cost clk n w l = Some l' \<and> limiter_ok l' \<and> rl_capacity l' = rl_capacity l \<and>
    rl_rate l' = rl_rate l"
  using assms
proof (induction m arbitrary: n w l)
  case (0 n w l)
  let ?l1 = "refill (clk n w) l"
  have "0 \<le> rl_rate l / 2000000000" using 0(1) by (simp add: limiter_ok_def)
  then have "rl_capacity l \<le> rl_tokens ?l1" using refill_gain(1) [OF 0(1,2,6)] 0(7) by (simp add: min_def split: if_splits)
  with 0(4) have c: "cost \<le> rl_tokens ?l1" by simp
  with limiter_ok_take [OF limiter_ok_refill [OF 0(1), of "clk n w"] 0(3)] show ?case
    by (subst acquire_loop.simps) (simp add: Let_def)
next
  case (Suc m n w l)
  let ?l1 = "refill (clk n w) l"
  note g = refill_gain [OF Suc(2,3,7)] and ok = limiter_ok_refill [OF Suc(2), of "clk n w"]
  show ?case
  proof (cases "cost \<le> rl_tokens ?l1")
    case True
    with limiter_ok_take [OF ok Suc(4)] show ?thesis by (subst acquire_loop.simps) (simp add: Let_def)
  next
    case False
    with Suc(5) g(1) have "rl_tokens l + rl_rate l / 2000000000 \<le> rl_tokens ?l1" by (simp add: min_def split: if_splits)
    with Suc(8) have m: "rl_capacity ?l1 \<le> rl_tokens ?l1 + of_nat m * (rl_rate ?l1 / 2000000000)"
      by (simp add: distrib_right add_divide_distrib)
    have "fine_grained ?l1" using Suc(3) by (simp add: fine_grained_def)
    from Suc.IH [OF ok this Suc(4) _ Suc(6) _ m] Suc(5,6) g(2) False show ?thesis
      by (subst acquire_loop.simps) (simp add: Let_def)
  qed
qed

text \<open>
  C14: Waiting for tokens ends. On a bucket that is not so large that the tokens of a nanosecond are
  lost in the rounding, and with a clock that moves between two readings, a call of acquire for no
  more than the capacity returns, and it leaves the bucket within its bounds.
\<close>

theorem acquire_returns:
  assumes "limiter_ok l" and "fine_grained l" and "0 < cost" and "cost \<le> rl_capacity l"
    and "\<And>k w w'. clk k w < clk (Suc k) w'" and "rl_last l < clk 0 0"
  shows "\<exists>l'. acquire cost clk l = Some (l', Inr ()) \<and> 0 \<le> rl_tokens l' \<and> rl_tokens l' \<le> rl_capacity l'"
proof -
  have r: "0 < rl_rate l / 2000000000" using assms(1) by (simp add: limiter_ok_def)
  obtain m :: nat where "rl_capacity l / (rl_rate l / 2000000000) \<le> of_nat m" using real_arch_simple by blast
  then have "rl_capacity l \<le> rl_tokens l + of_nat m * (rl_rate l / 2000000000)"
    using r assms(1) by (simp add: limiter_ok_def pos_divide_le_eq add_increasing)
  from acquire_loop_returns [where clk = clk and n = 0 and w = 0, OF assms this] assms(3,4) show ?thesis
    by (auto simp: acquire_def limiter_ok_def)
qed

theorem acquire_returns_witness:
  "\<exists>l'. acquire 6 (\<lambda>n w. int n + 1) \<lparr>rl_capacity = 1200, rl_rate = 20, rl_tokens = 0, rl_last = 0\<rparr> = Some (l', Inr ())"
proof -
  have "float_of 1200 = 1200"
    by (simp add: float_of_def float_pos_def halvings.simps doublings.simps power_int_minus)
  with acquire_returns [of "\<lparr>rl_capacity = 1200, rl_rate = 20, rl_tokens = 0, rl_last = 0\<rparr>" 6 "\<lambda>n w. int n + 1"]
  show ?thesis by (auto simp: limiter_ok_def fine_grained_def)
qed

end
