(* ===== verification/Simulation_Gateway.thy ===== *)
theory Simulation_Gateway
  imports Venue_Sim Event_Bus
begin

text \<open>
  \<open>order_gateways/simulation.py\<close>: the venue simulator of a live session. Its handlers sleep for the
  latencies of the configuration. The bus runs one handler at a time per topic, so there are two
  lanes, the orders and the market data, and while a handler of one lane sleeps the other lane goes
  on. A handler is therefore cut at its sleeps: a \<open>suspension\<close> holds what it needs to go on, \<open>resume\<close>
  runs it to its next sleep, and a sleep of no duration is not one. Resting orders are mutable
  objects that a sleeping handler keeps a reference to: they live in \<open>sg_orders\<close> and are referred to
  by their index there. What a handler raises ends it, on the state it leaves. \<open>sg_sent\<close> records what
  the bus took.
\<close>

record sim_gateway =
  sg_bus :: async_bus
  sg_now :: timestamp
  sg_cfg :: sim_config
  sg_rng :: "nat \<Rightarrow> rat"
  sg_rng_n :: nat
  sg_uuid_src :: "nat \<Rightarrow> uuid"
  sg_uuid_n :: nat
  sg_tops :: "(string, sim_top) dict"
  sg_orders :: "resting_order list"
  sg_resting :: "(uuid, nat) dict"
  sg_started :: bool
  sg_sent :: "(topic \<times> event) list"

definition simulation_init ::
    "async_bus \<Rightarrow> timestamp \<Rightarrow> sim_config \<Rightarrow> (nat \<Rightarrow> rat) \<Rightarrow> (nat \<Rightarrow> uuid) \<Rightarrow> sim_gateway" where
  "simulation_init b now cfg rng src =
     \<lparr>sg_bus = b, sg_now = now, sg_cfg = cfg, sg_rng = rng, sg_rng_n = 0, sg_uuid_src = src,
      sg_uuid_n = 0, sg_tops = [], sg_orders = [], sg_resting = [], sg_started = False, sg_sent = []\<rparr>"

datatype suspension =
    Idle
  | SubmitWait order_request
  | MarketWait order_request string
  | SecondWait order_request string dec dec
  | CancelWait cancel_request
  | AmendWait amend_request
  | MatchWait nat trade_event "uuid list"
  | SecondMatchWait nat dec dec dec trade_event "uuid list"

type_synonym 'a sim_result = "sim_gateway \<times> (py_error + 'a)"

definition sim_start :: "sim_gateway \<Rightarrow> unit sim_result" where
  "sim_start s =
     (if sg_started s then (s, Inr ())
      else
        let s1 = s\<lparr>sg_started := True\<rparr>
        in case subscribe ORDERS ''_on_order_event'' (sg_bus s1) of
             Inl e \<Rightarrow> (s1, Inl e)
           | Inr b \<Rightarrow>
               (case subscribe MARKET_DATA ''_on_market_data'' b of
                  Inl e \<Rightarrow> (s1\<lparr>sg_bus := b\<rparr>, Inl e)
                | Inr b2 \<Rightarrow> (s1\<lparr>sg_bus := b2\<rparr>, Inr ())))"

definition sim_stop :: "sim_gateway \<Rightarrow> sim_gateway" where
  "sim_stop s = s\<lparr>sg_started := False\<rparr>"

subsection \<open>Publishing\<close>

definition sg_publish :: "topic \<Rightarrow> event \<Rightarrow> sim_gateway \<Rightarrow> unit sim_result" where
  "sg_publish t e s =
     (case publish t e (sg_bus s) of
        (b, Inl err) \<Rightarrow> (s\<lparr>sg_bus := b\<rparr>, Inl err)
      | (b, Inr _) \<Rightarrow> (s\<lparr>sg_bus := b, sg_sent := sg_sent s @ [(t, e)]\<rparr>, Inr ()))"

definition sim_response :: "uuid \<Rightarrow> coid \<Rightarrow> string \<Rightarrow> sim_gateway \<Rightarrow> order_response" where
  "sim_response i c reason s =
     \<lparr>ts_event = sg_now s, ts_ingest = sg_now s, source = sc_venue (sg_cfg s), re_order_id = i, re_coid = c,
      re_reason = reason\<rparr>"

definition sim_publish_reject :: "uuid \<Rightarrow> coid \<Rightarrow> string \<Rightarrow> sim_gateway \<Rightarrow> suspension sim_result" where
  "sim_publish_reject i c reason s =
     and_then (sg_publish ORDERS (EvRejected (sim_response i c reason s)) s) (\<lambda>s _. (s, Inr Idle))"

definition sim_uuid :: "sim_gateway \<Rightarrow> uuid \<times> sim_gateway" where
  "sim_uuid s = (sg_uuid_src s (sg_uuid_n s), s\<lparr>sg_uuid_n := Suc (sg_uuid_n s)\<rparr>)"

text \<open>\<open>_publish_fill\<close>, for the order described by a resting record.\<close>

definition sim_fill ::
    "resting_order \<Rightarrow> dec \<Rightarrow> dec \<Rightarrow> dec \<Rightarrow> dec \<Rightarrow> bool \<Rightarrow> sim_gateway \<Rightarrow> fill_event" where
  "sim_fill o1 price qty cumulative leaves is_maker s =
     (let cfg = sg_cfg s
      in \<lparr>ts_event = sg_now s, ts_ingest = sg_now s, source = sc_venue cfg,
          fl_fill_id = sg_uuid_src s (sg_uuid_n s), fl_order_id = ro_order_id o1, fl_coid = ro_coid o1,
          fl_exchange_id = Some (ro_exchange_id o1), fl_strategy = ro_strategy o1,
          fl_instrument = ro_instrument o1, fl_side = ro_side o1, fl_price = price, fl_quantity = qty,
          fl_cumulative = cumulative, fl_leaves = leaves, fl_fee = fee_for cfg (dmul price qty) is_maker,
          fl_fee_currency = (if sc_fee_currency cfg \<noteq> [] then sc_fee_currency cfg else i_quote (ro_instrument o1)),
          fl_is_maker = Some is_maker\<rparr>)"

definition sim_publish_fill ::
    "resting_order \<Rightarrow> dec \<Rightarrow> dec \<Rightarrow> dec \<Rightarrow> dec \<Rightarrow> bool \<Rightarrow> sim_gateway \<Rightarrow> unit sim_result" where
  "sim_publish_fill o1 price qty cumulative leaves is_maker s =
     sg_publish FILLS (EvFill (sim_fill o1 price qty cumulative leaves is_maker s))
       (s\<lparr>sg_uuid_n := Suc (sg_uuid_n s)\<rparr>)"

definition sim_draw_split :: "dec \<Rightarrow> sim_gateway \<Rightarrow> dec \<times> dec \<times> sim_gateway" where
  "sim_draw_split qty s =
     (case split_fill (sg_cfg s) (\<lambda>k. sg_rng s (sg_rng_n s + k)) qty of
        (a, b, n) \<Rightarrow> (a, b, s\<lparr>sg_rng_n := sg_rng_n s + n\<rparr>))"

subsection \<open>Immediate fills\<close>

definition second_fill :: "order_request \<Rightarrow> string \<Rightarrow> dec \<Rightarrow> dec \<Rightarrow> sim_gateway \<Rightarrow> suspension sim_result" where
  "second_fill req xid price second s =
     and_then (sim_publish_fill (resting_of req xid) price second (rq_quantity req) 0 False s) (\<lambda>s _. (s, Inr Idle))"

definition sim_emit_fills :: "order_request \<Rightarrow> string \<Rightarrow> dec \<Rightarrow> sim_gateway \<Rightarrow> suspension sim_result" where
  "sim_emit_fills req xid price s =
     (case sim_draw_split (rq_quantity req) s of
        (first, second, s1) \<Rightarrow>
          and_then
            (if 0 < first
             then sim_publish_fill (resting_of req xid) price first first (dsub (rq_quantity req) first) False s1
             else (s1, Inr ()))
            (\<lambda>s _. if \<not> 0 < second then (s, Inr Idle)
                   else if 0 < sc_fill_ms (sg_cfg s) then (s, Inr (SecondWait req xid price second))
                   else second_fill req xid price second s))"

definition fill_at_market :: "order_request \<Rightarrow> string \<Rightarrow> sim_gateway \<Rightarrow> suspension sim_result" where
  "fill_at_market req xid s =
     (case market_price (sg_cfg s) req (dget (sg_tops s) (instrument_id (rq_instrument req))) of
        None \<Rightarrow> sim_publish_reject (rq_order_id req) (rq_coid req) ''no market data available for fill price'' s
      | Some p \<Rightarrow>
          (case round_price (rq_instrument req) p of
             None \<Rightarrow> (s, Inl DivisionByZero)
           | Some fill_price \<Rightarrow> sim_emit_fills req xid fill_price s))"

definition sim_fill_market :: "order_request \<Rightarrow> string \<Rightarrow> sim_gateway \<Rightarrow> suspension sim_result" where
  "sim_fill_market req xid s =
     (if 0 < sc_fill_ms (sg_cfg s) then (s, Inr (MarketWait req xid)) else fill_at_market req xid s)"

subsection \<open>Order requests\<close>

definition sim_crosses_now :: "order_request \<Rightarrow> sim_gateway \<Rightarrow> bool" where
  "sim_crosses_now req s =
     (case dget (sg_tops s) (instrument_id (rq_instrument req)) of
        None \<Rightarrow> False | Some tb \<Rightarrow> would_cross req tb)"

definition sim_publish_ack :: "order_request \<Rightarrow> string \<Rightarrow> sim_gateway \<Rightarrow> unit sim_result" where
  "sim_publish_ack req xid s =
     sg_publish ORDERS
       (EvAck \<lparr>ts_event = sg_now s, ts_ingest = sg_now s, source = sc_venue (sg_cfg s),
          re_order_id = rq_order_id req, re_coid = rq_coid req, re_reason = [], ak_exchange_id = xid\<rparr>) s"

definition rest_order :: "order_request \<Rightarrow> string \<Rightarrow> sim_gateway \<Rightarrow> sim_gateway" where
  "rest_order req xid s =
     s\<lparr>sg_orders := sg_orders s @ [resting_of req xid],
       sg_resting := dset (rq_order_id req) (length (sg_orders s)) (sg_resting s)\<rparr>"

definition submit_now :: "order_request \<Rightarrow> sim_gateway \<Rightarrow> suspension sim_result" where
  "submit_now req s =
     (let cfg = sg_cfg s; drawn = (0 < sc_reject_probability cfg);
          s1 = (if drawn then s\<lparr>sg_rng_n := Suc (sg_rng_n s)\<rparr> else s)
      in if drawn \<and> sg_rng s (sg_rng_n s) < sc_reject_probability cfg
         then sim_publish_reject (rq_order_id req) (rq_coid req) (sc_reject_reason cfg) s1
         else if rq_type req = OT_POST_ONLY \<and> sim_crosses_now req s1
         then sim_publish_reject (rq_order_id req) (rq_coid req) ''POST_ONLY would cross at submission'' s1
         else
           case sim_uuid s1 of
             (u, s2) \<Rightarrow>
               (let xid = ''sim-'' @ uuid_hex12 u
                in and_then (sim_publish_ack req xid s2) (\<lambda>s _.
                     if rq_type req \<in> {OT_MARKET, OT_IOC, OT_FOK} \<or> sim_crosses_now req s
                     then sim_fill_market req xid s
                     else (rest_order req xid s, Inr Idle))))"

definition sim_handle_order_request :: "order_request \<Rightarrow> sim_gateway \<Rightarrow> suspension sim_result" where
  "sim_handle_order_request req s =
     (if i_exchange (rq_instrument req) \<noteq> sc_venue (sg_cfg s) then (s, Inr Idle)
      else if 0 < sc_submit_ack_ms (sg_cfg s) then (s, Inr (SubmitWait req))
      else submit_now req s)"

subsection \<open>Cancels and amends\<close>

definition cancel_now :: "cancel_request \<Rightarrow> sim_gateway \<Rightarrow> suspension sim_result" where
  "cancel_now req s =
     (let s1 = s\<lparr>sg_resting := dpop (cr_order_id req) (sg_resting s)\<rparr>
      in case dget (sg_resting s) (cr_order_id req) of
           None \<Rightarrow> sim_publish_reject (cr_order_id req) (cr_coid req) ''order not found or already done'' s1
         | Some _ \<Rightarrow>
             and_then (sg_publish ORDERS
                 (EvCancelled (sim_response (cr_order_id req) (cr_coid req) ''user requested'' s1)) s1)
               (\<lambda>s _. (s, Inr Idle)))"

definition sim_handle_cancel_request :: "cancel_request \<Rightarrow> sim_gateway \<Rightarrow> suspension sim_result" where
  "sim_handle_cancel_request req s =
     (if 0 < sc_cancel_ack_ms (sg_cfg s) then (s, Inr (CancelWait req)) else cancel_now req s)"

definition change_order :: "nat \<Rightarrow> (resting_order \<Rightarrow> resting_order) \<Rightarrow> sim_gateway \<Rightarrow> sim_gateway" where
  "change_order a f s = s\<lparr>sg_orders := (sg_orders s)[a := f (sg_orders s ! a)]\<rparr>"

definition amended_order :: "amend_request \<Rightarrow> resting_order \<Rightarrow> resting_order" where
  "amended_order req o1 =
     (let o2 = (case ar_new_price req of None \<Rightarrow> o1 | Some p \<Rightarrow> o1\<lparr>ro_price := p\<rparr>)
      in case ar_new_quantity req of
           None \<Rightarrow> o2
         | Some q \<Rightarrow>
             let already_filled = dsub (ro_quantity o2) (ro_leaves o2)
             in o2\<lparr>ro_quantity := q, ro_leaves := max 0 (dsub q already_filled)\<rparr>)"

definition amend_now :: "amend_request \<Rightarrow> sim_gateway \<Rightarrow> suspension sim_result" where
  "amend_now req s =
     (case dget (sg_resting s) (ar_order_id req) of
        None \<Rightarrow> sim_publish_reject (ar_order_id req) (ar_coid req) ''order not found for amend'' s
      | Some a \<Rightarrow>
          and_then (sg_publish ORDERS
              (EvAmended \<lparr>ts_event = sg_now s, ts_ingest = sg_now s, source = sc_venue (sg_cfg s),
                 re_order_id = ar_order_id req, re_coid = ar_coid req, re_reason = [],
                 am_new_price = ar_new_price req, am_new_quantity = ar_new_quantity req,
                 am_new_exchange_id = None\<rparr>) (change_order a (amended_order req) s))
            (\<lambda>s _. (s, Inr Idle)))"

definition sim_handle_amend_request :: "amend_request \<Rightarrow> sim_gateway \<Rightarrow> suspension sim_result" where
  "sim_handle_amend_request req s =
     (if 0 < sc_cancel_ack_ms (sg_cfg s) then (s, Inr (AmendWait req)) else amend_now req s)"

definition sim_on_order_event :: "event \<Rightarrow> sim_gateway \<Rightarrow> suspension sim_result" where
  "sim_on_order_event e s =
     (case e of
        EvOrderRequest req \<Rightarrow> sim_handle_order_request req s
      | EvCancelRequest req \<Rightarrow> sim_handle_cancel_request req s
      | EvAmendRequest req \<Rightarrow> sim_handle_amend_request req s
      | _ \<Rightarrow> (s, Inr Idle))"

subsection \<open>Resting orders against a trade\<close>

text \<open>
  \<open>_emit_fills_for_resting\<close> up to its sleep: the first part is taken off the leaves and published,
  the second only taken off. The result is the cumulative quantity of the second fill and the part.
\<close>

definition resting_first :: "nat \<Rightarrow> dec \<Rightarrow> sim_gateway \<Rightarrow> (dec \<times> dec) sim_result" where
  "resting_first a price s =
     (let o1 = sg_orders s ! a; prior_filled = dsub (ro_quantity o1) (ro_leaves o1);
          leave = (\<lambda>q. change_order a (\<lambda>o2. o2\<lparr>ro_leaves := dsub (ro_leaves o2) q\<rparr>))
      in case sim_draw_split (ro_leaves o1) s of
           (first, second, s1) \<Rightarrow>
             and_then
               (if 0 < first
                then sim_publish_fill o1 price first (dadd prior_filled first) (dsub (ro_leaves o1) first) True
                       (leave first s1)
                else (s1, Inr ()))
               (\<lambda>s _. (if 0 < second then leave second s else s,
                       Inr (dadd (dadd prior_filled first) second, second))))"

definition resting_second :: "nat \<Rightarrow> dec \<Rightarrow> dec \<Rightarrow> dec \<Rightarrow> sim_gateway \<Rightarrow> unit sim_result" where
  "resting_second a price cumulative second s =
     (let o1 = sg_orders s ! a
      in sim_publish_fill o1 price second cumulative (ro_leaves o1) True s)"

definition drop_if_done :: "nat \<Rightarrow> sim_gateway \<Rightarrow> sim_gateway" where
  "drop_if_done a s =
     (let o1 = sg_orders s ! a
      in if ro_leaves o1 = 0 then s\<lparr>sg_resting := dpop (ro_order_id o1) (sg_resting s)\<rparr> else s)"

text \<open>The body of the loop behind its sleep; the rest of the loop is the continuation.\<close>

definition match_order ::
    "nat \<Rightarrow> trade_event \<Rightarrow> uuid list \<Rightarrow> (sim_gateway \<Rightarrow> suspension sim_result) \<Rightarrow> sim_gateway \<Rightarrow> suspension sim_result" where
  "match_order a t ids rest s =
     (let price = ro_price (sg_orders s ! a)
      in and_then (resting_first a price s) (\<lambda>s (cumulative, second).
           if \<not> 0 < second then rest (drop_if_done a s)
           else if 0 < sc_fill_ms (sg_cfg s) then (s, Inr (SecondMatchWait a price cumulative second t ids))
           else and_then (resting_second a price cumulative second s) (\<lambda>s _. rest (drop_if_done a s))))"

primrec match_rest :: "trade_event \<Rightarrow> uuid list \<Rightarrow> sim_gateway \<Rightarrow> suspension sim_result" where
  "match_rest t [] = (\<lambda>s. (s, Inr Idle))"
| "match_rest t (i # ids) =
     (\<lambda>s. case dget (sg_resting s) i of
            None \<Rightarrow> match_rest t ids s
          | Some a \<Rightarrow>
              if instrument_id (ro_instrument (sg_orders s ! a)) \<noteq> instrument_id (tr_instrument t) \<or>
                 \<not> trade_crosses t (sg_orders s ! a)
              then match_rest t ids s
              else if 0 < sc_fill_ms (sg_cfg s) then (s, Inr (MatchWait a t ids))
              else match_order a t ids (match_rest t ids) s)"

definition sim_on_market_data :: "event \<Rightarrow> sim_gateway \<Rightarrow> suspension sim_result" where
  "sim_on_market_data e s =
     (case e of
        EvTick t \<Rightarrow> (s\<lparr>sg_tops := dset (instrument_id (tk_instrument t))
                              (Top (Some (tk_bid_price t)) (Some (tk_ask_price t))) (sg_tops s)\<rparr>, Inr Idle)
      | EvTrade t \<Rightarrow> match_rest t (dkeys (sg_resting s)) s
      | _ \<Rightarrow> (s, Inr Idle))"

subsection \<open>The two lanes\<close>

text \<open>A handler behind its sleep, up to the next one or its end.\<close>

fun resume :: "suspension \<Rightarrow> sim_gateway \<Rightarrow> suspension sim_result" where
  "resume Idle s = (s, Inr Idle)"
| "resume (SubmitWait req) s = submit_now req s"
| "resume (MarketWait req xid) s = fill_at_market req xid s"
| "resume (SecondWait req xid price second) s = second_fill req xid price second s"
| "resume (CancelWait req) s = cancel_now req s"
| "resume (AmendWait req) s = amend_now req s"
| "resume (MatchWait a t ids) s = match_order a t ids (match_rest t ids) s"
| "resume (SecondMatchWait a price cumulative second t ids) s =
     and_then (resting_second a price cumulative second s) (\<lambda>s _. match_rest t ids (drop_if_done a s))"

record sim_lanes =
  ln_venue :: sim_gateway
  ln_orders :: suspension
  ln_market :: suspension

text \<open>
  What can happen next: a lane that is idle takes an event, a sleeping handler goes on, time passes.
  A handler that raises is over.
\<close>

datatype sim_move = OrderEvent event | MarketEvent event | ResumeOrders | ResumeMarket | Elapse timestamp

definition settle :: "suspension sim_result \<Rightarrow> sim_gateway \<times> suspension" where
  "settle m = (case m of (s, Inl _) \<Rightarrow> (s, Idle) | (s, Inr w) \<Rightarrow> (s, w))"

definition orders_lane :: "suspension sim_result \<Rightarrow> sim_lanes \<Rightarrow> sim_lanes" where
  "orders_lane m l = (case settle m of (s, w) \<Rightarrow> l\<lparr>ln_venue := s, ln_orders := w\<rparr>)"

definition market_lane :: "suspension sim_result \<Rightarrow> sim_lanes \<Rightarrow> sim_lanes" where
  "market_lane m l = (case settle m of (s, w) \<Rightarrow> l\<lparr>ln_venue := s, ln_market := w\<rparr>)"

fun sim_do :: "sim_move \<Rightarrow> sim_lanes \<Rightarrow> sim_lanes" where
  "sim_do (OrderEvent e) l =
     (if ln_orders l = Idle then orders_lane (sim_on_order_event e (ln_venue l)) l else l)"
| "sim_do (MarketEvent e) l =
     (if ln_market l = Idle then market_lane (sim_on_market_data e (ln_venue l)) l else l)"
| "sim_do ResumeOrders l = orders_lane (resume (ln_orders l) (ln_venue l)) l"
| "sim_do ResumeMarket l = market_lane (resume (ln_market l) (ln_venue l)) l"
| "sim_do (Elapse t) l = l\<lparr>ln_venue := (ln_venue l)\<lparr>sg_now := max t (sg_now (ln_venue l))\<rparr>\<rparr>"

definition sim_run :: "sim_move list \<Rightarrow> sim_lanes \<Rightarrow> sim_lanes" where
  "sim_run ms l = fold sim_do ms l"

end
