(* ===== verification/Simulation_Properties.thy ===== *)
theory Simulation_Properties
  imports Simulation_Gateway Backtest_Properties
begin

text \<open>
  The venue simulator under every interleaving of its two lanes: a fill never comes before the
  acknowledgement of its order, but one can come after the confirmation of its cancel.
\<close>

subsection \<open>A bus with room\<close>

text \<open>A bus that takes the next \<open>n\<close> publications of any topic.\<close>

definition room :: "nat \<Rightarrow> async_bus \<Rightarrow> bool" where
  "room n b \<longleftrightarrow> \<not> ab_stopped b \<and>
     (\<forall>t. \<forall>sub \<in> set (topic_subs t b). int (length (sb_queue sub)) + int n \<le> ab_queue_size b)"

lemma room_publish:
  assumes "room (Suc n) b"
  shows "\<exists>b'. publish t e b = (b', Inr ()) \<and> room n b'"
proof (cases "dget (ab_subscribers b) t")
  case None
  moreover have "room n b" using assms by (force simp: room_def)
  ultimately show ?thesis by (simp add: publish_def room_def)
next
  case (Some subs)
  have s: "topic_subs t b = subs" using Some by (simp add: topic_subs_def)
  have r: "int (length (sb_queue sub)) + int (Suc n) \<le> ab_queue_size b" if "sub \<in> set subs" for sub
    using assms that unfolding room_def s [symmetric] by blast
  then have ok: "snd (put_all (ab_queue_size b) e subs)" by (force simp: put_all_ok_iff)
  let ?subs = "map (\<lambda>s. s\<lparr>sb_queue := sb_queue s @ [Event e]\<rparr>) subs"
  let ?b = "b\<lparr>ab_subscribers := dset t ?subs (ab_subscribers b)\<rparr>"
  have "publish t e b = (?b, Inr ())"
    using assms Some ok put_all_ok [OF ok] by (auto simp: publish_def room_def split: prod.splits)
  moreover have "room n ?b"
  proof -
    have "int (length (sb_queue sub)) + int n \<le> ab_queue_size b" if "sub \<in> set (topic_subs u ?b)" for u sub
    proof (cases "u = t")
      case True
      with that r show ?thesis by (fastforce simp: topic_subs_dset)
    next
      case False
      with that assms show ?thesis by (force simp: topic_subs_dset room_def)
    qed
    with assms show ?thesis by (simp add: room_def)
  qed
  ultimately show ?thesis by blast
qed

subsection \<open>Acknowledgements come first\<close>

definition acks :: "(topic \<times> event) list \<Rightarrow> (uuid \<times> string) set" where
  "acks es = {(re_order_id a, ak_exchange_id a) | a. EvAck a \<in> snd ` set es}"

definition acked_fills :: "(topic \<times> event) list \<Rightarrow> bool" where
  "acked_fills es \<longleftrightarrow>
     (\<forall>n < length es. \<forall>f. snd (es ! n) = EvFill f \<longrightarrow>
        (\<exists>x. fl_exchange_id f = Some x \<and> (fl_order_id f, x) \<in> acks (take n es)))"

lemma acks_append [simp]: "acks (es @ es') = acks es \<union> acks es'"
  by (auto simp: acks_def)

lemma acks_Nil [simp]: "acks [] = {}"
  by (simp add: acks_def)

lemma acked_fills_snoc:
  "acked_fills (es @ [e]) \<longleftrightarrow> acked_fills es \<and>
     (\<forall>f. snd e = EvFill f \<longrightarrow> (\<exists>x. fl_exchange_id f = Some x \<and> (fl_order_id f, x) \<in> acks es))"
  by (auto simp: acked_fills_def nth_append less_Suc_eq all_conj_distrib imp_conjL)

text \<open>
  What every suspension of the venue keeps: the orders it refers to are acknowledged, and the fills
  sent so far came after the acknowledgements.
\<close>

definition acked_venue :: "sim_gateway \<Rightarrow> bool" where
  "acked_venue s \<longleftrightarrow> acked_fills (sg_sent s) \<and>
     (\<forall>o1 \<in> set (sg_orders s). (ro_order_id o1, ro_exchange_id o1) \<in> acks (sg_sent s)) \<and>
     (\<forall>a \<in> snd ` set (sg_resting s). a < length (sg_orders s))"

fun acked_wait :: "sim_gateway \<Rightarrow> suspension \<Rightarrow> bool" where
  "acked_wait s (MarketWait req xid) = ((rq_order_id req, xid) \<in> acks (sg_sent s))"
| "acked_wait s (SecondWait req xid price second) = ((rq_order_id req, xid) \<in> acks (sg_sent s))"
| "acked_wait s (MatchWait a t ids) = (a < length (sg_orders s))"
| "acked_wait s (SecondMatchWait a price c q t ids) = (a < length (sg_orders s))"
| "acked_wait s _ = True"

definition later_than :: "sim_gateway \<Rightarrow> sim_gateway \<Rightarrow> bool" where
  "later_than s s' \<longleftrightarrow> acks (sg_sent s) \<subseteq> acks (sg_sent s') \<and> length (sg_orders s) \<le> length (sg_orders s')"

lemma later_refl [simp]: "later_than s s"
  by (simp add: later_than_def)

lemma later_trans: "later_than s s' \<Longrightarrow> later_than s' s'' \<Longrightarrow> later_than s s''"
  by (auto simp: later_than_def)

lemma later_wait: "acked_wait s w \<Longrightarrow> later_than s s' \<Longrightarrow> acked_wait s' w"
  by (cases w) (auto simp: later_than_def)

text \<open>An operation is fine from a state when it leaves the invariant, whatever it returns or raises.\<close>

definition fine :: "sim_gateway \<Rightarrow> (sim_gateway \<Rightarrow> 'a \<Rightarrow> bool) \<Rightarrow> 'a sim_result \<Rightarrow> bool" where
  "fine s0 P m \<longleftrightarrow> (case m of (s, r) \<Rightarrow> acked_venue s \<and> later_than s0 s \<and> (\<forall>x. r = Inr x \<longrightarrow> P s x))"

lemma fine_value [simp]: "fine s0 P (s, Inr x) \<longleftrightarrow> acked_venue s \<and> later_than s0 s \<and> P s x"
  "fine s0 P (s, Inl e) \<longleftrightarrow> acked_venue s \<and> later_than s0 s"
  by (simp_all add: fine_def)

lemma fine_and_then:
  assumes "fine s0 P m"
    and "\<And>s x. acked_venue s \<Longrightarrow> later_than s0 s \<Longrightarrow> P s x \<Longrightarrow> fine s0 Q (k s x)"
  shows "fine s0 Q (and_then m k)"
  using assms by (cases m; cases "snd m") auto

lemma fine_later: "later_than s0 s \<Longrightarrow> fine s P m \<Longrightarrow> fine s0 P m"
  by (cases m) (auto simp: fine_def intro: later_trans)

lemma fine_mono: "fine s P m \<Longrightarrow> (\<And>s' x. P s' x \<Longrightarrow> later_than s s' \<Longrightarrow> Q s' x) \<Longrightarrow> fine s Q m"
  by (cases m) (auto simp: fine_def)

abbreviation waits :: "sim_gateway \<Rightarrow> suspension \<Rightarrow> bool" where
  "waits s w \<equiv> acked_wait s w"

lemma publish_fine:
  assumes "acked_venue s" and "\<And>f. e = EvFill f \<Longrightarrow> \<exists>x. fl_exchange_id f = Some x \<and> (fl_order_id f, x) \<in> acks (sg_sent s)"
  shows "fine s (\<lambda>s' _. \<forall>a. e = EvAck a \<longrightarrow> (re_order_id a, ak_exchange_id a) \<in> acks (sg_sent s')) (sg_publish t e s)"
  using assms
  by (auto simp: sg_publish_def fine_def acked_venue_def later_than_def acked_fills_snoc split: prod.splits sum.splits)
    (auto simp: acks_def)

lemma publish_other_fine:
  "acked_venue s \<Longrightarrow> (\<And>f. e \<noteq> EvFill f) \<Longrightarrow> fine s (\<lambda>_ _. True) (sg_publish t e s)"
  by (rule fine_mono [OF publish_fine]) auto

lemma reject_fine: "acked_venue s \<Longrightarrow> fine s waits (sim_publish_reject i c reason s)"
  unfolding sim_publish_reject_def by (rule fine_and_then [OF publish_other_fine]) auto

lemma same_sent_orders:
  "sg_sent s' = sg_sent s \<Longrightarrow> sg_orders s' = sg_orders s \<Longrightarrow> sg_resting s' = sg_resting s \<Longrightarrow>
    acked_venue s' = acked_venue s \<and> later_than s s'"
  by (simp add: acked_venue_def later_than_def)

lemma fill_fine:
  assumes "acked_venue s" and "(ro_order_id o1, ro_exchange_id o1) \<in> acks (sg_sent s)"
  shows "fine s (\<lambda>_ _. True) (sim_publish_fill o1 price q c l m s)"
proof -
  let ?s = "s\<lparr>sg_uuid_n := Suc (sg_uuid_n s)\<rparr>"
  note e = same_sent_orders [of ?s s]
  have "fine ?s (\<lambda>_ _. True) (sim_publish_fill o1 price q c l m s)"
    unfolding sim_publish_fill_def
    by (rule fine_mono [OF publish_fine]) (use assms e in \<open>auto simp: sim_fill_def Let_def\<close>)
  then show ?thesis by (rule fine_later [rotated]) (use e in simp)
qed

lemma draw_same: "sim_draw_split q s = (a, b, s1) \<Longrightarrow>
    sg_sent s1 = sg_sent s \<and> sg_orders s1 = sg_orders s \<and> sg_resting s1 = sg_resting s \<and> sg_cfg s1 = sg_cfg s"
  by (auto simp: sim_draw_split_def split: prod.splits)

lemma second_fill_fine:
  "acked_venue s \<Longrightarrow> (rq_order_id req, xid) \<in> acks (sg_sent s) \<Longrightarrow> fine s waits (second_fill req xid p q s)"
  unfolding second_fill_def by (rule fine_and_then [OF fill_fine]) (auto simp: resting_of_def)

lemma emit_fine:
  assumes "acked_venue s" and "(rq_order_id req, xid) \<in> acks (sg_sent s)"
  shows "fine s waits (sim_emit_fills req xid p s)"
proof -
  obtain a b s1 where d: "sim_draw_split (rq_quantity req) s = (a, b, s1)" by (metis prod_cases3)
  note e = same_sent_orders [of s1 s] draw_same [OF d]
  have o: "(ro_order_id (resting_of req xid), ro_exchange_id (resting_of req xid)) \<in> acks (sg_sent s1)"
    using assms e by (simp add: resting_of_def)
  have "fine s1 waits (sim_emit_fills req xid p s)"
    unfolding sim_emit_fills_def d prod.case
  proof (rule fine_and_then [where P = "\<lambda>_ _. True"], goal_cases)
    case 1
    then show ?case using e assms o by (auto intro: fill_fine)
  next
    case (2 s2 x)
    with o have "(rq_order_id req, xid) \<in> acks (sg_sent s2)" by (auto simp: later_than_def resting_of_def)
    with 2 show ?case by (auto intro: fine_later [OF _ second_fill_fine])
  qed
  then show ?thesis by (rule fine_later [rotated]) (use e in simp)
qed

lemma market_fine:
  "acked_venue s \<Longrightarrow> (rq_order_id req, xid) \<in> acks (sg_sent s) \<Longrightarrow> fine s waits (fill_at_market req xid s)"
  by (auto simp: fill_at_market_def reject_fine emit_fine split: option.splits)

lemma submit_fine:
  assumes "acked_venue s"
  shows "fine s waits (submit_now req s)"
proof -
  define s1 where "s1 = (if 0 < sc_reject_probability (sg_cfg s) then s\<lparr>sg_rng_n := Suc (sg_rng_n s)\<rparr> else s)"
  define s2 where "s2 = s1\<lparr>sg_uuid_n := Suc (sg_uuid_n s1)\<rparr>"
  let ?x = "''sim-'' @ uuid_hex12 (sg_uuid_src s1 (sg_uuid_n s1))"
  have e: "acked_venue s1" "later_than s s1" "acked_venue s2" "later_than s s2"
    using assms same_sent_orders [of s1 s] same_sent_orders [of s2 s] by (auto simp: s1_def s2_def)
  note r = fine_later [OF e(2) reject_fine [OF e(1)]]
  have "fine s2 waits (and_then (sim_publish_ack req ?x s2) (\<lambda>s _.
         if rq_type req \<in> {OT_MARKET, OT_IOC, OT_FOK} \<or> sim_crosses_now req s
         then sim_fill_market req ?x s else (rest_order req ?x s, Inr Idle)))"
  proof (rule fine_and_then [where P = "\<lambda>s _. (rq_order_id req, ?x) \<in> acks (sg_sent s)"], goal_cases)
    case 1
    show ?case unfolding sim_publish_ack_def by (rule fine_mono [OF publish_fine [OF e(3)]]) auto
  next
    case (2 s3 x)
    have "acked_venue (rest_order req ?x s3) \<and> later_than s3 (rest_order req ?x s3)"
      using 2 by (force simp: acked_venue_def later_than_def rest_order_def resting_of_def dest: dset_mem)
    with 2 show ?case
      by (auto simp: sim_fill_market_def intro: fine_later [OF _ market_fine] later_trans)
  qed
  from fine_later [OF e(4) this] r show ?thesis
    unfolding submit_now_def sim_uuid_def Let_def s1_def [symmetric] prod.case s2_def [symmetric]
    by (simp only: split: if_split) blast
qed

lemma cancel_fine:
  assumes "acked_venue s"
  shows "fine s waits (cancel_now req s)"
proof -
  let ?s = "s\<lparr>sg_resting := dpop (cr_order_id req) (sg_resting s)\<rparr>"
  have e: "acked_venue ?s" "later_than s ?s"
    using assms by (auto simp: acked_venue_def later_than_def dpop_mem)
  have "fine ?s waits (and_then (sg_publish ORDERS (EvCancelled r) ?s) (\<lambda>s _. (s, Inr Idle)))" for r
    by (rule fine_and_then [OF publish_other_fine [OF e(1)]]) auto
  with reject_fine [OF e(1)] show ?thesis
    by (auto simp: cancel_now_def Let_def intro: fine_later [OF e(2)] split: option.split)
qed

lemma change_fine:
  assumes "acked_venue s" and "\<And>o1. ro_order_id (f o1) = ro_order_id o1 \<and> ro_exchange_id (f o1) = ro_exchange_id o1"
  shows "acked_venue (change_order a f s)" "later_than s (change_order a f s)"
proof -
  have "(ro_order_id o1, ro_exchange_id o1) \<in> acks (sg_sent s)"
    if "o1 \<in> set ((sg_orders s)[a := f (sg_orders s ! a)])" for o1
  proof (cases "a < length (sg_orders s)")
    case True
    with that assms show ?thesis
      by (metis acked_venue_def nth_mem set_update_subset_insert insert_iff subset_iff)
  qed (use that assms in \<open>simp add: acked_venue_def list_update_beyond\<close>)
  with assms show "acked_venue (change_order a f s)" by (auto simp: acked_venue_def change_order_def)
  show "later_than s (change_order a f s)" by (simp add: later_than_def change_order_def)
qed

lemma amend_fine:
  assumes "acked_venue s"
  shows "fine s waits (amend_now req s)"
proof (cases "dget (sg_resting s) (ar_order_id req)")
  case None
  with reject_fine [OF assms] show ?thesis by (simp add: amend_now_def)
next
  case (Some a)
  note c = change_fine [OF assms, of "amended_order req" a]
  have o: "ro_order_id (amended_order req o1) = ro_order_id o1 \<and> ro_exchange_id (amended_order req o1) = ro_exchange_id o1" for o1
    by (simp add: amended_order_def Let_def split: option.split)
  have "fine (change_order a (amended_order req) s) waits
      (and_then (sg_publish ORDERS (EvAmended r) (change_order a (amended_order req) s)) (\<lambda>s _. (s, Inr Idle)))" for r
    by (rule fine_and_then [OF publish_other_fine [OF c(1) [OF o]]]) auto
  from fine_later [OF c(2) [OF o] this] Some show ?thesis by (simp add: amend_now_def)
qed

lemma order_acked: "acked_venue s \<Longrightarrow> a < length (sg_orders s) \<Longrightarrow>
    (ro_order_id (sg_orders s ! a), ro_exchange_id (sg_orders s ! a)) \<in> acks (sg_sent s)"
  by (simp add: acked_venue_def)

lemma resting_first_fine:
  assumes "acked_venue s" and "a < length (sg_orders s)"
  shows "fine s (\<lambda>_ _. True) (resting_first a price s)"
proof -
  let ?f = "\<lambda>q o2. o2\<lparr>ro_leaves := dsub (ro_leaves o2) q\<rparr>"
  obtain x y s1 where d: "sim_draw_split (ro_leaves (sg_orders s ! a)) s = (x, y, s1)" by (metis prod_cases3)
  note e = same_sent_orders [of s1 s] draw_same [OF d]
  have v: "acked_venue s1" "later_than s s1" using e assms by auto
  note c = change_fine [OF v(1), of "?f x" a, simplified]
  have o: "(ro_order_id (sg_orders s ! a), ro_exchange_id (sg_orders s ! a)) \<in> acks (sg_sent (change_order a (?f x) s1))"
    using order_acked [OF assms] e by (simp add: change_order_def)
  have "fine s1 (\<lambda>_ _. True) (resting_first a price s)"
    unfolding resting_first_def Let_def d prod.case
  proof (rule fine_and_then [where P = "\<lambda>_ _. True"], goal_cases)
    case 1
    then show ?case using v(1) fine_later [OF c(2) fill_fine [OF c(1) o]] by simp
  next
    case (2 s2 u)
    with change_fine [OF 2(1), of "?f y" a, simplified] show ?case by (auto intro: later_trans)
  qed
  from fine_later [OF v(2) this] show ?thesis .
qed

lemma drop_fine: "acked_venue s \<Longrightarrow> acked_venue (drop_if_done a s) \<and> later_than s (drop_if_done a s)"
  by (auto simp: drop_if_done_def Let_def acked_venue_def later_than_def dpop_mem)

lemma resting_second_fine:
  "acked_venue s \<Longrightarrow> a < length (sg_orders s) \<Longrightarrow> fine s (\<lambda>_ _. True) (resting_second a price c q s)"
  by (simp add: resting_second_def Let_def fill_fine order_acked)

lemma later_length: "later_than s s' \<Longrightarrow> a < length (sg_orders s) \<Longrightarrow> a < length (sg_orders s')"
  by (simp add: later_than_def)

lemma match_order_fine:
  assumes "acked_venue s" and "a < length (sg_orders s)"
    and rest: "\<And>s. acked_venue s \<Longrightarrow> fine s waits (rest s)"
  shows "fine s waits (match_order a t ids rest s)"
  unfolding match_order_def Let_def
proof (rule fine_and_then [OF resting_first_fine [OF assms(1,2)]], goal_cases)
  case (1 s1 r)
  obtain c q where r: "r = (c, q)" by force
  note a = later_length [OF 1(2) assms(2)]
  have go_on: "fine s' waits (rest (drop_if_done a s'))" if "acked_venue s'" for s'
    using drop_fine [OF that] rest by (blast intro: fine_later)
  have "fine s1 waits (and_then (resting_second a (ro_price (sg_orders s ! a)) c q s1) (\<lambda>s _. rest (drop_if_done a s)))"
    by (rule fine_and_then [OF resting_second_fine [OF 1(1) a]]) (blast intro: fine_later go_on)
  with go_on [OF 1(1)] 1(1) a 1(2) show ?case
    by (auto simp: r intro: fine_later)
qed

lemma match_rest_fine: "acked_venue s \<Longrightarrow> fine s waits (match_rest t ids s)"
proof (induction ids arbitrary: s)
  case (Cons i ids)
  show ?case
  proof (cases "dget (sg_resting s) i")
    case (Some a)
    with Cons.prems have a: "a < length (sg_orders s)" by (force simp: acked_venue_def dest: dget_Some_mem)
    from match_order_fine [OF Cons.prems a Cons.IH] Cons Some a show ?thesis by simp
  qed (use Cons in simp)
qed simp

lemma resume_fine: "acked_venue s \<Longrightarrow> acked_wait s w \<Longrightarrow> fine s waits (resume w s)"
proof (cases w)
  case (SecondMatchWait a price c q t ids)
  assume v: "acked_venue s" "acked_wait s w"
  with SecondMatchWait have a: "a < length (sg_orders s)" by simp
  have "fine s waits (and_then (resting_second a price c q s) (\<lambda>s _. match_rest t ids (drop_if_done a s)))"
    by (rule fine_and_then [OF resting_second_fine [OF v(1) a]])
      (metis drop_fine fine_later later_trans match_rest_fine)
  with SecondMatchWait show ?thesis by simp
qed (auto simp: submit_fine market_fine second_fill_fine cancel_fine amend_fine match_order_fine match_rest_fine)

lemma on_order_fine: "acked_venue s \<Longrightarrow> fine s waits (sim_on_order_event e s)"
  by (cases e) (auto simp: sim_on_order_event_def sim_handle_order_request_def sim_handle_cancel_request_def
      sim_handle_amend_request_def submit_fine cancel_fine amend_fine)

lemma on_market_fine: "acked_venue s \<Longrightarrow> fine s waits (sim_on_market_data e s)"
  by (cases e) (auto simp: sim_on_market_data_def match_rest_fine acked_venue_def later_than_def)

definition acked_lanes :: "sim_lanes \<Rightarrow> bool" where
  "acked_lanes l \<longleftrightarrow> acked_venue (ln_venue l) \<and> acked_wait (ln_venue l) (ln_orders l) \<and>
     acked_wait (ln_venue l) (ln_market l)"

lemma lane_fine:
  assumes "fine (ln_venue l) waits m" and "acked_lanes l"
  shows "acked_lanes (orders_lane m l)" "acked_lanes (market_lane m l)"
  using assms
  by (auto simp: fine_def acked_lanes_def orders_lane_def market_lane_def settle_def
      intro: later_wait split: prod.splits sum.splits)

lemma sim_do_acked: "acked_lanes l \<Longrightarrow> acked_lanes (sim_do m l)"
proof (cases m)
  case (Elapse t)
  assume l: "acked_lanes l"
  have "later_than (ln_venue l) ((ln_venue l)\<lparr>sg_now := max t (sg_now (ln_venue l))\<rparr>)" by (simp add: later_than_def)
  note later_wait [OF _ this]
  with l show ?thesis unfolding Elapse by (simp add: acked_lanes_def acked_venue_def)
next
  case (OrderEvent e)
  assume "acked_lanes l"
  then show ?thesis using lane_fine(1) [OF on_order_fine] by (simp add: OrderEvent) (simp add: acked_lanes_def)
next
  case (MarketEvent e)
  assume "acked_lanes l"
  then show ?thesis using lane_fine(2) [OF on_market_fine] by (simp add: MarketEvent) (simp add: acked_lanes_def)
next
  case ResumeOrders
  assume "acked_lanes l"
  then show ?thesis using lane_fine(1) [OF resume_fine] by (simp add: ResumeOrders) (simp add: acked_lanes_def)
next
  case ResumeMarket
  assume "acked_lanes l"
  then show ?thesis using lane_fine(2) [OF resume_fine] by (simp add: ResumeMarket) (simp add: acked_lanes_def)
qed

lemma sim_run_acked: "acked_lanes l \<Longrightarrow> acked_lanes (sim_run ms l)"
  unfolding sim_run_def by (induction ms arbitrary: l) (simp_all add: sim_do_acked)

text \<open>
  C12: The acknowledgement comes first. Whatever the latencies and however the order lane and the
  market data lane interleave, every fill the simulator has published was preceded by the
  acknowledgement of its order, with the exchange order id the fill carries.
\<close>

theorem ack_precedes_fill:
  "acked_fills (sg_sent (ln_venue (sim_run ms
     \<lparr>ln_venue = simulation_init b now cfg rng src, ln_orders = Idle, ln_market = Idle\<rparr>)))"
  using sim_run_acked [of "\<lparr>ln_venue = simulation_init b now cfg rng src, ln_orders = Idle, ln_market = Idle\<rparr>" ms]
  by (simp add: acked_lanes_def acked_venue_def simulation_init_def acked_fills_def)

subsection \<open>A fill after the confirmation of a cancel\<close>

lemma sg_publish_room:
  assumes "room (Suc n) (sg_bus s)"
  shows "\<exists>b. sg_publish t e s = (s\<lparr>sg_bus := b, sg_sent := sg_sent s @ [(t, e)]\<rparr>, Inr ()) \<and> room n b"
  using room_publish [OF assms, of t e] by (auto simp: sg_publish_def)

lemma sim_fill_fields [simp]:
  "fl_order_id (sim_fill o1 price q c l m s) = ro_order_id o1" "fl_quantity (sim_fill o1 price q c l m s) = q"
  by (simp_all add: sim_fill_def Let_def)

lemma fill_room:
  assumes "room (Suc n) (sg_bus s)"
  shows "\<exists>b. sim_publish_fill o1 price q c l m s =
      (s\<lparr>sg_uuid_n := Suc (sg_uuid_n s), sg_bus := b,
         sg_sent := sg_sent s @ [(FILLS, EvFill (sim_fill o1 price q c l m s))]\<rparr>, Inr ()) \<and> room n b"
  using sg_publish_room [of n "s\<lparr>sg_uuid_n := Suc (sg_uuid_n s)\<rparr>"] assms by (simp add: sim_publish_fill_def)

lemma resting_first_whole:
  assumes "room (Suc n) (sg_bus s)" and "sc_partial_probability (sg_cfg s) \<le> 0" and "0 < ro_leaves (sg_orders s ! a)"
  shows "\<exists>s' cu f. resting_first a price s = (s', Inr (cu, 0)) \<and> sg_sent s' = sg_sent s @ [(FILLS, EvFill f)] \<and>
    fl_order_id f = ro_order_id (sg_orders s ! a) \<and> fl_quantity f = ro_leaves (sg_orders s ! a)"
proof -
  let ?o = "sg_orders s ! a"
  define s2 where "s2 = change_order a (\<lambda>o2. o2\<lparr>ro_leaves := dsub (ro_leaves o2) (ro_leaves ?o)\<rparr>) s"
  have s2: "sg_sent s2 = sg_sent s" "room (Suc n) (sg_bus s2)" using assms(1) by (simp_all add: s2_def change_order_def)
  have d: "sim_draw_split (ro_leaves ?o) s = (ro_leaves ?o, 0, s)" using assms(2) by (simp add: sim_draw_split_def)
  define cu where "cu = dadd (dsub (ro_quantity ?o) (ro_leaves ?o)) (ro_leaves ?o)"
  define lv where "lv = dsub (ro_leaves ?o) (ro_leaves ?o)"
  obtain b where b: "sim_publish_fill ?o price (ro_leaves ?o) cu lv True s2 =
      (s2\<lparr>sg_uuid_n := Suc (sg_uuid_n s2), sg_bus := b,
         sg_sent := sg_sent s2 @ [(FILLS, EvFill (sim_fill ?o price (ro_leaves ?o) cu lv True s2))]\<rparr>, Inr ())"
    using fill_room [OF s2(2)] by blast
  let ?f = "sim_fill ?o price (ro_leaves ?o) cu lv True s2"
  let ?s' = "s2\<lparr>sg_uuid_n := Suc (sg_uuid_n s2), sg_bus := b, sg_sent := sg_sent s @ [(FILLS, EvFill ?f)]\<rparr>"
  have "resting_first a price s = (?s', Inr (dadd cu 0, 0))"
    using assms(3) b by (simp add: resting_first_def d s2(1) Let_def flip: s2_def cu_def lv_def)
  then show ?thesis by (intro exI [of _ ?s'] exI [of _ "dadd cu 0"] exI [of _ ?f]) simp
qed

text \<open>
  C26: A cancel does not stop a fill that is under way. When a trade has crossed a resting order and
  its fill is waiting for the fill latency, a cancel of the order that is answered in the meantime is
  confirmed, and the fill of everything the order had left is published behind the confirmation.
\<close>

theorem fill_after_cancel:
  assumes "ln_orders l = Idle" and "ln_market l = Idle" and "ln_venue l = s"
    and "sg_resting s = [(i, a)]" and "ro_order_id (sg_orders s ! a) = i" and "cr_order_id c = i"
    and "instrument_id (ro_instrument (sg_orders s ! a)) = instrument_id (tr_instrument t)"
    and "trade_crosses t (sg_orders s ! a)" and "0 < ro_leaves (sg_orders s ! a)"
    and "0 < sc_fill_ms (sg_cfg s)" and "sc_partial_probability (sg_cfg s) \<le> 0" and "room 2 (sg_bus s)"
  shows "\<exists>r f. sg_sent (ln_venue (sim_run
        [MarketEvent (EvTrade t), OrderEvent (EvCancelRequest c), ResumeOrders, ResumeMarket] l)) =
      sg_sent s @ [(ORDERS, EvCancelled r), (FILLS, EvFill f)] \<and>
    re_order_id r = i \<and> fl_order_id f = i \<and> fl_quantity f = ro_leaves (sg_orders s ! a)"
proof -
  let ?s1 = "s\<lparr>sg_resting := []\<rparr>" and ?o = "sg_orders s ! a"
  define r where "r = sim_response i (cr_coid c) ''user requested'' ?s1"
  have m: "sim_on_market_data (EvTrade t) s = (s, Inr (MatchWait a t []))"
    using assms by (simp add: sim_on_market_data_def dkeys_def dget_def)
  have "room (Suc (Suc 0)) (sg_bus ?s1)" using assms(12) by (simp add: numeral_2_eq_2)
  from sg_publish_room [OF this, of ORDERS "EvCancelled r"] obtain b where
    b: "sg_publish ORDERS (EvCancelled r) ?s1 =
      (?s1\<lparr>sg_bus := b, sg_sent := sg_sent s @ [(ORDERS, EvCancelled r)]\<rparr>, Inr ())" "room (Suc 0) b" by auto
  let ?s2 = "?s1\<lparr>sg_bus := b, sg_sent := sg_sent s @ [(ORDERS, EvCancelled r)]\<rparr>"
  have c: "cancel_now c s = (?s2, Inr Idle)"
    using assms(4,6) b(1) by (simp add: cancel_now_def Let_def dpop_def dget_def r_def)
  from resting_first_whole [of 0 ?s2 a "ro_price ?o"] b(2) assms(5,9,11) obtain s4 cu f where
    f: "resting_first a (ro_price ?o) ?s2 = (s4, Inr (cu, 0))" "sg_sent s4 = sg_sent ?s2 @ [(FILLS, EvFill f)]"
      "fl_order_id f = i" "fl_quantity f = ro_leaves ?o"
    by auto
  then have e: "resume (MatchWait a t []) ?s2 = (drop_if_done a s4, Inr Idle)" "sg_sent (drop_if_done a s4) = sg_sent s4"
    by (simp_all add: match_order_def Let_def drop_if_done_def)
  have "sim_run [MarketEvent (EvTrade t), OrderEvent (EvCancelRequest c), ResumeOrders] l =
      l\<lparr>ln_venue := ?s2, ln_orders := Idle, ln_market := MatchWait a t []\<rparr>"
    using assms(1-3) m c
    by (simp add: sim_run_def market_lane_def orders_lane_def settle_def sim_on_order_event_def
        sim_handle_cancel_request_def)
  then have "sim_run [MarketEvent (EvTrade t), OrderEvent (EvCancelRequest c), ResumeOrders, ResumeMarket] l =
      sim_do ResumeMarket (l\<lparr>ln_venue := ?s2, ln_orders := Idle, ln_market := MatchWait a t []\<rparr>)"
    by (simp add: sim_run_def)
  with e f show ?thesis by (auto simp: market_lane_def settle_def r_def sim_response_def simp del: resume.simps)
qed

definition sample_lanes :: sim_lanes where
  "sample_lanes =
     \<lparr>ln_venue = (simulation_init (sample_bus 10 1) 0 (default_sim_config ''BINANCE'') (\<lambda>n. 0) (\<lambda>n. n))
        \<lparr>sg_orders := [resting_of (sample_request OT_LIMIT (Some 100)) ''sim-1''], sg_resting := [(7, 0)]\<rparr>,
      ln_orders = Idle, ln_market = Idle\<rparr>"

definition sample_late_cancel :: cancel_request where
  "sample_late_cancel =
     \<lparr>ts_event = 1, ts_ingest = 1, source = ''oms'', cr_order_id = 7, cr_coid = ''mm-000000000007'',
      cr_instrument = sample_instrument\<rparr>"

theorem fill_after_cancel_witness:
  "\<exists>r f. sg_sent (ln_venue (sim_run
        [MarketEvent (EvTrade sample_trade), OrderEvent (EvCancelRequest sample_late_cancel), ResumeOrders, ResumeMarket]
        sample_lanes)) = [(ORDERS, EvCancelled r), (FILLS, EvFill f)] \<and> fl_quantity f = 5"
proof -
  let ?s = "ln_venue sample_lanes"
  have o: "sg_orders ?s ! 0 = resting_of (sample_request OT_LIMIT (Some 100)) ''sim-1''" "sg_sent ?s = []"
    by (simp_all add: sample_lanes_def simulation_init_def)
  have "room 2 (sg_bus ?s)"
    by (auto simp: room_def sample_lanes_def simulation_init_def sample_bus_def topic_subs_def)
  moreover have "trade_crosses sample_trade (sg_orders ?s ! 0)"
    "instrument_id (ro_instrument (sg_orders ?s ! 0)) = instrument_id (tr_instrument sample_trade)"
    "0 < ro_leaves (sg_orders ?s ! 0)" "ro_order_id (sg_orders ?s ! 0) = 7"
    by (simp_all add: o trade_crosses_def sample_trade_def resting_of_def sample_request_def)
  moreover have "ln_orders sample_lanes = Idle" "ln_market sample_lanes = Idle" "sg_resting ?s = [(7, 0)]"
    "cr_order_id sample_late_cancel = 7" "0 < sc_fill_ms (sg_cfg ?s)" "sc_partial_probability (sg_cfg ?s) \<le> 0"
    by (simp_all add: sample_lanes_def simulation_init_def sample_late_cancel_def default_sim_config_def)
  ultimately show ?thesis
    using fill_after_cancel [of sample_lanes ?s 7 0 sample_late_cancel sample_trade] o
    by (auto simp: resting_of_def sample_request_def)
qed

end
