(* ===== verification/Simulation_Twin.thy ===== *)
theory Simulation_Twin
  imports Simulation_Properties
begin

text \<open>
  The two venue simulators against each other. Without latencies the simulator of a live session
  publishes, for the same orders, cancels and market data and the same random numbers, what the
  backtest venue schedules, event by event and in the same order; only the exchange order ids they
  make up differ in their prefix, and the answer to an amend is the one thing they do differently.
\<close>

subsection \<open>What corresponds\<close>

fun untag :: "event \<Rightarrow> event" where
  "untag (EvAck a) = EvAck (a\<lparr>ak_exchange_id := []\<rparr>)"
| "untag (EvFill f) = EvFill (f\<lparr>fl_exchange_id := None\<rparr>)"
| "untag e = e"

definition ro_untag :: "resting_order \<Rightarrow> resting_order" where
  "ro_untag o1 = o1\<lparr>ro_exchange_id := []\<rparr>"

definition instant :: "sim_config \<Rightarrow> bool" where
  "instant cfg \<longleftrightarrow> sc_submit_ack_ms cfg = 0 \<and> sc_cancel_ack_ms cfg = 0 \<and> sc_fill_ms cfg = 0"

text \<open>An entry of the simulator's book refers to its order, one of the backtest venue holds it.\<close>

definition entry :: "resting_order list \<Rightarrow> uuid \<times> nat \<Rightarrow> uuid \<times> resting_order \<Rightarrow> bool" where
  "entry os x y \<longleftrightarrow> fst y = fst x \<and> ro_untag (snd y) = ro_untag (os ! snd x)"

definition same_book :: "resting_order list \<Rightarrow> (uuid, nat) dict \<Rightarrow> (uuid, resting_order) dict \<Rightarrow> bool" where
  "same_book os d b \<longleftrightarrow> dict_ok d \<and> distinct (map snd d) \<and>
     (\<forall>x \<in> set d. snd x < length os \<and> ro_order_id (os ! snd x) = fst x) \<and> list_all2 (entry os) d b"

definition same_events :: "(topic \<times> event) list \<Rightarrow> scheduled list \<Rightarrow> bool" where
  "same_events es sch \<longleftrightarrow> map (\<lambda>(t, e). (t, untag e)) es = map (\<lambda>x. (sd_topic x, untag (sd_event x))) sch"

definition all_due :: "backtest_gateway \<Rightarrow> bool" where
  "all_due g \<longleftrightarrow> (\<forall>x \<in> set (bg_schedule g). sd_due x \<le> bg_now g \<and> sd_seq x < bg_seq g)"

definition twins :: "sim_gateway \<Rightarrow> backtest_gateway \<Rightarrow> bool" where
  "twins s g \<longleftrightarrow>
     sg_cfg s = bg_cfg g \<and> instant (bg_cfg g) \<and> sg_now s = bg_now g \<and> sg_rng s = bg_rng g \<and>
     sg_rng_n s = bg_rng_n g \<and> sg_uuid_src s = bg_uuid_src g \<and> sg_uuid_n s = bg_uuid_n g \<and>
     sg_tops s = bg_tops g \<and> same_book (sg_orders s) (sg_resting s) (bg_resting g) \<and>
     same_events (sg_sent s) (bg_schedule g) \<and> all_due g"

text \<open>The bus has refused a publication.\<close>

definition refused :: "'a sim_result \<Rightarrow> bool" where
  "refused m \<longleftrightarrow> snd m = Inl Backpressure \<or> snd m = Inl BusStopped"

lemma refused_simps [simp]: "\<not> refused (s, Inr x)" "refused (s, Inl e) \<longleftrightarrow> e = Backpressure \<or> e = BusStopped"
  by (simp_all add: refused_def)

lemma refused_and_then: "\<not> refused (and_then m k) \<Longrightarrow> \<not> refused m"
  by (cases m; cases "snd m") auto

lemma publish_raises: "publish t e b = (b', Inl err) \<Longrightarrow> err = Backpressure \<or> err = BusStopped"
  by (auto simp: publish_def split: if_splits option.splits prod.splits)

lemma sg_publish_taken:
  assumes "\<not> refused (sg_publish t e s)"
  shows "\<exists>b. sg_publish t e s = (s\<lparr>sg_bus := b, sg_sent := sg_sent s @ [(t, e)]\<rparr>, Inr ())"
  using assms publish_raises by (fastforce simp: sg_publish_def split: prod.splits sum.splits)

lemma heap_push_last:
  "\<forall>y \<in> set ys. sd_due y \<le> sd_due x \<and> sd_seq y < sd_seq x \<Longrightarrow> heap_push x ys = ys @ [x]"
  by (induction ys) auto

lemma schedule_now:
  assumes "all_due g"
  shows "schedule_event 0 t e g =
    g\<lparr>bg_schedule := bg_schedule g @ [\<lparr>sd_due = bg_now g, sd_seq = bg_seq g, sd_topic = t, sd_event = e\<rparr>],
      bg_seq := Suc (bg_seq g)\<rparr>"
  using assms by (simp add: schedule_event_def all_due_def heap_push_last trunc_def)

lemma publish_twins:
  assumes "twins s g" and "untag e = untag e'" and "\<not> refused (sg_publish t e s)"
  shows "snd (sg_publish t e s) = Inr ()" and "twins (fst (sg_publish t e s)) (schedule_event 0 t e' g)"
proof -
  from sg_publish_taken [OF assms(3)] obtain b where
    b: "sg_publish t e s = (s\<lparr>sg_bus := b, sg_sent := sg_sent s @ [(t, e)]\<rparr>, Inr ())" by blast
  then show "snd (sg_publish t e s) = Inr ()" by simp
  from assms(1) have d: "all_due g" by (simp add: twins_def)
  show "twins (fst (sg_publish t e s)) (schedule_event 0 t e' g)"
    using assms(1,2) d unfolding b schedule_now [OF d]
    by (auto simp: twins_def same_events_def all_due_def)
qed

lemma due_now [simp]: "due_ns 0 g = bg_now g"
  by (simp add: due_ns_def trunc_def)

subsection \<open>The books\<close>

lemma entry_Pair [simp]: "entry os (i, a) (j, o1) \<longleftrightarrow> j = i \<and> ro_untag o1 = ro_untag (os ! a)"
  by (simp add: entry_def)

lemma book_get:
  assumes "list_all2 (entry os) d b"
  shows "(case dget d i of None \<Rightarrow> dget b i = None
    | Some a \<Rightarrow> \<exists>o1. dget b i = Some o1 \<and> ro_untag o1 = ro_untag (os ! a))"
  using assms by (induction rule: list_all2_induct) (auto simp: entry_def split: option.splits if_splits)

lemma book_keys: "list_all2 (entry os) d b \<Longrightarrow> dkeys b = dkeys d"
  by (induction rule: list_all2_induct) (auto simp: entry_def dkeys_def)

lemma book_pop: "list_all2 (entry os) d b \<Longrightarrow> list_all2 (entry os) (dpop i d) (dpop i b)"
  by (induction rule: list_all2_induct) (auto simp: entry_def dpop_def)

lemma book_set:
  "list_all2 (entry os) d b \<Longrightarrow> ro_untag o1 = ro_untag (os ! a) \<Longrightarrow>
    list_all2 (entry os) (dset i a d) (dset i o1 b)"
  by (induction rule: list_all2_induct) (auto simp: dset_def)

lemma entry_cong: "os' ! snd x = os ! snd x \<Longrightarrow> entry os' x y = entry os x y"
  by (simp add: entry_def)

lemma same_book_pop: "same_book os d b \<Longrightarrow> same_book os (dpop i d) (dpop i b)"
  by (auto simp: same_book_def book_pop dpop_mem) (simp add: dpop_def AList.delete_eq distinct_map_filter)

lemma distinct_snd_dset:
  "distinct (map snd d) \<Longrightarrow> a \<notin> snd ` set d \<Longrightarrow> distinct (map snd (dset i a d))"
proof (induction d)
  case (Cons x d)
  have "snd ` set (dset i a d) \<subseteq> insert a (snd ` set d)" by (auto dest!: dset_mem)
  with Cons show ?case by (cases x) (auto simp: dset_def)
qed (simp add: dset_def)

lemma same_book_rest:
  assumes "same_book os d b" and "ro_untag o1 = ro_untag o2" and "ro_order_id o2 = i"
  shows "same_book (os @ [o2]) (dset i (length os) d) (dset i o1 b)"
proof -
  have l: "snd x < length os" if "x \<in> set d" for x using assms(1) that by (simp add: same_book_def)
  have "list_all2 (entry (os @ [o2])) d b"
    using assms(1) l by (auto simp: same_book_def nth_append entry_def list_all2_conv_all_nth)
  then have "list_all2 (entry (os @ [o2])) (dset i (length os) d) (dset i o1 b)"
    using assms(2) by (intro book_set) simp_all
  moreover have "length os \<notin> snd ` set d" using l by fastforce
  ultimately show ?thesis
    using assms(1,3) l by (fastforce simp: same_book_def distinct_snd_dset nth_append dest: dset_mem)
qed

lemma ro_untag_fields:
  "ro_untag o1 = ro_untag o2 \<Longrightarrow> ro_order_id o1 = ro_order_id o2 \<and> ro_coid o1 = ro_coid o2 \<and>
    ro_strategy o1 = ro_strategy o2 \<and> ro_instrument o1 = ro_instrument o2 \<and> ro_side o1 = ro_side o2 \<and>
    ro_quantity o1 = ro_quantity o2 \<and> ro_price o1 = ro_price o2 \<and> ro_leaves o1 = ro_leaves o2"
  by (cases o1; cases o2) (simp add: ro_untag_def)

lemma ro_untag_leaves:
  "ro_untag o1 = ro_untag o2 \<Longrightarrow> ro_untag (o1\<lparr>ro_leaves := l\<rparr>) = ro_untag (o2\<lparr>ro_leaves := l\<rparr>)"
  by (cases o1; cases o2) (simp add: ro_untag_def)

lemma same_book_leaves:
  assumes "same_book os d b" and "dget d i = Some a"
  shows "same_book (os[a := (os ! a)\<lparr>ro_leaves := l\<rparr>]) d (dmod i (\<lambda>o1. o1\<lparr>ro_leaves := l\<rparr>) b)"
proof -
  let ?os = "os[a := (os ! a)\<lparr>ro_leaves := l\<rparr>]"
  have ia: "(i, a) \<in> set d" using assms(2) by (rule dget_Some_mem)
  with assms(1) have a: "a < length os" by (auto simp: same_book_def)
  have u: "fst x = i \<longleftrightarrow> snd x = a" if "x \<in> set d" for x
    using assms(1) ia that
    by (cases x) (auto simp: same_book_def dict_ok_def distinct_map inj_on_def, fastforce+)
  have n: "list_all2 (entry os) d b" using assms(1) by (simp add: same_book_def)
  have "list_all2 (entry ?os) d (dmod i (\<lambda>o1. o1\<lparr>ro_leaves := l\<rparr>) b)"
  proof (rule list_all2_all_nthI)
    show len: "length d = length (dmod i (\<lambda>o1. o1\<lparr>ro_leaves := l\<rparr>) b)"
      using list_all2_lengthD [OF n] by (simp add: dmod_def)
    fix k assume k: "k < length d"
    obtain j c where d: "d ! k = (j, c)" by force
    obtain o1 where b: "b ! k = (j, o1)" "ro_untag o1 = ro_untag (os ! c)"
      using list_all2_nthD [OF n k] d by (cases "b ! k") auto
    have "k < length b" using list_all2_lengthD [OF n] k by simp
    then show "entry ?os (d ! k) (dmod i (\<lambda>o1. o1\<lparr>ro_leaves := l\<rparr>) b ! k)"
      using b d u [of "(j, c)"] nth_mem [OF k] a by (auto simp: dmod_def nth_list_update intro: ro_untag_leaves)
  qed
  moreover have "\<forall>x \<in> set d. ro_order_id (?os ! snd x) = fst x"
    using assms(1) a by (fastforce simp: same_book_def nth_list_update)
  ultimately show ?thesis using assms(1) by (simp add: same_book_def)
qed

subsection \<open>The operations\<close>

lemma twins_uuid: "twins s g \<Longrightarrow> twins (s\<lparr>sg_uuid_n := Suc (sg_uuid_n s)\<rparr>) (g\<lparr>bg_uuid_n := Suc (bg_uuid_n g)\<rparr>)"
  by (simp add: twins_def all_due_def)

lemma twinsD:
  assumes "twins s g"
  shows "sg_cfg s = bg_cfg g" "sc_submit_ack_ms (bg_cfg g) = 0" "sc_cancel_ack_ms (bg_cfg g) = 0"
    "sc_fill_ms (bg_cfg g) = 0" "sg_now s = bg_now g" "sg_rng s = bg_rng g" "sg_rng_n s = bg_rng_n g"
    "sg_uuid_src s = bg_uuid_src g" "sg_uuid_n s = bg_uuid_n g" "sg_tops s = bg_tops g"
  using assms by (simp_all add: twins_def instant_def)

text \<open>What a fill takes from its order.\<close>

definition same_owner :: "resting_order \<Rightarrow> resting_order \<Rightarrow> bool" where
  "same_owner o1 o2 \<longleftrightarrow> ro_order_id o1 = ro_order_id o2 \<and> ro_coid o1 = ro_coid o2 \<and>
     ro_strategy o1 = ro_strategy o2 \<and> ro_instrument o1 = ro_instrument o2 \<and> ro_side o1 = ro_side o2"

lemma untag_owner: "ro_untag o1 = ro_untag o2 \<Longrightarrow> same_owner o1 o2"
  by (drule ro_untag_fields) (simp add: same_owner_def)

lemma fill_twins:
  assumes "twins s g" and "same_owner o1 o2" and "\<not> refused (sim_publish_fill o1 p q c l m s)"
  shows "\<exists>s'. sim_publish_fill o1 p q c l m s = (s', Inr ()) \<and> twins s' (schedule_fill 0 o2 p q c l m g) \<and>
    sg_orders s' = sg_orders s \<and> sg_resting s' = sg_resting s"
proof -
  let ?s = "s\<lparr>sg_uuid_n := Suc (sg_uuid_n s)\<rparr>" and ?g = "g\<lparr>bg_uuid_n := Suc (bg_uuid_n g)\<rparr>"
  let ?f = "\<lparr>ts_event = bg_now g, ts_ingest = bg_now g, source = sc_venue (bg_cfg g),
      fl_fill_id = bg_uuid_src g (bg_uuid_n g), fl_order_id = ro_order_id o2, fl_coid = ro_coid o2,
      fl_exchange_id = Some (ro_exchange_id o2), fl_strategy = ro_strategy o2, fl_instrument = ro_instrument o2,
      fl_side = ro_side o2, fl_price = p, fl_quantity = q, fl_cumulative = c, fl_leaves = l,
      fl_fee = fee_for (bg_cfg g) (dmul p q) m,
      fl_fee_currency = (if sc_fee_currency (bg_cfg g) \<noteq> [] then sc_fee_currency (bg_cfg g) else i_quote (ro_instrument o2)),
      fl_is_maker = Some m\<rparr>"
  note d = twinsD [OF assms(1)] assms(2) [unfolded same_owner_def]
  have e: "schedule_fill 0 o2 p q c l m g = schedule_event 0 FILLS (EvFill ?f) ?g"
    by (simp add: schedule_fill_def bg_uuid_def Let_def)
  have "untag (EvFill (sim_fill o1 p q c l m s)) = untag (EvFill ?f)"
    by (simp add: sim_fill_def Let_def d)
  from publish_twins [OF twins_uuid [OF assms(1)] this] sg_publish_taken [of _ _ ?s] assms(3) show ?thesis
    unfolding e sim_publish_fill_def by fastforce
qed

lemma draw_twins:
  assumes "twins s g" and "sim_draw_split q s = (a, b, s1)"
  shows "\<exists>g1. draw_split q g = (a, b, g1) \<and> twins s1 g1 \<and> bg_cfg g1 = bg_cfg g \<and> bg_resting g1 = bg_resting g \<and>
    sg_orders s1 = sg_orders s \<and> sg_resting s1 = sg_resting s"
  using assms
  by (auto simp: sim_draw_split_def draw_split_def twins_def all_due_def split: prod.splits)

lemma emit_twins:
  assumes "twins s g" and "\<not> refused (sim_emit_fills req xid p s)"
  shows "\<exists>s'. sim_emit_fills req xid p s = (s', Inr Idle) \<and> twins s' (emit_fills req xid' p 0 g)"
proof -
  obtain a b s1 where d: "sim_draw_split (rq_quantity req) s = (a, b, s1)" by (metis prod_cases3)
  from draw_twins [OF assms(1) this] obtain g1 where
    g: "draw_split (rq_quantity req) g = (a, b, g1)" "twins s1 g1" "bg_cfg g1 = bg_cfg g" by blast
  note c = twinsD [OF assms(1)] and c1 = twinsD [OF g(2)]
  have u: "same_owner (resting_of req xid) (resting_of req xid')"
    by (simp add: resting_of_def same_owner_def)
  define s2 where "s2 = (if 0 < a then sim_publish_fill (resting_of req xid) p a a (dsub (rq_quantity req) a) False s1
      else (s1, Inr ()))"
  define g2 where "g2 = (if 0 < a then schedule_fill 0 (resting_of req xid') p a a (dsub (rq_quantity req) a) False g1 else g1)"
  have e: "sim_emit_fills req xid p s = and_then s2 (\<lambda>s _. if \<not> 0 < b then (s, Inr Idle)
      else if 0 < sc_fill_ms (sg_cfg s) then (s, Inr (SecondWait req xid p b)) else second_fill req xid p b s)"
    by (simp add: sim_emit_fills_def d s2_def)
  have e': "emit_fills req xid' p 0 g = (if 0 < b
      then schedule_fill 0 (resting_of req xid') p b (rq_quantity req) 0 False g2 else g2)"
    by (simp add: emit_fills_def g g2_def Let_def c)
  from assms(2) have "\<not> refused s2" unfolding e by (rule refused_and_then)
  then obtain s3 where s3: "s2 = (s3, Inr ())" "twins s3 g2"
    using fill_twins [OF g(2) u, of p a a "dsub (rq_quantity req) a" False] g(2) unfolding s2_def g2_def
    by (auto split: if_splits)
  show ?thesis
  proof (cases "0 < b")
    case True
    with assms(2) s3 twinsD [OF s3(2)] have "\<not> refused (second_fill req xid p b s3)"
      by (simp add: e)
    then have "\<not> refused (sim_publish_fill (resting_of req xid) p b (rq_quantity req) 0 False s3)"
      unfolding second_fill_def by (rule refused_and_then)
    from fill_twins [OF s3(2) u this] True s3 twinsD [OF s3(2)] show ?thesis
      by (auto simp: e e' second_fill_def)
  qed (use s3 in \<open>simp add: e e'\<close>)
qed

text \<open>Two handlers agree: both raise the same, or both end and leave twins.\<close>

definition agree :: "suspension sim_result \<Rightarrow> backtest_gateway \<times> (py_error + unit) \<Rightarrow> bool" where
  "agree m n \<longleftrightarrow> twins (fst m) (fst n) \<and>
     (snd m = Inr Idle \<and> snd n = Inr () \<or> (\<exists>e. snd m = Inl e \<and> snd n = Inl e))"

lemma agree_simps [simp]: "agree (s, Inr Idle) (g, Inr ()) = twins s g" "agree (s, Inl e) (g, Inl e) = twins s g"
  by (simp_all add: agree_def)

lemma response_twins:
  assumes "twins s g" and "untag e = untag e'" and "\<not> refused (and_then (sg_publish t e s) (\<lambda>s _. (s, Inr Idle)))"
  shows "agree (and_then (sg_publish t e s) (\<lambda>s _. (s, Inr Idle))) (schedule_event 0 t e' g, Inr ())"
proof -
  have r: "\<not> refused (sg_publish t e s)" using assms(3) by (rule refused_and_then)
  from publish_twins [OF assms(1,2) r] show ?thesis
    by (cases "sg_publish t e s") auto
qed

lemma reject_twins:
  assumes "twins s g" and "\<not> refused (sim_publish_reject (rq_order_id req) (rq_coid req) reason s)"
  shows "agree (sim_publish_reject (rq_order_id req) (rq_coid req) reason s) (schedule_reject req reason 0 g, Inr ())"
  unfolding schedule_reject_def sim_publish_reject_def
  by (rule response_twins) (use assms twinsD [OF assms(1)] in
    \<open>simp_all add: sim_publish_reject_def sim_response_def response_def\<close>)

lemma market_twins:
  assumes "twins s g" and "\<not> refused (fill_at_market req xid s)"
  shows "agree (fill_at_market req xid s) (fill_market req xid' 0 g)"
proof (cases "market_price (bg_cfg g) req (dget (bg_tops g) (instrument_id (rq_instrument req)))")
  case None
  with assms reject_twins twinsD [OF assms(1)] show ?thesis by (simp add: fill_at_market_def fill_market_def)
next
  case (Some p)
  show ?thesis
  proof (cases "round_price (rq_instrument req) p")
    case None
    with Some assms twinsD [OF assms(1)] show ?thesis by (simp add: fill_at_market_def fill_market_def)
  next
    case (Some fp)
    with \<open>market_price _ _ _ = Some p\<close> assms emit_twins [OF assms(1), of req xid fp xid'] twinsD [OF assms(1)]
    show ?thesis by (auto simp: fill_at_market_def fill_market_def)
  qed
qed

lemma crosses_twins: "twins s g \<Longrightarrow> sim_crosses_now req s = crosses_now req g"
  by (simp add: sim_crosses_now_def crosses_now_def twins_def)

lemma ack_twins:
  assumes "twins s g" and "\<not> refused (sim_publish_ack req xid s)"
  shows "\<exists>s'. sim_publish_ack req xid s = (s', Inr ()) \<and> twins s' (schedule_ack req xid' 0 g)"
proof -
  have r: "\<not> refused (sg_publish ORDERS (EvAck \<lparr>ts_event = sg_now s, ts_ingest = sg_now s,
      source = sc_venue (sg_cfg s), re_order_id = rq_order_id req, re_coid = rq_coid req, re_reason = [],
      ak_exchange_id = xid\<rparr>) s)" using assms(2) by (simp add: sim_publish_ack_def)
  show ?thesis unfolding sim_publish_ack_def schedule_ack_def
    using publish_twins [OF assms(1) _ r] twinsD [OF assms(1)]
    by (metis (no_types, lifting) due_now order_acknowledged.update_convs(1) prod.collapse untag.simps(1))
qed

lemma rest_twins:
  assumes "twins s g"
  shows "twins (rest_order req xid s)
    (g\<lparr>bg_resting := dset (rq_order_id req) (resting_of req xid') (bg_resting g)\<rparr>)"
proof -
  have "same_book (sg_orders s @ [resting_of req xid]) (dset (rq_order_id req) (length (sg_orders s)) (sg_resting s))
      (dset (rq_order_id req) (resting_of req xid') (bg_resting g))"
    using assms by (intro same_book_rest) (simp_all add: twins_def resting_of_def ro_untag_def)
  with assms show ?thesis by (simp add: twins_def rest_order_def all_due_def)
qed

lemma submit_twins:
  assumes "twins s g" and "\<not> refused (submit_now req s)" and "i_exchange (rq_instrument req) = sc_venue (bg_cfg g)"
  shows "agree (submit_now req s) (bt_handle_order_request req g)"
proof -
  let ?c = "bg_cfg g"
  note c = twinsD [OF assms(1)]
  define drawn where "drawn = (0 < sc_reject_probability ?c)"
  define s1 where "s1 = (if drawn then s\<lparr>sg_rng_n := Suc (sg_rng_n s)\<rparr> else s)"
  define g1 where "g1 = (if drawn then g\<lparr>bg_rng_n := Suc (bg_rng_n g)\<rparr> else g)"
  have t1: "twins s1 g1" using assms(1) by (simp add: s1_def g1_def twins_def all_due_def)
  define xs where "xs = ''sim-'' @ uuid_hex12 (sg_uuid_src s1 (sg_uuid_n s1))"
  define xg where "xg = ''bt-'' @ uuid_hex12 (bg_uuid_src g1 (bg_uuid_n g1))"
  let ?s2 = "s1\<lparr>sg_uuid_n := Suc (sg_uuid_n s1)\<rparr>" and ?g2 = "g1\<lparr>bg_uuid_n := Suc (bg_uuid_n g1)\<rparr>"
  have t2: "twins ?s2 ?g2" by (rule twins_uuid [OF t1])
  let ?k = "\<lambda>s (_::unit). if rq_type req \<in> {OT_MARKET, OT_IOC, OT_FOK} \<or> sim_crosses_now req s
      then sim_fill_market req xs s else (rest_order req xs s, Inr Idle)"
  define early where "early = (drawn \<and> sg_rng s (sg_rng_n s) < sc_reject_probability ?c)"
  define posts where "posts = (rq_type req = OT_POST_ONLY \<and> crosses_now req g1)"
  have e: "submit_now req s = (if early
       then sim_publish_reject (rq_order_id req) (rq_coid req) (sc_reject_reason ?c) s1
       else if posts then sim_publish_reject (rq_order_id req) (rq_coid req) ''POST_ONLY would cross at submission'' s1
       else and_then (sim_publish_ack req xs ?s2) ?k)"
    unfolding submit_now_def sim_uuid_def Let_def prod.case c(1) drawn_def [symmetric] s1_def [symmetric]
      xs_def [symmetric] early_def posts_def crosses_twins [OF t1] ..
  let ?g3 = "schedule_ack req xg 0 ?g2"
  have e': "bt_handle_order_request req g = (if early
       then (schedule_reject req (sc_reject_reason ?c) 0 g1, Inr ())
       else if posts then (schedule_reject req ''POST_ONLY would cross at submission'' 0 g1, Inr ())
       else if rq_type req \<in> {OT_MARKET, OT_IOC, OT_FOK} \<or> crosses_now req ?g3
       then fill_market req xg 0 ?g3
       else (?g3\<lparr>bg_resting := dset (rq_order_id req) (resting_of req xg) (bg_resting ?g3)\<rparr>, Inr ()))"
    unfolding bt_handle_order_request_def bg_uuid_def Let_def prod.case assms(3) c(2) drawn_def [symmetric]
      g1_def [symmetric] xg_def [symmetric] early_def posts_def c(6,7)
    by (simp only: simp_thms if_False)
  show ?thesis
  proof (cases "early \<or> posts")
    case True
    with assms(2) reject_twins [OF t1] show ?thesis unfolding e e' by (auto split: if_splits)
  next
    case False
    with assms(2) have r: "\<not> refused (and_then (sim_publish_ack req xs ?s2) ?k)" by (simp add: e)
    then have "\<not> refused (sim_publish_ack req xs ?s2)" by (rule refused_and_then)
    from ack_twins [OF t2 this, of xg] obtain s3 where s3: "sim_publish_ack req xs ?s2 = (s3, Inr ())" "twins s3 ?g3"
      by blast
    note x = crosses_twins [OF s3(2), of req] and z = twinsD [OF s3(2)]
    show ?thesis
    proof (cases "rq_type req \<in> {OT_MARKET, OT_IOC, OT_FOK} \<or> crosses_now req ?g3")
      case True
      with r s3 x z have m: "\<not> refused (fill_at_market req xs s3)" by (simp add: sim_fill_market_def)
      from market_twins [OF s3(2) m, of xg] True False s3 x z show ?thesis
        unfolding e e' by (simp add: sim_fill_market_def)
    next
      case no: False
      with False rest_twins [OF s3(2), of req xs xg] s3(1) x show ?thesis unfolding e e' by simp
    qed
  qed
qed

lemma order_request_twins:
  assumes "twins s g" and "\<not> refused (sim_handle_order_request req s)"
  shows "agree (sim_handle_order_request req s) (bt_handle_order_request req g)"
  using assms submit_twins [OF assms(1)] twinsD [OF assms(1)]
  by (auto simp: sim_handle_order_request_def bt_handle_order_request_def split: if_splits)

lemma cancel_twins:
  assumes "twins s g" and "\<not> refused (sim_handle_cancel_request req s)"
  shows "agree (sim_handle_cancel_request req s) (bt_handle_cancel_request req g, Inr ())"
proof -
  let ?i = "cr_order_id req"
  let ?s = "s\<lparr>sg_resting := dpop ?i (sg_resting s)\<rparr>" and ?g = "g\<lparr>bg_resting := dpop ?i (bg_resting g)\<rparr>"
  note c = twinsD [OF assms(1)]
  have b: "same_book (sg_orders s) (sg_resting s) (bg_resting g)" using assms(1) by (simp add: twins_def)
  have t: "twins ?s ?g" using assms(1) same_book_pop [OF b, of ?i] by (simp add: twins_def all_due_def)
  have l: "dget (sg_resting s) ?i = None \<longleftrightarrow> dget (bg_resting g) ?i = None"
    using b book_get [of "sg_orders s" "sg_resting s" "bg_resting g" ?i] by (auto simp: same_book_def split: option.splits)
  have h: "sim_handle_cancel_request req s = cancel_now req s" using c by (simp add: sim_handle_cancel_request_def)
  have n: "bg_now ?g = bg_now g" "sg_now ?s = bg_now g" "sg_cfg ?s = bg_cfg g" using c by simp_all
  show ?thesis
  proof (cases "dget (sg_resting s) ?i")
    case None
    with l assms(2) show ?thesis
      unfolding h cancel_now_def bt_handle_cancel_request_def Let_def sim_publish_reject_def c
      by (simp add: h) (rule response_twins [OF t], simp_all add: c response_def sim_response_def
          cancel_now_def sim_publish_reject_def Let_def)
  next
    case (Some a)
    with l obtain o1 where "dget (bg_resting g) ?i = Some o1" by fastforce
    with Some assms(2) show ?thesis
      unfolding h cancel_now_def bt_handle_cancel_request_def Let_def c
      by (simp add: h) (rule response_twins [OF t], simp_all add: c response_def sim_response_def
          cancel_now_def Let_def)
  qed
qed

lemma leave_twins:
  assumes "twins s g" and "dget (sg_resting s) i = Some a"
  shows "twins (change_order a (\<lambda>o2. o2\<lparr>ro_leaves := l\<rparr>) s)
    (g\<lparr>bg_resting := dmod i (\<lambda>o1. o1\<lparr>ro_leaves := l\<rparr>) (bg_resting g)\<rparr>)"
  using assms same_book_leaves [of "sg_orders s" "sg_resting s" "bg_resting g" i a l]
  by (simp add: twins_def change_order_def all_due_def)

lemma change_leaves:
  "change_order a (\<lambda>o2. o2\<lparr>ro_leaves := dsub (ro_leaves o2) q\<rparr>) s =
    change_order a (\<lambda>o2. o2\<lparr>ro_leaves := dsub (ro_leaves (sg_orders s ! a)) q\<rparr>) s"
  by (simp add: change_order_def)

lemma match_order_twins:
  assumes "twins s g" and "dget (sg_resting s) i = Some a" and "dget (bg_resting g) i = Some o1"
    and "ro_untag o1 = ro_untag (sg_orders s ! a)" and "\<not> refused (match_order a t ids rest s)"
  shows "\<exists>s'. match_order a t ids rest s = rest (drop_if_done a s') \<and>
    twins s' (emit_fills_for_resting i (ro_price o1) 0 g) \<and> sg_resting s' = sg_resting s"
proof -
  let ?o = "sg_orders s ! a"
  note c = twinsD [OF assms(1)] and f = ro_untag_fields [OF assms(4)]
  have a: "a < length (sg_orders s)" "ro_order_id ?o = i"
    using assms(1) dget_Some_mem [OF assms(2)] by (force simp: twins_def same_book_def)+
  define price where "price = ro_price o1"
  define lv where "lv = ro_leaves o1"
  define prior where "prior = dsub (ro_quantity o1) lv"
  obtain x y s1 where d: "sim_draw_split lv s = (x, y, s1)" by (metis prod_cases3)
  from draw_twins [OF assms(1) this] obtain g1 where
    g1: "draw_split lv g = (x, y, g1)" "twins s1 g1" "bg_cfg g1 = bg_cfg g" "bg_resting g1 = bg_resting g"
      "sg_orders s1 = sg_orders s" "sg_resting s1 = sg_resting s" by blast
  define l1 where "l1 = (if 0 < x then dsub lv x else lv)"
  let ?ls = "\<lambda>l s. change_order a (\<lambda>o2. o2\<lparr>ro_leaves := l\<rparr>) s"
  let ?lg = "\<lambda>l g. g\<lparr>bg_resting := dmod i (\<lambda>o1. o1\<lparr>ro_leaves := l\<rparr>) (bg_resting g)\<rparr>"
  define m1 where "m1 = (if 0 < x then sim_publish_fill ?o price x (dadd prior x) (dsub lv x) True (?ls (dsub lv x) s1)
      else (s1, Inr ()))"
  define g2 where "g2 = (if 0 < x then schedule_fill 0 o1 price x (dadd prior x) l1 True (?lg l1 g1) else g1)"
  define cum where "cum = dadd (dadd prior x) y"
  have e: "resting_first a price s = and_then m1 (\<lambda>s _.
      (if 0 < y then change_order a (\<lambda>o2. o2\<lparr>ro_leaves := dsub (ro_leaves o2) y\<rparr>) s else s, Inr (cum, y)))"
    using d g1(5) f
    by (simp add: resting_first_def Let_def m1_def change_leaves [of a x] lv_def prior_def cum_def)
  have e': "emit_fills_for_resting i price 0 g =
      (if 0 < y then schedule_fill 0 o1 price y cum (dsub l1 y) True (?lg (dsub l1 y) g2) else g2)"
    using c by (simp add: emit_fills_for_resting_def assms(3) g1(1) Let_def l1_def g2_def cum_def prior_def flip: lv_def)
  have M: "match_order a t ids rest s = and_then (resting_first a price s) (\<lambda>s (cumulative, second).
           if \<not> 0 < second then rest (drop_if_done a s)
           else if 0 < sc_fill_ms (sg_cfg s) then (s, Inr (SecondMatchWait a price cumulative second t ids))
           else and_then (resting_second a price cumulative second s) (\<lambda>s _. rest (drop_if_done a s)))"
    using f by (simp only: match_order_def Let_def price_def)
  have ow: "same_owner ?o o1" using f by (simp add: same_owner_def)
  have "\<not> refused (resting_first a price s)" using assms(5) unfolding M by (rule refused_and_then)
  then have r: "\<not> refused m1" unfolding e by (rule refused_and_then)
  have t: "twins (?ls l1 s1) (?lg l1 g1)" using leave_twins [OF g1(2)] g1(6) assms(2) by simp
  obtain s2 where s2: "m1 = (s2, Inr ())" "twins s2 g2" "sg_resting s2 = sg_resting s" "same_owner (sg_orders s2 ! a) o1"
      "a < length (sg_orders s2)" "ro_leaves (sg_orders s2 ! a) = l1"
  proof (cases "0 < x")
    case True
    with r fill_twins [OF t ow, of price x "dadd prior x" l1 True] that a ow g1(5,6) show ?thesis
      by (auto simp: m1_def g2_def l1_def change_order_def same_owner_def)
  next
    case False
    with that g1 a ow f show ?thesis by (auto simp: m1_def g2_def l1_def lv_def)
  qed
  let ?s3 = "?ls (dsub l1 y) s2"
  show ?thesis
  proof (cases "0 < y")
    case True
    have R: "resting_first a price s = (?s3, Inr (cum, y))" using True s2 by (simp add: e change_leaves)
    have t3: "twins ?s3 (?lg (dsub l1 y) g2)" using leave_twins [OF s2(2)] s2(3) assms(2) by simp
    note z = twinsD [OF t3]
    have o3: "same_owner (sg_orders ?s3 ! a) o1" "ro_leaves (sg_orders ?s3 ! a) = dsub l1 y" "sg_resting ?s3 = sg_resting s"
      using s2 by (simp_all add: change_order_def same_owner_def)
    have "sc_fill_ms (bg_cfg g2) = 0" using twinsD [OF s2(2)] by simp
    with R z assms(5) True have q: "\<not> refused (and_then (resting_second a price cum y ?s3) (\<lambda>s _. rest (drop_if_done a s)))"
      "match_order a t ids rest s = and_then (resting_second a price cum y ?s3) (\<lambda>s _. rest (drop_if_done a s))"
      unfolding M by simp_all
    from refused_and_then [OF q(1)] have "\<not> refused (sim_publish_fill (sg_orders ?s3 ! a) price y cum (dsub l1 y) True ?s3)"
      using o3 by (simp add: resting_second_def Let_def)
    from fill_twins [OF t3 o3(1) this] True o3 q(2) show ?thesis
      by (auto simp: resting_second_def Let_def e' simp flip: price_def)
  next
    case False
    with s2 show ?thesis by (auto simp: M e e' simp flip: price_def)
  qed
qed

lemma drop_twins:
  assumes "twins s g" and "dget (sg_resting s) i = Some a" and "dget (bg_resting g) i = Some o1"
  shows "twins (drop_if_done a s) (if ro_leaves o1 = 0 then g\<lparr>bg_resting := dpop i (bg_resting g)\<rparr> else g)"
proof -
  have b: "same_book (sg_orders s) (sg_resting s) (bg_resting g)" using assms(1) by (simp add: twins_def)
  then have "list_all2 (entry (sg_orders s)) (sg_resting s) (bg_resting g)" by (simp add: same_book_def)
  from book_get [OF this, of i] assms(2,3) have "ro_untag o1 = ro_untag (sg_orders s ! a)" by simp
  from ro_untag_fields [OF this] have l: "ro_leaves (sg_orders s ! a) = ro_leaves o1" by simp
  have "ro_order_id (sg_orders s ! a) = i"
    using b dget_Some_mem [OF assms(2)] by (force simp: same_book_def)
  with assms(1) same_book_pop [OF b, of i] show ?thesis
    by (simp add: drop_if_done_def Let_def l twins_def all_due_def)
qed

lemma match_rest_twins:
  "twins s g \<Longrightarrow> \<not> refused (match_rest t ids s) \<Longrightarrow> agree (match_rest t ids s) (fold (match_one t) ids g, Inr ())"
proof (induction ids arbitrary: s g)
  case (Cons i ids)
  have b: "list_all2 (entry (sg_orders s)) (sg_resting s) (bg_resting g)"
    using Cons.prems(1) by (simp add: twins_def same_book_def)
  note z = twinsD [OF Cons.prems(1)]
  show ?case
  proof (cases "dget (sg_resting s) i")
    case None
    with book_get [OF b, of i] have "match_one t i g = g" by (simp add: match_one_def)
    with None Cons show ?thesis by simp
  next
    case (Some a)
    with book_get [OF b, of i] obtain o1 where
      o1: "dget (bg_resting g) i = Some o1" "ro_untag o1 = ro_untag (sg_orders s ! a)" by auto
    note f = ro_untag_fields [OF o1(2)]
    have x: "trade_crosses t (sg_orders s ! a) = trade_crosses t o1" using f by (simp add: trade_crosses_def)
    show ?thesis
    proof (cases "instrument_id (ro_instrument o1) \<noteq> instrument_id (tr_instrument t) \<or> \<not> trade_crosses t o1")
      case True
      with o1 have "match_one t i g = g" by (simp add: match_one_def)
      moreover have "match_rest t (i # ids) s = match_rest t ids s" using Some True f x by auto
      ultimately show ?thesis using Cons by (simp del: match_rest.simps)
    next
      case False
      have m: "match_rest t (i # ids) s = match_order a t ids (match_rest t ids) s"
        using Some False f x z by simp
      with Cons.prems(2) have "\<not> refused (match_order a t ids (match_rest t ids) s)" by simp
      from match_order_twins [OF Cons.prems(1) Some o1 this] obtain s' where
        s': "match_rest t (i # ids) s = match_rest t ids (drop_if_done a s')"
        "twins s' (emit_fills_for_resting i (ro_price o1) 0 g)" "sg_resting s' = sg_resting s" unfolding m by auto
      let ?g = "emit_fills_for_resting i (ro_price o1) 0 g"
      have a': "dget (sg_resting s') i = Some a" using Some s'(3) by simp
      have "list_all2 (entry (sg_orders s')) (sg_resting s') (bg_resting ?g)"
        using s'(2) by (simp add: twins_def same_book_def)
      from book_get [OF this, of i] a' obtain o2 where o2: "dget (bg_resting ?g) i = Some o2" by auto
      have "match_one t i g = (if ro_leaves o2 = 0 then ?g\<lparr>bg_resting := dpop i (bg_resting ?g)\<rparr> else ?g)"
        using o1 o2 False z by (simp add: match_one_def Let_def)
      with drop_twins [OF s'(2) a' o2] have "twins (drop_if_done a s') (match_one t i g)" by simp
      from Cons.IH [OF this] Cons.prems(2) show ?thesis unfolding s'(1) by simp
    qed
  qed
qed simp

subsection \<open>Histories\<close>

fun is_amend :: "venue_input \<Rightarrow> bool" where
  "is_amend (OrderIn (EvAmendRequest r)) = True"
| "is_amend _ = False"

fun sim_input :: "venue_input \<Rightarrow> sim_gateway \<Rightarrow> suspension sim_result" where
  "sim_input (OrderIn e) s = sim_on_order_event e s"
| "sim_input (MarketIn e) s = sim_on_market_data e s"

fun none_refused :: "venue_input list \<Rightarrow> sim_gateway \<Rightarrow> bool" where
  "none_refused [] s \<longleftrightarrow> True"
| "none_refused (x # xs) s \<longleftrightarrow> \<not> refused (sim_input x s) \<and> none_refused xs (fst (sim_input x s))"

lemma input_twins:
  assumes "twins s g" and "\<not> is_amend x" and "\<not> refused (sim_input x s)"
  shows "agree (sim_input x s) (bt_input x g)"
proof (cases x)
  case (OrderIn e)
  with assms show ?thesis
    by (cases e) (auto simp: sim_on_order_event_def bt_on_order_event_def order_request_twins cancel_twins)
next
  case (MarketIn e)
  have k: "dkeys (bg_resting g) = dkeys (sg_resting s)"
    using assms(1) by (intro book_keys [of "sg_orders s"]) (simp add: twins_def same_book_def)
  from MarketIn assms match_rest_twins [OF assms(1)] k show ?thesis
    by (cases e) (auto simp: sim_on_market_data_def bt_on_market_data_def match_resting_against_trade_def
        twins_def all_due_def)
qed

lemma history_twins:
  "twins s g \<Longrightarrow> list_all (\<lambda>x. \<not> is_amend x) xs \<Longrightarrow> none_refused xs s \<Longrightarrow>
    twins (fold (\<lambda>x s. fst (sim_input x s)) xs s) (fold (\<lambda>x g. fst (bt_input x g)) xs g)"
proof (induction xs arbitrary: s g)
  case (Cons x xs)
  from input_twins [of s g x] Cons.prems have "twins (fst (sim_input x s)) (fst (bt_input x g))"
    by (simp add: agree_def)
  with Cons show ?case by simp
qed simp


definition sample_instant :: sim_config where
  "sample_instant = (default_sim_config ''BINANCE'')\<lparr>sc_submit_ack_ms := 0, sc_cancel_ack_ms := 0, sc_fill_ms := 0\<rparr>"


end
