(* ===== verification/Feed_Handler.thy ===== *)
theory Feed_Handler
  imports Event_Bus Floats
begin

text \<open>
  \<open>feed_handler/engine.py\<close> and \<open>feed_handler/base.py\<close>: the task that keeps one venue connected. The
  connector is the environment: the coroutine \<open>run\<close> waits for it at four points (the connection, the
  next frame, the end of a backoff, the heartbeat), and a \<open>feed_move\<close> is what happens there. The
  handler of a move runs the code up to the next waiting point, its \<open>finally\<close> blocks included.
  The normalizer is an argument, a function on its own state. \<open>fd_sleeps\<close> records the delays slept,
  \<open>fd_sent\<close> what the bus took and \<open>fd_disconnects\<close> the calls of the connector's \<open>disconnect\<close>.
\<close>

record 'p raw_message =
  rm_payload :: 'p
  rm_ts_ingest :: timestamp
  rm_source :: string

type_synonym lookup = "string \<Rightarrow> py_error + instrument"

type_synonym ('n, 'p) normalizer = "'p raw_message \<Rightarrow> lookup \<Rightarrow> 'n \<Rightarrow> 'n \<times> (py_error + event list)"

record feed_config =
  fc_stale_seconds :: rat
  fc_max_attempts :: int
  fc_backoff_initial :: rat
  fc_backoff_max :: rat

definition feed_config_default :: feed_config where
  "feed_config_default =
     \<lparr>fc_stale_seconds = 30, fc_max_attempts = 10, fc_backoff_initial = 1, fc_backoff_max = 60\<rparr>"

datatype watchdog = NoTask | Watching | WatchOver | WatchFailed py_error

datatype feed_phase = Ready | Connecting | Consuming | BackingOff | Ended "py_error option"

record 'n feed =
  fd_norm :: 'n
  fd_bus :: async_bus
  fd_now :: timestamp
  fd_mono :: int
  fd_instruments :: "(string, instrument) dict"
  fd_source :: string
  fd_cfg :: feed_config
  fd_stopping :: bool
  fd_running :: bool
  fd_last :: "int option"
  fd_watch :: watchdog
  fd_attempt :: int
  fd_phase :: feed_phase
  fd_sleeps :: "rat list"
  fd_disconnects :: nat
  fd_sent :: "(topic \<times> event) list"

definition feed_init ::
    "'n \<Rightarrow> async_bus \<Rightarrow> timestamp \<Rightarrow> int \<Rightarrow> (string, instrument) dict \<Rightarrow> string \<Rightarrow> feed_config option \<Rightarrow> 'n feed" where
  "feed_init nz bus now mono_ns instruments src cfg =
     \<lparr>fd_norm = nz, fd_bus = bus, fd_now = now, fd_mono = mono_ns, fd_instruments = instruments,
      fd_source = src, fd_cfg = (case cfg of None \<Rightarrow> feed_config_default | Some c \<Rightarrow> c),
      fd_stopping = False, fd_running = False, fd_last = None, fd_watch = NoTask, fd_attempt = 0,
      fd_phase = Ready, fd_sleeps = [], fd_disconnects = 0, fd_sent = []\<rparr>"

subsection \<open>Helpers\<close>

definition topic_for :: "event \<Rightarrow> py_error + topic" where
  "topic_for e =
     (case e of
        EvTick _ \<Rightarrow> Inr MARKET_DATA | EvTrade _ \<Rightarrow> Inr MARKET_DATA | EvBook _ \<Rightarrow> Inr MARKET_DATA
      | EvFunding _ \<Rightarrow> Inr MARKET_DATA | EvRiskAlert _ \<Rightarrow> Inr ALERTS
      | _ \<Rightarrow> Inl ValueError)"

definition backoff_for :: "feed_config \<Rightarrow> int \<Rightarrow> rat" where
  "backoff_for cfg attempt =
     min (float_of (fc_backoff_initial cfg * 2 powi (attempt - 1))) (fc_backoff_max cfg)"

definition instrument_lookup :: "'n feed \<Rightarrow> lookup" where
  "instrument_lookup s symbol = (case dget (fd_instruments s) symbol of None \<Rightarrow> Inl KeyError | Some i \<Rightarrow> Inr i)"

definition feed_publish :: "topic \<Rightarrow> event \<Rightarrow> 'n feed \<Rightarrow> 'n feed \<times> (py_error + unit)" where
  "feed_publish t e s =
     (case publish t e (fd_bus s) of
        (b, Inl err) \<Rightarrow> (s\<lparr>fd_bus := b\<rparr>, Inl err)
      | (b, Inr _) \<Rightarrow> (s\<lparr>fd_bus := b, fd_sent := fd_sent s @ [(t, e)]\<rparr>, Inr ()))"

definition feed_alert :: "string \<Rightarrow> severity \<Rightarrow> 'n feed \<Rightarrow> event" where
  "feed_alert rule sev s =
     EvRiskAlert \<lparr>ts_event = fd_now s, ts_ingest = fd_now s, source = fd_source s, ra_rule_name = rule,
       ra_severity = sev\<rparr>"

definition publish_stale_feed_alert :: "'n feed \<Rightarrow> 'n feed \<times> (py_error + unit)" where
  "publish_stale_feed_alert s = feed_publish ALERTS (feed_alert ''feed_handler.stale_feed'' WARN s) s"

definition publish_circuit_breaker_alert :: "'n feed \<Rightarrow> 'n feed \<times> (py_error + unit)" where
  "publish_circuit_breaker_alert s =
     feed_publish ALERTS (feed_alert ''feed_handler.circuit_breaker'' BLOCK s) s"

definition call_disconnect :: "'n feed \<Rightarrow> 'n feed" where
  "call_disconnect s = s\<lparr>fd_disconnects := Suc (fd_disconnects s)\<rparr>"

subsection \<open>The end of a run\<close>

text \<open>\<open>_cleanup\<close>: a watchdog that has failed raises its exception again when it is awaited.\<close>

definition cleanup :: "'n feed \<Rightarrow> 'n feed \<times> (py_error + unit)" where
  "cleanup s =
     (case fd_watch s of
        WatchFailed e \<Rightarrow> (s, Inl e)
      | _ \<Rightarrow> (s\<lparr>fd_watch := NoTask, fd_running := False\<rparr>, Inr ()))"

text \<open>
  The two \<open>finally\<close> blocks around the end of \<open>run\<close>: the connector is closed, then the handler cleans
  up; what the clean-up raises replaces the exception that ended the loop.
\<close>

definition finish :: "py_error option \<Rightarrow> 'n feed \<Rightarrow> 'n feed" where
  "finish exc s =
     (case cleanup (call_disconnect s) of
        (s1, Inl e) \<Rightarrow> s1\<lparr>fd_phase := Ended (Some e)\<rparr>
      | (s1, Inr _) \<Rightarrow> s1\<lparr>fd_phase := Ended exc\<rparr>)"

text \<open>The end of one round of the loop and its condition.\<close>

definition loop_head :: "'n feed \<Rightarrow> 'n feed" where
  "loop_head s =
     (if fd_stopping s
      then (case cleanup s of
              (s1, Inl e) \<Rightarrow> s1\<lparr>fd_phase := Ended (Some e)\<rparr>
            | (s1, Inr _) \<Rightarrow> s1\<lparr>fd_phase := Ended None\<rparr>)
      else s\<lparr>fd_phase := Connecting\<rparr>)"

definition next_round :: "'n feed \<Rightarrow> 'n feed" where
  "next_round s = loop_head (call_disconnect s)"

text \<open>The branch \<open>except FeedDisconnectedError\<close>.\<close>

definition feed_disconnected :: "'n feed \<Rightarrow> 'n feed" where
  "feed_disconnected s =
     (if fd_stopping s then finish None s
      else
        let s1 = s\<lparr>fd_attempt := fd_attempt s + 1\<rparr>
        in if fc_max_attempts (fd_cfg s) < fd_attempt s1
           then (case publish_circuit_breaker_alert s1 of
                   (s2, Inl e) \<Rightarrow> finish (Some e) s2
                 | (s2, Inr _) \<Rightarrow> finish None s2)
           else s1\<lparr>fd_phase := BackingOff,
                   fd_sleeps := fd_sleeps s1 @ [backoff_for (fd_cfg s1) (fd_attempt s1)]\<rparr>)"

subsection \<open>Running and stopping\<close>

definition feed_run :: "'n feed \<Rightarrow> 'n feed \<times> (py_error + unit)" where
  "feed_run s =
     (if fd_running s then (s, Inl RuntimeError)
      else (s\<lparr>fd_running := True, fd_stopping := False, fd_watch := Watching, fd_attempt := 0,
              fd_phase := Connecting\<rparr>, Inr ()))"

definition feed_stop :: "'n feed \<Rightarrow> 'n feed" where
  "feed_stop s = call_disconnect (s\<lparr>fd_stopping := True\<rparr>)"

definition feed_connected :: "'n feed \<Rightarrow> 'n feed" where
  "feed_connected s = s\<lparr>fd_attempt := 0, fd_last := Some (fd_mono s), fd_phase := Consuming\<rparr>"

subsection \<open>Frames\<close>

primrec publish_events :: "event list \<Rightarrow> 'n feed \<Rightarrow> 'n feed \<times> (py_error + unit)" where
  "publish_events [] s = (s, Inr ())"
| "publish_events (e # es) s =
     (case topic_for e of
        Inl err \<Rightarrow> (s, Inl err)
      | Inr t \<Rightarrow> and_then (feed_publish t e s) (\<lambda>s _. publish_events es s))"

definition consume_frame :: "('n, 'p) normalizer \<Rightarrow> 'p raw_message \<Rightarrow> 'n feed \<Rightarrow> 'n feed" where
  "consume_frame nz raw s =
     (case nz raw (instrument_lookup s) (fd_norm s) of
        (n1, Inl _) \<Rightarrow> s\<lparr>fd_last := Some (fd_mono s), fd_norm := n1\<rparr>
      | (n1, Inr es) \<Rightarrow>
          (case publish_events es (s\<lparr>fd_last := Some (fd_mono s), fd_norm := n1\<rparr>) of
             (s1, Inl err) \<Rightarrow> finish (Some err) s1
           | (s1, Inr _) \<Rightarrow> s1))"

subsection \<open>The heartbeat watchdog\<close>

definition check_interval :: "feed_config \<Rightarrow> rat" where
  "check_interval cfg = max (float_of (1 / 100)) (float_of (fc_stale_seconds cfg / 2))"

definition stale_threshold_ns :: "feed_config \<Rightarrow> int" where
  "stale_threshold_ns cfg = seconds_to_ns (fc_stale_seconds cfg)"

text \<open>The body of the loop behind its sleep, and the loop's condition after it.\<close>

definition watchdog_body :: "'n feed \<Rightarrow> 'n feed \<times> (py_error + unit)" where
  "watchdog_body s =
     (case fd_last s of
        None \<Rightarrow> (s, Inr ())
      | Some l \<Rightarrow>
          if fd_mono s - l \<le> stale_threshold_ns (fd_cfg s) then (s, Inr ())
          else and_then (publish_stale_feed_alert s)
                 (\<lambda>s _. ((call_disconnect s)\<lparr>fd_last := None\<rparr>, Inr ())))"

definition watchdog_wakes :: "'n feed \<Rightarrow> 'n feed" where
  "watchdog_wakes s =
     (case watchdog_body s of
        (s1, Inl e) \<Rightarrow> s1\<lparr>fd_watch := WatchFailed e\<rparr>
      | (s1, Inr _) \<Rightarrow> if fd_stopping s1 then s1\<lparr>fd_watch := WatchOver\<rparr> else s1)"

subsection \<open>Histories\<close>

text \<open>
  A connector call returns, raises \<open>FeedDisconnectedError\<close> or raises something else; the stream may
  also end without an exception. A move that the handler is not waiting for does not happen.
\<close>

datatype 'p feed_move =
    CallRun
  | CallStop
  | Connected
  | ConnectRefused
  | ConnectCrashed py_error
  | Frame "'p raw_message"
  | StreamLost
  | StreamEnded
  | StreamCrashed py_error
  | BackoffOver
  | WatchdogWakes
  | Elapse timestamp int

fun feed_do :: "('n, 'p) normalizer \<Rightarrow> 'p feed_move \<Rightarrow> 'n feed \<Rightarrow> 'n feed" where
  "feed_do nz CallRun s = fst (feed_run s)"
| "feed_do nz CallStop s = feed_stop s"
| "feed_do nz Connected s = (if fd_phase s = Connecting then feed_connected s else s)"
| "feed_do nz ConnectRefused s = (if fd_phase s = Connecting then feed_disconnected s else s)"
| "feed_do nz (ConnectCrashed e) s = (if fd_phase s = Connecting then finish (Some e) s else s)"
| "feed_do nz (Frame raw) s = (if fd_phase s = Consuming then consume_frame nz raw s else s)"
| "feed_do nz StreamLost s = (if fd_phase s = Consuming then feed_disconnected s else s)"
| "feed_do nz StreamEnded s = (if fd_phase s = Consuming then next_round s else s)"
| "feed_do nz (StreamCrashed e) s = (if fd_phase s = Consuming then finish (Some e) s else s)"
| "feed_do nz BackoffOver s = (if fd_phase s = BackingOff then next_round s else s)"
| "feed_do nz WatchdogWakes s = (if fd_watch s = Watching then watchdog_wakes s else s)"
| "feed_do nz (Elapse t d) s = s\<lparr>fd_now := t, fd_mono := fd_mono s + max 0 d\<rparr>"

end
