(* ===== verification/Feed_Properties.thy ===== *)
theory Feed_Properties
  imports Feed_Handler
begin

text \<open>
  What a feed handler guarantees over its histories: a venue that cannot be reached is given up after
  the configured attempts and the scheduled delays, the bus gets exactly what the normalizer makes of
  the frames; and what it does not: a watchdog that fails leaves the handler running for ever, and a
  stop during the connection is lost.
\<close>

subsection \<open>What the pieces keep\<close>

lemma publish_fields [simp]:
  "fd_norm (fst (feed_publish t e s)) = fd_norm s" "fd_cfg (fst (feed_publish t e s)) = fd_cfg s"
  "fd_stopping (fst (feed_publish t e s)) = fd_stopping s" "fd_running (fst (feed_publish t e s)) = fd_running s"
  "fd_watch (fst (feed_publish t e s)) = fd_watch s" "fd_attempt (fst (feed_publish t e s)) = fd_attempt s"
  "fd_phase (fst (feed_publish t e s)) = fd_phase s" "fd_sleeps (fst (feed_publish t e s)) = fd_sleeps s"
  "fd_instruments (fst (feed_publish t e s)) = fd_instruments s"
  by (simp_all add: feed_publish_def split: prod.splits sum.splits)

lemma feed_publish_sent:
  "fd_sent (fst (feed_publish t e s)) = fd_sent s @ (if snd (feed_publish t e s) = Inr () then [(t, e)] else [])"
  by (simp add: feed_publish_def split: prod.splits sum.splits)

lemma finish_fields [simp]:
  "fd_norm (finish x s) = fd_norm s" "fd_cfg (finish x s) = fd_cfg s" "fd_stopping (finish x s) = fd_stopping s"
  "fd_sleeps (finish x s) = fd_sleeps s" "fd_instruments (finish x s) = fd_instruments s"
  "fd_sent (finish x s) = fd_sent s"
  by (auto simp: finish_def cleanup_def call_disconnect_def split: watchdog.splits)

lemma finish_phase: "\<exists>y. fd_phase (finish x s) = Ended y \<and> (x \<noteq> None \<longrightarrow> y \<noteq> None)"
  by (auto simp: finish_def cleanup_def call_disconnect_def split: watchdog.splits)

lemma round_fields [simp]:
  "fd_norm (next_round s) = fd_norm s" "fd_cfg (next_round s) = fd_cfg s" "fd_stopping (next_round s) = fd_stopping s"
  "fd_sleeps (next_round s) = fd_sleeps s" "fd_instruments (next_round s) = fd_instruments s"
  "fd_sent (next_round s) = fd_sent s" "fd_attempt (next_round s) = fd_attempt s"
  "\<not> fd_stopping s \<Longrightarrow> fd_phase (next_round s) = Connecting"
  by (auto simp: next_round_def loop_head_def cleanup_def call_disconnect_def split: watchdog.splits)

lemma watchdog_fields [simp]:
  "fd_norm (watchdog_wakes s) = fd_norm s" "fd_cfg (watchdog_wakes s) = fd_cfg s"
  "fd_stopping (watchdog_wakes s) = fd_stopping s" "fd_sleeps (watchdog_wakes s) = fd_sleeps s"
  "fd_instruments (watchdog_wakes s) = fd_instruments s" "fd_attempt (watchdog_wakes s) = fd_attempt s"
  "fd_phase (watchdog_wakes s) = fd_phase s" "fd_running (watchdog_wakes s) = fd_running s"
  by (auto simp: watchdog_wakes_def watchdog_body_def publish_stale_feed_alert_def call_disconnect_def
      feed_publish_def split: option.splits prod.splits sum.splits)

subsection \<open>Giving up\<close>

fun is_round :: "'p feed_move \<Rightarrow> bool" where
  "is_round ConnectRefused = True"
| "is_round BackoffOver = True"
| "is_round _ = False"

fun is_idle :: "'p feed_move \<Rightarrow> bool" where
  "is_idle WatchdogWakes = True"
| "is_idle (Elapse t d) = True"
| "is_idle _ = False"

text \<open>\<open>n\<close> more refusals behind a first one, each after its backoff.\<close>

primrec refusals :: "nat \<Rightarrow> 'p feed_move list" where
  "refusals 0 = [ConnectRefused]"
| "refusals (Suc n) = ConnectRefused # BackoffOver # refusals n"

lemma idle_step:
  "is_idle m \<Longrightarrow> fd_phase (feed_do nz m s) = fd_phase s \<and> fd_attempt (feed_do nz m s) = fd_attempt s \<and>
    fd_sleeps (feed_do nz m s) = fd_sleeps s \<and> fd_cfg (feed_do nz m s) = fd_cfg s \<and>
    fd_stopping (feed_do nz m s) = fd_stopping s"
  by (cases m) auto

lemma refused_step:
  fixes nz :: "('n, 'p) normalizer" and s :: "'n feed"
  assumes "fd_phase s = Connecting" and "\<not> fd_stopping s"
  defines "s' \<equiv> feed_do nz ConnectRefused s"
  shows "fd_attempt s < fc_max_attempts (fd_cfg s) \<Longrightarrow>
      fd_phase s' = BackingOff \<and> fd_attempt s' = fd_attempt s + 1 \<and> fd_cfg s' = fd_cfg s \<and> \<not> fd_stopping s' \<and>
      fd_sleeps s' = fd_sleeps s @ [backoff_for (fd_cfg s) (fd_attempt s + 1)]"
    and "fc_max_attempts (fd_cfg s) \<le> fd_attempt s \<Longrightarrow> (\<exists>x. fd_phase s' = Ended x) \<and> fd_sleeps s' = fd_sleeps s \<and>
      (fd_phase s' = Ended None \<longrightarrow> last (fd_sent s') = (ALERTS, feed_alert ''feed_handler.circuit_breaker'' BLOCK s))"
  using assms
  by (auto simp: feed_disconnected_def Let_def publish_circuit_breaker_alert_def feed_publish_def feed_alert_def
      finish_def cleanup_def call_disconnect_def split: prod.splits sum.splits watchdog.splits)

lemma ended_stays:
  "fd_phase s = Ended x \<Longrightarrow> list_all (\<lambda>m. is_round m \<or> is_idle m) ms \<Longrightarrow>
    fd_phase (fold (feed_do nz) ms s) = Ended x \<and> fd_sleeps (fold (feed_do nz) ms s) = fd_sleeps s"
proof (induction ms arbitrary: s)
  case (Cons m ms)
  have "fd_phase (feed_do nz m s) = Ended x \<and> fd_sleeps (feed_do nz m s) = fd_sleeps s"
    using Cons.prems idle_step [of m nz s] by (cases m) auto
  with Cons show ?case by simp
qed simp

lemma given_up:
  assumes "list_all (\<lambda>m. is_round m \<or> is_idle m) ms" and "filter is_round ms = refusals n"
    and "fd_phase s = Connecting" and "\<not> fd_stopping s"
    and "fc_max_attempts (fd_cfg s) = fd_attempt s + int n"
  shows "(\<exists>x. fd_phase (fold (feed_do nz) ms s) = Ended x) \<and>
    fd_sleeps (fold (feed_do nz) ms s) =
      fd_sleeps s @ map (backoff_for (fd_cfg s)) [fd_attempt s + 1 .. fc_max_attempts (fd_cfg s)]"
  using assms
proof (induction ms arbitrary: s n rule: length_induct)
  case (1 ms)
  note IH = 1(1) and prems = 1(2-)
  show ?case
  proof (cases ms)
    case Nil
    with prems(2) show ?thesis by (cases n) simp_all
  next
    case (Cons m ms')
    show ?thesis
    proof (cases "is_idle m")
      case True
      then have "filter is_round ms' = refusals n" using prems(2) Cons by (cases m) auto
      with IH prems True idle_step [OF True, of nz s] show ?thesis by (simp add: Cons)
    next
      case False
      then have r: "is_round m" using prems(1) Cons by simp
      then have m: "m = ConnectRefused" using prems(2) Cons by (cases n) auto
      note st = refused_step [OF prems(3,4), of nz, folded m]
      show ?thesis
      proof (cases n)
        case 0
        then obtain x where x: "fd_phase (feed_do nz m s) = Ended x" "fd_sleeps (feed_do nz m s) = fd_sleeps s"
          using st(2) prems(5) by auto
        with ended_stays [OF x(1), of ms' nz] prems(1,5) 0 show ?thesis by (simp add: Cons)
      next
        case (Suc k)
        let ?s1 = "feed_do nz m s"
        have s1: "fd_phase ?s1 = BackingOff" "fd_attempt ?s1 = fd_attempt s + 1" "fd_cfg ?s1 = fd_cfg s"
          "\<not> fd_stopping ?s1" "fd_sleeps ?s1 = fd_sleeps s @ [backoff_for (fd_cfg s) (fd_attempt s + 1)]"
          using st(1) prems(5) Suc by auto
        have f: "filter is_round ms' = BackoffOver # refusals k" using prems(2) Cons Suc m by simp
        then obtain us vs where uv: "ms' = us @ BackoffOver # vs" "list_all (\<lambda>m. \<not> is_round m) us"
            "filter is_round vs = refusals k"
          by (auto simp: filter_eq_Cons_iff list_all_iff)
        have us: "list_all is_idle us" using uv(2) prems(1) unfolding Cons uv(1) by (auto simp: list_all_iff)
        have idle: "fd_phase (fold (feed_do nz) us t) = fd_phase t \<and> fd_attempt (fold (feed_do nz) us t) = fd_attempt t \<and>
            fd_sleeps (fold (feed_do nz) us t) = fd_sleeps t \<and> fd_cfg (fold (feed_do nz) us t) = fd_cfg t \<and>
            fd_stopping (fold (feed_do nz) us t) = fd_stopping t" for t
          using us by (induction us arbitrary: t) (simp_all add: idle_step)
        let ?s2 = "feed_do nz BackoffOver (fold (feed_do nz) us ?s1)"
        have s2: "fd_phase ?s2 = Connecting" "fd_attempt ?s2 = fd_attempt s + 1" "fd_cfg ?s2 = fd_cfg s"
          "\<not> fd_stopping ?s2" "fd_sleeps ?s2 = fd_sleeps s @ [backoff_for (fd_cfg s) (fd_attempt s + 1)]"
          using idle [of ?s1] s1 by simp_all
        have "length vs < length ms" "list_all (\<lambda>m. is_round m \<or> is_idle m) vs"
          using prems(1) by (simp_all add: Cons uv(1))
        note ih = IH [rule_format, OF this(1) this(2) uv(3) s2(1,4)]
        have "fc_max_attempts (fd_cfg ?s2) = fd_attempt ?s2 + int k"
          using prems(5) Suc unfolding s2(2,3) by simp
        from ih [OF this] have "(\<exists>x. fd_phase (fold (feed_do nz) vs ?s2) = Ended x) \<and>
            fd_sleeps (fold (feed_do nz) vs ?s2) = fd_sleeps s @ backoff_for (fd_cfg s) (fd_attempt s + 1) #
              map (backoff_for (fd_cfg s)) [fd_attempt s + 1 + 1 .. fc_max_attempts (fd_cfg s)]"
          unfolding s2(2,3,5) by simp
        moreover have "fd_attempt s + 1 \<le> fc_max_attempts (fd_cfg s)" using prems(5) Suc by simp
        ultimately show ?thesis by (simp add: Cons uv(1) upto_rec1)
      qed
    qed
  qed
qed


definition sample_feed :: "unit feed" where
  "sample_feed =
     feed_init () (sample_bus 2 0) 0 0 [] ''binance'' (Some (feed_config_default\<lparr>fc_stale_seconds := 60, fc_max_attempts := 2\<rparr>))"


subsection \<open>The frames and what is published\<close>

text \<open>The frames the handler takes from the stream, and what the normalizer makes of them.\<close>

primrec taken :: "('n, 'p) normalizer \<Rightarrow> 'p feed_move list \<Rightarrow> 'n feed \<Rightarrow> 'p raw_message list" where
  "taken nz [] s = []"
| "taken nz (m # ms) s =
     (case m of Frame raw \<Rightarrow> if fd_phase s = Consuming then [raw] else [] | _ \<Rightarrow> []) @
     taken nz ms (feed_do nz m s)"

primrec feed_output :: "('n, 'p) normalizer \<Rightarrow> lookup \<Rightarrow> 'p raw_message list \<Rightarrow> 'n \<Rightarrow> event list" where
  "feed_output nz lk [] n = []"
| "feed_output nz lk (raw # raws) n =
     (case nz raw lk n of
        (n1, Inl _) \<Rightarrow> feed_output nz lk raws n1
      | (n1, Inr es) \<Rightarrow> es @ feed_output nz lk raws n1)"

definition market :: "event list \<Rightarrow> event list" where
  "market es = filter (\<lambda>e. topic_for e = Inr MARKET_DATA) es"

definition market_sent :: "(topic \<times> event) list \<Rightarrow> event list" where
  "market_sent sent = map snd (filter (\<lambda>x. fst x = MARKET_DATA) sent)"

lemma market_simps [simp]:
  "market [] = []" "market (es @ fs) = market es @ market fs"
  "market (e # es) = (if topic_for e = Inr MARKET_DATA then e # market es else market es)"
  "market_sent (xs @ ys) = market_sent xs @ market_sent ys" "market_sent [] = []"
  "market_sent [(t, e)] = (if t = MARKET_DATA then [e] else [])"
  by (simp_all add: market_def market_sent_def)

lemma publish_events_fields [simp]:
  "fd_norm (fst (publish_events es s)) = fd_norm s" "fd_instruments (fst (publish_events es s)) = fd_instruments s"
  "fd_phase (fst (publish_events es s)) = fd_phase s" "fd_running (fst (publish_events es s)) = fd_running s"
  "fd_watch (fst (publish_events es s)) = fd_watch s" "fd_stopping (fst (publish_events es s)) = fd_stopping s"
proof -
  have "fd_norm (fst (publish_events es s)) = fd_norm s \<and> fd_instruments (fst (publish_events es s)) = fd_instruments s \<and>
    fd_phase (fst (publish_events es s)) = fd_phase s \<and> fd_running (fst (publish_events es s)) = fd_running s \<and>
    fd_watch (fst (publish_events es s)) = fd_watch s \<and> fd_stopping (fst (publish_events es s)) = fd_stopping s"
  proof (induction es arbitrary: s)
    case (Cons e es)
    show ?case
    proof (cases "topic_for e")
      case (Inr t)
      obtain s1 r where p: "feed_publish t e s = (s1, r)" by force
      moreover note publish_fields [of t e s, unfolded p fst_conv]
      ultimately show ?thesis using Inr Cons by (cases r) simp_all
    qed simp
  qed simp
  then show "fd_norm (fst (publish_events es s)) = fd_norm s" "fd_instruments (fst (publish_events es s)) = fd_instruments s"
    "fd_phase (fst (publish_events es s)) = fd_phase s" "fd_running (fst (publish_events es s)) = fd_running s"
    "fd_watch (fst (publish_events es s)) = fd_watch s" "fd_stopping (fst (publish_events es s)) = fd_stopping s"
    by auto
qed

lemma publish_events_market:
  "\<exists>rest. market_sent (fd_sent s) @ market es = market_sent (fd_sent (fst (publish_events es s))) @ rest \<and>
    (snd (publish_events es s) = Inr () \<longrightarrow> rest = [])"
proof (induction es arbitrary: s)
  case (Cons e es)
  show ?case
  proof (cases "topic_for e")
    case (Inr t)
    obtain s1 r where p: "feed_publish t e s = (s1, r)" by force
    show ?thesis
    proof (cases r)
      case (Inr u)
      with p feed_publish_sent [of t e s] have "fd_sent s1 = fd_sent s @ [(t, e)]" by simp
      moreover have "topic_for e = Inr MARKET_DATA \<longleftrightarrow> t = MARKET_DATA" using \<open>topic_for e = Inr t\<close> by simp
      ultimately show ?thesis using Cons [of s1] Inr p \<open>topic_for e = Inr t\<close>
        by (cases "t = MARKET_DATA") simp_all
    next
      case (Inl err)
      with p feed_publish_sent [of t e s] Inr show ?thesis by simp
    qed
  qed simp
qed simp

lemma sent_alert:
  "topic \<noteq> MARKET_DATA \<Longrightarrow> market_sent (fd_sent (fst (feed_publish topic e s))) = market_sent (fd_sent s)"
  by (simp add: feed_publish_sent)

lemma watchdog_market [simp]: "market_sent (fd_sent (watchdog_wakes s)) = market_sent (fd_sent s)"
  by (auto simp: watchdog_wakes_def watchdog_body_def publish_stale_feed_alert_def call_disconnect_def
      feed_publish_def split: option.splits prod.splits sum.splits)

lemma disconnected_fields [simp]:
  "fd_norm (feed_disconnected s) = fd_norm s" "fd_instruments (feed_disconnected s) = fd_instruments s"
  "market_sent (fd_sent (feed_disconnected s)) = market_sent (fd_sent s)"
  by (auto simp: feed_disconnected_def Let_def publish_circuit_breaker_alert_def feed_publish_def
      split: prod.splits sum.splits)

fun is_run :: "'p feed_move \<Rightarrow> bool" where
  "is_run CallRun = True"
| "is_run _ = False"

definition feed_over :: "'n feed \<Rightarrow> bool" where
  "feed_over s \<longleftrightarrow> (\<exists>e. fd_phase s = Ended (Some e))"

text \<open>One move: what is published is the output of the frame it takes, unless it ends the run.\<close>

lemma move_market:
  assumes "\<not> is_run m"
  shows "\<exists>rest. market_sent (fd_sent s) @ market (feed_output nz (instrument_lookup s)
      (case m of Frame raw \<Rightarrow> if fd_phase s = Consuming then [raw] else [] | _ \<Rightarrow> []) (fd_norm s)) =
      market_sent (fd_sent (feed_do nz m s)) @ rest \<and> (rest \<noteq> [] \<longrightarrow> feed_over (feed_do nz m s))"
proof (cases m)
  case (Frame raw)
  show ?thesis
  proof (cases "fd_phase s = Consuming")
    case True
    obtain n1 r where nz: "nz raw (instrument_lookup s) (fd_norm s) = (n1, r)" by force
    show ?thesis
    proof (cases r)
      case (Inr es)
      let ?s1 = "s\<lparr>fd_last := Some (fd_mono s), fd_norm := n1\<rparr>"
      obtain rest where rest: "market_sent (fd_sent s) @ market es = market_sent (fd_sent (fst (publish_events es ?s1))) @ rest"
        "snd (publish_events es ?s1) = Inr () \<longrightarrow> rest = []"
        using publish_events_market [of ?s1 es] by auto
      have "market_sent (fd_sent (consume_frame nz raw s)) = market_sent (fd_sent (fst (publish_events es ?s1)))"
        by (simp add: consume_frame_def nz Inr split: prod.splits sum.splits)
      moreover have "rest \<noteq> [] \<longrightarrow> feed_over (consume_frame nz raw s)"
        using rest(2) finish_phase [of "Some _" "fst (publish_events es ?s1)"]
        by (fastforce simp: consume_frame_def nz Inr feed_over_def split: prod.splits sum.splits)
      ultimately show ?thesis using Frame True rest(1) by (intro exI [of _ rest]) (simp add: nz Inr)
    qed (simp add: Frame True nz consume_frame_def)
  qed (simp add: Frame)
qed (use assms in \<open>auto simp: feed_stop_def call_disconnect_def feed_connected_def\<close>)

lemma move_norm:
  assumes "\<not> is_run m"
  shows "fd_instruments (feed_do nz m s) = fd_instruments s \<and>
    (feed_output nz (instrument_lookup s)
       ((case m of Frame raw \<Rightarrow> if fd_phase s = Consuming then [raw] else [] | _ \<Rightarrow> []) @ raws) (fd_norm s) =
     feed_output nz (instrument_lookup s)
       (case m of Frame raw \<Rightarrow> if fd_phase s = Consuming then [raw] else [] | _ \<Rightarrow> []) (fd_norm s) @
     feed_output nz (instrument_lookup s) raws (fd_norm (feed_do nz m s)))"
proof (cases m)
  case (Frame raw)
  obtain n1 r where nz: "nz raw (instrument_lookup s) (fd_norm s) = (n1, r)" by force
  show ?thesis
  proof (cases r)
    case (Inr es)
    let ?s1 = "s\<lparr>fd_last := Some (fd_mono s), fd_norm := n1\<rparr>"
    have "fd_norm (consume_frame nz raw s) = n1 \<and> fd_instruments (consume_frame nz raw s) = fd_instruments s"
      using publish_events_fields(1,2) [of es ?s1]
      by (cases "publish_events es ?s1") (auto simp: consume_frame_def nz Inr split: sum.splits)
    with Frame show ?thesis by (simp add: nz Inr)
  qed (simp add: Frame nz consume_frame_def)
qed (use assms in \<open>auto simp: feed_stop_def call_disconnect_def feed_connected_def\<close>)

lemma over_stays:
  fixes nz :: "('n, 'p) normalizer" and s :: "'n feed"
  assumes "feed_over s" and "\<not> is_run m"
  shows "feed_over (feed_do nz m s)" and "taken nz (m # ms) s = taken nz ms (feed_do nz m s)"
  using assms by (cases m; auto simp: feed_over_def feed_stop_def call_disconnect_def)+

lemma history_market:
  assumes "list_all (\<lambda>m. \<not> is_run m) ms"
  shows "\<exists>rest. market_sent (fd_sent s) @ market (feed_output nz (instrument_lookup s) (taken nz ms s) (fd_norm s)) =
      market_sent (fd_sent (fold (feed_do nz) ms s)) @ rest \<and>
    (rest \<noteq> [] \<longrightarrow> feed_over (fold (feed_do nz) ms s))"
proof -
  have over: "taken nz ms s = [] \<and> feed_over (fold (feed_do nz) ms s)"
    if "feed_over s" "list_all (\<lambda>m. \<not> is_run m) ms" for ms s
    using that
  proof (induction ms arbitrary: s)
    case (Cons m ms)
    with over_stays [of s m nz] show ?case by simp
  qed simp
  show ?thesis using assms
  proof (induction ms arbitrary: s)
    case (Cons m ms)
    let ?s1 = "feed_do nz m s"
    let ?now = "case m of Frame raw \<Rightarrow> if fd_phase s = Consuming then [raw] else [] | _ \<Rightarrow> []"
    from Cons.prems have m: "\<not> is_run m" and ms: "list_all (\<lambda>m. \<not> is_run m) ms" by simp_all
    obtain r1 where r1: "market_sent (fd_sent s) @ market (feed_output nz (instrument_lookup s) ?now (fd_norm s)) =
        market_sent (fd_sent ?s1) @ r1" "r1 \<noteq> [] \<longrightarrow> feed_over ?s1"
      using move_market [OF m, of s nz] by blast
    have lk: "instrument_lookup ?s1 = instrument_lookup s"
      using move_norm [OF m, of nz s] by (simp add: instrument_lookup_def fun_eq_iff)
    obtain r2 where r2: "market_sent (fd_sent ?s1) @ market (feed_output nz (instrument_lookup s) (taken nz ms ?s1) (fd_norm ?s1)) =
        market_sent (fd_sent (fold (feed_do nz) ms ?s1)) @ r2" "r2 \<noteq> [] \<longrightarrow> feed_over (fold (feed_do nz) ms ?s1)"
      using Cons.IH [OF ms, of ?s1] unfolding lk by blast
    have split: "feed_output nz (instrument_lookup s) (taken nz (m # ms) s) (fd_norm s) =
        feed_output nz (instrument_lookup s) ?now (fd_norm s) @
        feed_output nz (instrument_lookup s) (taken nz ms ?s1) (fd_norm ?s1)"
      using move_norm [OF m, of nz s "taken nz ms ?s1"] by simp
    show ?case
    proof (cases "r1 = []")
      case True
      with r1 r2 show ?thesis unfolding split
        by (intro exI [of _ r2]) (simp flip: append_assoc)
    next
      case False
      with r1(2) over [OF _ ms, of ?s1] have o: "taken nz ms ?s1 = []" "feed_over (fold (feed_do nz) ms ?s1)" by simp_all
      with r2(1) have "market_sent (fd_sent ?s1) = market_sent (fd_sent (fold (feed_do nz) ms ?s1)) @ r2" by simp
      with r1(1) o show ?thesis unfolding split by (intro exI [of _ "r2 @ r1"]) simp
    qed
  qed simp
qed

text \<open>
  C32: The bus gets what the frames say. Over every history of one run, with reconnections, stale
  feeds and frames that cannot be read, the market data the handler has published is what the
  normalizer makes of the frames taken from the stream, in their order, nothing twice and nothing
  left out; only a run that has ended with an exception can lack the end of it.
\<close>

theorem feed_publishes_frames:
  fixes nz :: "('n, 'p) normalizer" and bus now mono_ns instruments src cfg and n :: 'n
  assumes "list_all (\<lambda>m. \<not> is_run m) ms"
  defines "s \<equiv> feed_do nz CallRun (feed_init n bus now mono_ns instruments src cfg)"
  shows "\<exists>rest. market (feed_output nz (instrument_lookup s) (taken nz ms s) n) =
      market_sent (fd_sent (fold (feed_do nz) ms s)) @ rest \<and>
    (feed_over (fold (feed_do nz) ms s) \<or> rest = [])"
proof -
  have "fd_norm s = n" "fd_sent s = []" by (simp_all add: s_def feed_run_def feed_init_def)
  with history_market [OF assms(1), of s nz] show ?thesis by auto
qed

definition echo :: "(unit, event) normalizer" where
  "echo raw lk n = (n, Inr [rm_payload raw])"

definition sample_quote :: event where
  "sample_quote =
     EvTick \<lparr>ts_event = 0, ts_ingest = 0, source = ''binance'',
       tk_instrument = \<lparr>i_symbol = ''BTCUSDT'', i_exchange = ''BINANCE'', i_asset_type = AT_SPOT,
         i_base = ''BTC'', i_quote = ''USDT'', i_tick_size = 1, i_lot_size = 1, i_min_notional = None, i_multiplier = 1\<rparr>,
       tk_bid_price = 99, tk_bid_size = 1, tk_ask_price = 101, tk_ask_size = 1\<rparr>"

definition sample_raw :: "event raw_message" where
  "sample_raw = \<lparr>rm_payload = sample_quote, rm_ts_ingest = 0, rm_source = []\<rparr>"

theorem feed_publishes_frames_witness:
  "\<exists>rest. [sample_quote] =
     market_sent (fd_sent (fold (feed_do echo) [Connected, Frame sample_raw] (feed_do echo CallRun sample_feed))) @ rest"
proof -
  have "list_all (\<lambda>m. \<not> is_run m) [Connected, Frame sample_raw]" by simp
  from feed_publishes_frames [OF this, of echo "()" "sample_bus 2 0" 0 0 "[]" "''binance''"
      "Some (feed_config_default\<lparr>fc_stale_seconds := 60, fc_max_attempts := 2\<rparr>)"]
  show ?thesis
    by (simp add: sample_feed_def feed_init_def feed_run_def feed_connected_def echo_def sample_raw_def
        sample_quote_def topic_for_def) blast
qed

subsection \<open>What the handler does not survive\<close>

lemma failed_watch_stays:
  fixes nz :: "('n, 'p) normalizer" and s :: "'n feed"
  assumes "fd_watch s = WatchFailed e" and "fd_running s"
  shows "fd_watch (feed_do nz m s) = WatchFailed e \<and> fd_running (feed_do nz m s)"
proof -
  have fin: "fd_watch (finish x t) = WatchFailed e \<and> fd_running (finish x t)"
    if "fd_watch t = WatchFailed e" "fd_running t" for x and t :: "'n feed"
    using that by (simp add: finish_def cleanup_def call_disconnect_def)
  have lost: "fd_watch (feed_disconnected s) = WatchFailed e \<and> fd_running (feed_disconnected s)"
  proof -
    let ?s1 = "s\<lparr>fd_attempt := fd_attempt s + 1\<rparr>"
    obtain s2 q where p: "publish_circuit_breaker_alert ?s1 = (s2, q)" by force
    then have "s2 = fst (publish_circuit_breaker_alert ?s1)" by simp
    with assms have "fd_watch s2 = WatchFailed e" "fd_running s2"
      by (simp_all add: publish_circuit_breaker_alert_def)
    with fin [of s2] fin [of s] assms p show ?thesis
      by (cases q) (auto simp: feed_disconnected_def Let_def)
  qed
  have frame: "fd_watch (consume_frame nz raw s) = WatchFailed e \<and> fd_running (consume_frame nz raw s)" for raw
  proof (cases "nz raw (instrument_lookup s) (fd_norm s)")
    case (Pair n1 r)
    show ?thesis
    proof (cases r)
      case (Inr es)
      let ?s1 = "s\<lparr>fd_last := Some (fd_mono s), fd_norm := n1\<rparr>"
      obtain s2 q where p: "publish_events es ?s1 = (s2, q)" by force
      with publish_events_fields(4,5) [of es ?s1] assms have "fd_watch s2 = WatchFailed e" "fd_running s2" by simp_all
      with fin [of s2] show ?thesis by (cases q) (simp_all add: consume_frame_def Pair Inr p)
    qed (use assms in \<open>simp add: consume_frame_def Pair\<close>)
  qed
  have "fd_watch (next_round s) = WatchFailed e \<and> fd_running (next_round s)"
    using assms by (simp add: next_round_def loop_head_def cleanup_def call_disconnect_def)
  with assms fin lost frame show ?thesis
    by (cases m) (auto simp: feed_run_def feed_stop_def call_disconnect_def feed_connected_def)
qed

text \<open>
  C33: A watchdog that fails cannot be replaced. When the bus refuses the alert for a stale feed,
  because one queue of its topic is full, the connection is not closed, the watchdog is gone, and the
  handler counts as running for ever: whatever happens afterwards, the end of the run included, a
  new run is refused.
\<close>

theorem watchdog_failure_wedges:
  fixes nz :: "('n, 'p) normalizer" and s :: "'n feed"
  assumes "fd_running s" and "fd_watch s = Watching" and "fd_last s = Some l"
    and "stale_threshold_ns (fd_cfg s) < fd_mono s - l" and "snd (publish_stale_feed_alert s) = Inl e"
  defines "s1 \<equiv> feed_do nz WatchdogWakes s"
  shows "fd_disconnects s1 = fd_disconnects s \<and>
    snd (feed_run (fold (feed_do nz) ms s1)) = Inl RuntimeError \<and> fd_watch (fold (feed_do nz) ms s1) = WatchFailed e"
proof -
  obtain s2 where s2: "publish_stale_feed_alert s = (s2, Inl e)"
    using assms(5) by (metis prod.collapse)
  then have "fd_disconnects s2 = fd_disconnects s \<and> fd_running s2 = fd_running s"
    by (auto simp: publish_stale_feed_alert_def feed_publish_def split: prod.splits sum.splits)
  with s2 assms(1-4) have s1: "fd_disconnects s1 = fd_disconnects s" "fd_watch s1 = WatchFailed e" "fd_running s1"
    by (simp_all add: s1_def watchdog_wakes_def watchdog_body_def)
  have "fd_watch t = WatchFailed e \<Longrightarrow> fd_running t \<Longrightarrow>
      fd_watch (fold (feed_do nz) ms t) = WatchFailed e \<and> fd_running (fold (feed_do nz) ms t)" for t
    by (induction ms arbitrary: t) (simp_all add: failed_watch_stays)
  with s1 show ?thesis by (simp add: feed_run_def)
qed

definition sample_stuck :: "unit feed" where
  "sample_stuck =
     feed_init () \<lparr>ab_queue_size = 0,
         ab_subscribers = [(ALERTS, [\<lparr>sb_name = ''risk'', sb_queue = [], sb_task = True\<rparr>])],
         ab_running = True, ab_stopped = False\<rparr> 0 0 [] ''binance''
       (Some (feed_config_default\<lparr>fc_stale_seconds := 60\<rparr>))"

theorem watchdog_failure_wedges_witness:
  "snd (feed_run (fold (feed_do echo) [StreamCrashed RuntimeError]
     (feed_do echo WatchdogWakes (fold (feed_do echo) [CallRun, Connected, Elapse 1 90000000000] sample_stuck)))) =
   Inl RuntimeError"
proof -
  let ?s = "fold (feed_do echo) [CallRun, Connected, Elapse 1 90000000000] sample_stuck"
  have s: "fd_running ?s" "fd_watch ?s = Watching" "fd_last ?s = Some 0"
    "stale_threshold_ns (fd_cfg ?s) < fd_mono ?s - 0" "snd (publish_stale_feed_alert ?s) = Inl Backpressure"
    by (simp_all add: sample_stuck_def feed_init_def feed_run_def feed_connected_def feed_config_default_def
        stale_threshold_ns_def seconds_to_ns_60 publish_stale_feed_alert_def feed_publish_def publish_def)
  from watchdog_failure_wedges [OF s, of echo "[StreamCrashed RuntimeError]"] show ?thesis by simp
qed

lemma frame_consuming:
  "fd_phase s = Consuming \<Longrightarrow> feed_over (consume_frame nz raw s) \<or> fd_phase (consume_frame nz raw s) = Consuming"
proof (cases "nz raw (instrument_lookup s) (fd_norm s)")
  case (Pair n1 r)
  assume c: "fd_phase s = Consuming"
  show ?thesis
  proof (cases r)
    case (Inr es)
    obtain s2 q where p: "publish_events es (s\<lparr>fd_last := Some (fd_mono s), fd_norm := n1\<rparr>) = (s2, q)" by force
    from p c publish_events_fields(3) [of es "s\<lparr>fd_last := Some (fd_mono s), fd_norm := n1\<rparr>"]
    have "fd_phase s2 = Consuming" by simp
    with finish_phase [of "Some _" s2] p show ?thesis
      by (cases q) (fastforce simp: consume_frame_def Pair Inr feed_over_def)+
  qed (simp add: consume_frame_def Pair c)
qed

lemma frames_consuming:
  "fd_phase s = Consuming \<Longrightarrow> feed_over (fold (feed_do nz) (map Frame raws) s) \<or>
    fd_phase (fold (feed_do nz) (map Frame raws) s) = Consuming \<and> taken nz (map Frame raws) s = raws"
proof (induction raws arbitrary: s)
  case (Cons raw raws)
  have over: "feed_over t \<Longrightarrow> feed_over (fold (feed_do nz) (map Frame raws) t)" for t
    by (induction raws arbitrary: t) (auto simp: feed_over_def)
  from frame_consuming [OF Cons.prems, of nz raw] show ?case
  proof
    assume "feed_over (consume_frame nz raw s)"
    with over Cons.prems show ?thesis by simp
  next
    assume "fd_phase (consume_frame nz raw s) = Consuming"
    from Cons.IH [OF this] Cons.prems show ?thesis by simp
  qed
qed simp

lemma frames_keep:
  "fd_stopping (fold (feed_do nz) (map Frame raws) s) = fd_stopping s"
proof (induction raws arbitrary: s)
  case (Cons raw raws)
  obtain n1 r where nz: "nz raw (instrument_lookup s) (fd_norm s) = (n1, r)" by force
  have "fd_stopping (consume_frame nz raw s) = fd_stopping s"
  proof (cases r)
    case (Inr es)
    obtain s2 q where p: "publish_events es (s\<lparr>fd_last := Some (fd_mono s), fd_norm := n1\<rparr>) = (s2, q)" by force
    with publish_events_fields(6) [of es "s\<lparr>fd_last := Some (fd_mono s), fd_norm := n1\<rparr>"]
    have "fd_stopping s2 = fd_stopping s" by simp
    with p show ?thesis by (cases q) (simp_all add: consume_frame_def nz Inr)
  qed (simp add: consume_frame_def nz)
  with Cons show ?case by simp
qed simp

text \<open>
  C34: A stop during the connection is lost. The loop looks at the stop flag only between two rounds,
  so when \<open>stop\<close> is called while the connection is being made and the connection then succeeds, the
  handler goes on to publish every frame for as long as the venue sends them, and its watchdog ends
  at its next turn.
\<close>

theorem stop_during_connect_lost:
  fixes nz :: "('n, 'p) normalizer" and s :: "'n feed" and raws :: "'p raw_message list"
  assumes "fd_phase s = Connecting" and "fd_watch s = Watching"
  defines "s1 \<equiv> fold (feed_do nz) [CallStop, Connected, WatchdogWakes] s"
    and "s2 \<equiv> fold (feed_do nz) (map Frame raws) (fold (feed_do nz) [CallStop, Connected, WatchdogWakes] s)"
  shows "fd_watch s1 \<noteq> Watching \<and> fd_stopping s2 \<and>
    (feed_over s2 \<or> fd_phase s2 = Consuming \<and>
       market_sent (fd_sent s2) = market_sent (fd_sent s) @ market (feed_output nz (instrument_lookup s) raws (fd_norm s)))"
proof -
  have w: "fd_watch (watchdog_wakes t) \<noteq> Watching" if "fd_stopping t" for t :: "'n feed"
  proof -
    have "fd_stopping (fst (watchdog_body t)) = fd_stopping t"
      by (auto simp: watchdog_body_def publish_stale_feed_alert_def feed_publish_def call_disconnect_def
          split: option.splits prod.splits sum.splits)
    with that show ?thesis by (auto simp: watchdog_wakes_def split: prod.splits sum.splits)
  qed
  have s1: "fd_phase s1 = Consuming" "fd_stopping s1" "market_sent (fd_sent s1) = market_sent (fd_sent s)"
    "fd_norm s1 = fd_norm s" "instrument_lookup s1 = instrument_lookup s" "fd_watch s1 \<noteq> Watching"
    using assms(1,2) w
    by (simp_all add: s1_def feed_stop_def call_disconnect_def feed_connected_def instrument_lookup_def fun_eq_iff)
  have "list_all (\<lambda>m. \<not> is_run m) (map Frame raws :: 'p feed_move list)" by (simp add: list_all_iff)
  from history_market [OF this, of s1 nz] frames_consuming [OF s1(1), of nz raws]
  show ?thesis using s1 frames_keep [of nz raws s1] unfolding s2_def s1_def [symmetric] by fastforce
qed

theorem stop_during_connect_lost_witness:
  "fd_phase (fold (feed_do echo) (map Frame [sample_raw, sample_raw])
     (fold (feed_do echo) [CallStop, Connected, WatchdogWakes] (feed_do echo CallRun sample_feed))) = Consuming"
proof -
  let ?s = "feed_do echo CallRun sample_feed"
  have s: "fd_phase ?s = Connecting" "fd_watch ?s = Watching"
    by (simp_all add: sample_feed_def feed_init_def feed_run_def)
  have "\<not> feed_over (fold (feed_do echo) (map Frame [sample_raw, sample_raw])
      (fold (feed_do echo) [CallStop, Connected, WatchdogWakes] ?s))"
    by (simp add: sample_feed_def feed_init_def feed_run_def feed_stop_def call_disconnect_def feed_connected_def
        feed_config_default_def watchdog_wakes_def watchdog_body_def stale_threshold_ns_def seconds_to_ns_60
        consume_frame_def echo_def sample_raw_def sample_quote_def topic_for_def feed_publish_def publish_def
        sample_bus_def feed_over_def Let_def)
  with stop_during_connect_lost [OF s, of echo "[sample_raw, sample_raw]"] show ?thesis by blast
qed

end
