(* ===== verification/Normalizers.thy ===== *)
theory Normalizers
  imports Feed_Properties Json Depth_Book
begin

text \<open>
  \<open>feed_handler/normalizers/\<close>: how frames of the venue become events, for trades and best quotes
  without state and for the depth stream on top of one depth book per symbol; the polled depth
  snapshots of \<open>order_gateways/binance/l2_feed.py\<close>. What a normalizer raises is skipped by the feed
  handler, so only that it raises matters. A depth frame is read when it arrives; the code keeps the
  frames it buffers unread, which makes no difference for frames that can be read.
\<close>

subsection \<open>Reading values\<close>

text \<open>\<open>Decimal(x)\<close>\<close>

fun dec_ctor :: "json \<Rightarrow> py_error + dec" where
  "dec_ctor (JStr s) = (case dec_of_string s of None \<Rightarrow> Inl InvalidOperation | Some d \<Rightarrow> Inr d)"
| "dec_ctor (JInt n) = Inr (of_int n)"
| "dec_ctor (JBool b) = Inr (if b then 1 else 0)"
| "dec_ctor _ = Inl TypeError"

definition ms_to_ns :: "int \<Rightarrow> timestamp" where
  "ms_to_ns ms = ms * 1000000"

definition has_keys :: "string list \<Rightarrow> jobj \<Rightarrow> bool" where
  "has_keys ks m = list_all (\<lambda>k. dget m k \<noteq> None) ks"

text \<open>The message in a frame: what a combined stream has under \<open>data\<close>, or the frame itself.\<close>

definition unwrap :: "json \<Rightarrow> jobj option" where
  "unwrap payload =
     (case payload of
        JObj m \<Rightarrow>
          if has_keys [''data'', ''stream''] m
          then (case jget JNull ''data'' m of JObj m2 \<Rightarrow> Some m2 | _ \<Rightarrow> None)
          else Some m
      | _ \<Rightarrow> None)"

text \<open>\<open>instrument_lookup(msg["s"])\<close>: a key that is not a text is no symbol.\<close>

definition find_instrument :: "lookup \<Rightarrow> jobj \<Rightarrow> py_error + instrument" where
  "find_instrument lk m =
     sum_bind (jitem ''s'' m) (\<lambda>j. case j of JStr symbol \<Rightarrow> lk symbol | JArr _ \<Rightarrow> Inl TypeError | JObj _ \<Rightarrow> Inl TypeError
       | _ \<Rightarrow> Inl KeyError)"

subsection \<open>Trades and best quotes\<close>

text \<open>\<open>_handle_agg_trade\<close> and \<open>_handle_trade\<close> differ in the key of the trade's identifier.\<close>

definition handle_trade_frame :: "string \<Rightarrow> jobj \<Rightarrow> json raw_message \<Rightarrow> lookup \<Rightarrow> py_error + event list" where
  "handle_trade_frame id_key m raw lk =
     sum_bind (find_instrument lk m) (\<lambda>ins.
     sum_bind (sum_bind (jitem ''T'' m) py_int) (\<lambda>t.
     sum_bind (sum_bind (jitem ''p'' m) dec_ctor) (\<lambda>p.
     sum_bind (sum_bind (jitem ''q'' m) dec_ctor) (\<lambda>q.
       Inr [EvTrade \<lparr>ts_event = ms_to_ns t, ts_ingest = rm_ts_ingest raw, source = rm_source raw,
              tr_instrument = ins, tr_price = p, tr_quantity = q,
              tr_aggressor = Some (if truthy (jget JNull ''m'' m) then SELL else BUY),
              tr_venue_trade_id = Some (py_str (jget (JStr []) id_key m))\<rparr>]))))"

definition handle_agg_trade :: "jobj \<Rightarrow> json raw_message \<Rightarrow> lookup \<Rightarrow> py_error + event list" where
  "handle_agg_trade = handle_trade_frame ''a''"

definition handle_trade :: "jobj \<Rightarrow> json raw_message \<Rightarrow> lookup \<Rightarrow> py_error + event list" where
  "handle_trade = handle_trade_frame ''t''"

definition frame_time :: "jobj \<Rightarrow> json raw_message \<Rightarrow> py_error + timestamp" where
  "frame_time m raw =
     (case dget m ''E'' of
        None \<Rightarrow> Inr (rm_ts_ingest raw)
      | Some j \<Rightarrow> sum_bind (py_int j) (\<lambda>ms. Inr (ms_to_ns ms)))"

definition handle_book_ticker :: "jobj \<Rightarrow> json raw_message \<Rightarrow> lookup \<Rightarrow> py_error + event list" where
  "handle_book_ticker m raw lk =
     sum_bind (find_instrument lk m) (\<lambda>ins.
     sum_bind (frame_time m raw) (\<lambda>t.
     sum_bind (sum_bind (jitem ''b'' m) dec_ctor) (\<lambda>bp.
     sum_bind (sum_bind (jitem ''B'' m) dec_ctor) (\<lambda>bs.
     sum_bind (sum_bind (jitem ''a'' m) dec_ctor) (\<lambda>ap.
     sum_bind (sum_bind (jitem ''A'' m) dec_ctor) (\<lambda>asz.
       Inr [EvTick \<lparr>ts_event = t, ts_ingest = rm_ts_ingest raw, source = rm_source raw, tk_instrument = ins,
              tk_bid_price = bp, tk_bid_size = bs, tk_ask_price = ap, tk_ask_size = asz\<rparr>]))))))"

definition normalize_binance :: "(unit, json) normalizer" where
  "normalize_binance raw lk n =
     (n, case unwrap (rm_payload raw) of
           None \<Rightarrow> Inr []
         | Some m \<Rightarrow>
             (let kind = jget JNull ''e'' m
              in if kind = JStr ''aggTrade'' then handle_agg_trade m raw lk
                 else if kind = JStr ''trade'' then handle_trade m raw lk
                 else if kind = JStr ''bookTicker'' \<or>
                         kind = JNull \<and> has_keys [''s'', ''b'', ''B'', ''a'', ''A''] m
                 then handle_book_ticker m raw lk
                 else Inr []))"

subsection \<open>The depth stream\<close>

text \<open>\<open>for p, q in ...\<close> unpacks a pair from anything with two elements.\<close>

definition read_level :: "json \<Rightarrow> py_error + (dec \<times> dec)" where
  "read_level j =
     sum_bind (json_iter j) (\<lambda>xs.
       case xs of
         [p, q] \<Rightarrow> sum_bind (dec_ctor p) (\<lambda>p. sum_bind (dec_ctor q) (\<lambda>q. Inr (p, q)))
       | _ \<Rightarrow> Inl ValueError)"

definition read_levels :: "string \<Rightarrow> jobj \<Rightarrow> py_error + updates" where
  "read_levels k m = sum_bind (json_iter (jget (JArr []) k m)) (sum_map read_level)"

definition read_depth_frame :: "jobj \<Rightarrow> py_error + depth_event" where
  "read_depth_frame m =
     sum_bind (sum_bind (jitem ''u'' m) py_int) (\<lambda>u.
     sum_bind (sum_bind (jitem ''U'' m) py_int) (\<lambda>U.
     sum_bind (read_levels ''b'' m) (\<lambda>bids.
     sum_bind (read_levels ''a'' m) (\<lambda>asks.
       Inr \<lparr>de_first = U, de_last = u, de_bids = bids, de_asks = asks\<rparr>))))"

record depth_normalizer =
  dn_managers :: "(string, depth_book) dict"
  dn_needs_rebootstrap :: "string set"

definition depth_normalizer_init :: "(string, depth_book) dict \<Rightarrow> depth_normalizer" where
  "depth_normalizer_init managers = \<lparr>dn_managers = managers, dn_needs_rebootstrap = {}\<rparr>"

definition set_manager :: "string \<Rightarrow> depth_book \<Rightarrow> depth_normalizer \<Rightarrow> depth_normalizer" where
  "set_manager wire d n = n\<lparr>dn_managers := dset wire d (dn_managers n)\<rparr>"

text \<open>What a frame is for: the symbol and the message of a depth update of a known symbol.\<close>

definition depth_target :: "json \<Rightarrow> depth_normalizer \<Rightarrow> (string \<times> jobj \<times> depth_book) option" where
  "depth_target payload n =
     (case unwrap payload of
        None \<Rightarrow> None
      | Some m \<Rightarrow>
          if jget JNull ''e'' m \<noteq> JStr ''depthUpdate'' then None
          else case jget (JStr []) ''s'' m of
                 JStr wire \<Rightarrow> map_option (\<lambda>d. (wire, m, d)) (dget (dn_managers n) wire)
               | _ \<Rightarrow> None)"

definition normalize_depth :: "(depth_normalizer, json) normalizer" where
  "normalize_depth raw lk n =
     (case depth_target (rm_payload raw) n of
        None \<Rightarrow> (n, Inr [])
      | Some (wire, m, d) \<Rightarrow>
          (case read_depth_frame m of
             Inl e \<Rightarrow> (n, Inl e)
           | Inr f \<Rightarrow>
               (case apply_diff f d of
                  (d1, res) \<Rightarrow>
                    (let n1 = set_manager wire d1 n
                     in if \<not> l2_initialized (db_book d) then (n1, sum_bind res (\<lambda>_. Inr []))
                        else case res of
                               Inl SequenceGap \<Rightarrow>
                                 (n1\<lparr>dn_needs_rebootstrap := insert wire (dn_needs_rebootstrap n1)\<rparr>, Inr [])
                             | Inl e \<Rightarrow> (n1, Inl e)
                             | Inr _ \<Rightarrow>
                                 (n1, sum_bind (frame_time m raw) (\<lambda>t.
                                    Inr (case make_book_event t (rm_ts_ingest raw) (rm_source raw) 10 False (db_book d1) of
                                           None \<Rightarrow> [] | Some ev \<Rightarrow> [EvBook ev])))))))"

end
