(* ===== verification/Feed_Sources.thy ===== *)
theory Feed_Sources
  imports Normalizers Binance_Rest
begin

text \<open>
  Two sources of market data besides the web socket. \<open>feed_handler/connectors/simulated.py\<close>: the
  connector of tests and replays, a queue with a sentinel; a call of \<open>sim_next\<close> is one turn of the
  generator \<open>messages\<close>. \<open>order_gateways/binance/l2_feed.py\<close>: the task that polls depth snapshots over
  REST; the replies of the client are an argument, per symbol, and a round reads them one after the
  other, as the tasks of the round publish without waiting for each other.
\<close>

subsection \<open>The simulated connector\<close>

datatype 'p inbox_item = Item "'p raw_message" | Disconnect

record 'p sim_connector =
  sn_source :: string
  sn_inbox :: "'p inbox_item list"
  sn_connected :: bool

definition sim_connector_init :: "string \<Rightarrow> 'p sim_connector" where
  "sim_connector_init src = \<lparr>sn_source = src, sn_inbox = [], sn_connected = False\<rparr>"

definition sim_connect :: "'p sim_connector \<Rightarrow> 'p sim_connector" where
  "sim_connect c = (if sn_connected c then c else c\<lparr>sn_inbox := [], sn_connected := True\<rparr>)"

definition sim_disconnect :: "'p sim_connector \<Rightarrow> 'p sim_connector" where
  "sim_disconnect c =
     (if \<not> sn_connected c then c
      else c\<lparr>sn_connected := False, sn_inbox := sn_inbox c @ [Disconnect]\<rparr>)"

definition inject :: "'p \<Rightarrow> timestamp \<Rightarrow> 'p sim_connector \<Rightarrow> 'p sim_connector" where
  "inject payload now c =
     c\<lparr>sn_inbox := sn_inbox c @ [Item \<lparr>rm_payload = payload, rm_ts_ingest = now, rm_source = sn_source c\<rparr>]\<rparr>"

definition inject_raw :: "'p raw_message \<Rightarrow> 'p sim_connector \<Rightarrow> 'p sim_connector" where
  "inject_raw raw c = c\<lparr>sn_inbox := sn_inbox c @ [Item raw]\<rparr>"

definition inject_disconnect :: "'p sim_connector \<Rightarrow> 'p sim_connector" where
  "inject_disconnect c = c\<lparr>sn_inbox := sn_inbox c @ [Disconnect]\<rparr>"

text \<open>
  What a turn of \<open>messages\<close> comes to, as a move of the feed handler; \<open>None\<close> while it waits. A first
  turn on a closed connector raises; a later one, parked in \<open>get\<close> or back from its \<open>yield\<close>, is told
  apart by the flag \<open>parked\<close>: the loop's condition is only tested behind a \<open>yield\<close>.
\<close>

datatype turn = FirstTurn | Parked | Yielded

definition sim_take :: "'p sim_connector \<Rightarrow> 'p sim_connector \<times> 'p feed_move option" where
  "sim_take c =
     (case sn_inbox c of
        [] \<Rightarrow> (c, None)
      | Disconnect # q \<Rightarrow> (c\<lparr>sn_inbox := q, sn_connected := False\<rparr>, Some StreamLost)
      | Item raw # q \<Rightarrow> (c\<lparr>sn_inbox := q\<rparr>, Some (Frame raw)))"

definition sim_next :: "turn \<Rightarrow> 'p sim_connector \<Rightarrow> 'p sim_connector \<times> 'p feed_move option" where
  "sim_next t c =
     (case t of
        FirstTurn \<Rightarrow> if sn_connected c then sim_take c else (c, Some StreamLost)
      | Parked \<Rightarrow> sim_take c
      | Yielded \<Rightarrow> if sn_connected c then sim_take c else (c, Some StreamEnded))"

text \<open>
  A disconnect wakes a reader that waits on an empty queue with \<open>FeedDisconnectedError\<close>; a reader
  that has just been given a frame finds the connector closed and its stream ends without one.
\<close>

lemma disconnect_wakes:
  assumes "sn_connected c" and "sn_inbox c = []"
  shows "snd (sim_next Parked (sim_disconnect c)) = Some StreamLost"
    and "snd (sim_next Yielded (sim_disconnect (inject_raw raw c))) = Some StreamEnded"
  using assms by (simp_all add: sim_next_def sim_take_def sim_disconnect_def inject_raw_def)

lemma connect_forgets: "\<not> sn_connected c \<Longrightarrow> sim_next FirstTurn (sim_connect c) = (sim_connect c, None)"
  by (simp add: sim_next_def sim_take_def sim_connect_def)

subsection \<open>Polled depth snapshots\<close>

record l2_feed =
  lf_bus :: async_bus
  lf_now :: timestamp
  lf_instruments :: "(string, instrument) dict"
  lf_polling :: bool
  lf_sent :: "(topic \<times> event) list"

definition l2_feed_init :: "async_bus \<Rightarrow> timestamp \<Rightarrow> (string \<times> instrument) list \<Rightarrow> l2_feed" where
  "l2_feed_init bus now instruments =
     \<lparr>lf_bus = bus, lf_now = now, lf_instruments = fold (\<lambda>(w, i). dset w i) instruments [],
      lf_polling = False, lf_sent = []\<rparr>"

definition l2_start :: "l2_feed \<Rightarrow> l2_feed" where
  "l2_start s = s\<lparr>lf_polling := True\<rparr>"

definition l2_stop :: "l2_feed \<Rightarrow> l2_feed" where
  "l2_stop s = s\<lparr>lf_polling := False\<rparr>"

definition poll_time :: "jobj \<Rightarrow> timestamp \<Rightarrow> py_error + timestamp" where
  "poll_time data now_ns =
     (let t = jget JNull ''T'' data; e = (if truthy t then t else jget JNull ''E'' data)
      in if truthy e then sum_bind (py_int e) (\<lambda>ms. Inr (ms * 1000000)) else Inr now_ns)"

definition poll_levels :: "string \<Rightarrow> jobj \<Rightarrow> py_error + book_level list" where
  "poll_levels k data =
     sum_bind (json_iter (jget (JArr []) k data)) (sum_map (\<lambda>j.
       sum_bind (read_level j) (\<lambda>(p, q). Inr \<lparr>lv_price = p, lv_quantity = q\<rparr>)))"

text \<open>The event of a reply, if it has one.\<close>

definition poll_event :: "instrument \<Rightarrow> jobj \<Rightarrow> timestamp \<Rightarrow> py_error + order_book_event option" where
  "poll_event ins data now_ns =
     sum_bind (poll_time data now_ns) (\<lambda>t.
     sum_bind (py_int (jget (JInt 0) ''lastUpdateId'' data)) (\<lambda>sq.
     sum_bind (poll_levels ''bids'' data) (\<lambda>bids.
     sum_bind (poll_levels ''asks'' data) (\<lambda>asks.
       Inr (if bids = [] \<and> asks = [] then None
            else Some \<lparr>ts_event = t, ts_ingest = now_ns, source = ''binance-l2'', ob_instrument = ins,
                   ob_bids = bids, ob_asks = asks, ob_sequence = sq, ob_is_snapshot = True\<rparr>)))))"

definition poll_instrument :: "venue_exn + json \<Rightarrow> instrument \<Rightarrow> l2_feed \<Rightarrow> l2_feed \<times> (py_error + unit)" where
  "poll_instrument reply ins s =
     (case reply of
        Inl _ \<Rightarrow> (s, Inr ())
      | Inr (JObj data) \<Rightarrow>
          (case poll_event ins data (lf_now s) of
             Inl e \<Rightarrow> (s, Inl e)
           | Inr None \<Rightarrow> (s, Inr ())
           | Inr (Some ev) \<Rightarrow>
               (case publish MARKET_DATA (EvBook ev) (lf_bus s) of
                  (b, Inl _) \<Rightarrow> (s\<lparr>lf_bus := b\<rparr>, Inr ())
                | (b, Inr _) \<Rightarrow> (s\<lparr>lf_bus := b, lf_sent := lf_sent s @ [(MARKET_DATA, EvBook ev)]\<rparr>, Inr ())))
      | Inr _ \<Rightarrow> (s, Inl AttributeError))"

text \<open>
  One round: \<open>gather\<close> lets every task run and hands on the first exception, which leaves the loop
  and ends the polling task.
\<close>

primrec poll_all :: "(string \<Rightarrow> venue_exn + json) \<Rightarrow> (string \<times> instrument) list \<Rightarrow> l2_feed \<Rightarrow> l2_feed \<times> bool" where
  "poll_all replies [] s = (s, True)"
| "poll_all replies (x # xs) s =
     (case poll_instrument (replies (fst x)) (snd x) s of
        (s1, r) \<Rightarrow> (case poll_all replies xs s1 of (s2, fine) \<Rightarrow> (s2, r = Inr () \<and> fine)))"

definition poll_round :: "(string \<Rightarrow> venue_exn + json) \<Rightarrow> l2_feed \<Rightarrow> l2_feed" where
  "poll_round replies s =
     (if \<not> lf_polling s then s
      else case poll_all replies (lf_instruments s) s of
             (s1, fine) \<Rightarrow> s1\<lparr>lf_polling := fine\<rparr>)"

lemma poll_keeps:
  "lf_instruments (fst (poll_all replies xs s)) = lf_instruments s \<and> lf_polling (fst (poll_all replies xs s)) = lf_polling s"
proof (induction xs arbitrary: s)
  case (Cons x xs)
  obtain s1 r where p: "poll_instrument (replies (fst x)) (snd x) s = (s1, r)" by force
  then have "lf_instruments s1 = lf_instruments s \<and> lf_polling s1 = lf_polling s"
    by (auto simp: poll_instrument_def split: sum.splits json.splits option.splits prod.splits)
  with Cons [of s1] p show ?case by (cases "poll_all replies xs s1") simp
qed simp

lemma poll_broken:
  assumes "x \<in> set xs" and "\<And>t. snd (poll_instrument (replies (fst x)) (snd x) t) \<noteq> Inr ()"
  shows "\<not> snd (poll_all replies xs s)"
  using assms(1)
proof (induction xs arbitrary: s)
  case (Cons y xs)
  obtain s1 r where p: "poll_instrument (replies (fst y)) (snd y) s = (s1, r)" by force
  show ?case
  proof (cases "y = x")
    case True
    with assms(2) [of s] p show ?thesis by (cases "poll_all replies xs s1") simp
  next
    case False
    with Cons have "\<not> snd (poll_all replies xs s1)" by simp
    with p show ?thesis by (cases "poll_all replies xs s1") simp
  qed
qed simp

lemma stopped_rounds: "\<not> lf_polling s \<Longrightarrow> fold poll_round rounds s = s"
  by (induction rounds) (simp_all add: poll_round_def)

text \<open>
  A reply that cannot be read ends the depth feed of all symbols. Errors of the request are skipped,
  but the reply is parsed outside of the \<open>try\<close>: after one reply that is a list instead of an object
  no later round publishes anything for any symbol.
\<close>

theorem unreadable_reply_stops_polling:
  assumes "lf_polling s" and "(wire, ins) \<in> set (lf_instruments s)" and "replies wire = Inr (JArr xs)"
  shows "lf_sent (fold poll_round (replies # later) s) = lf_sent (poll_round replies s) \<and>
    \<not> lf_polling (fold poll_round (replies # later) s)"
proof -
  have "snd (poll_instrument (replies wire) ins t) \<noteq> Inr ()" for t
    using assms(3) by (simp add: poll_instrument_def)
  with poll_broken [OF assms(2), of replies s] have "\<not> snd (poll_all replies (lf_instruments s) s)" by simp
  then have "\<not> lf_polling (poll_round replies s)"
    using assms(1) by (cases "poll_all replies (lf_instruments s) s") (simp add: poll_round_def)
  with stopped_rounds show ?thesis by simp
qed

end
