(* ===== verification/Replay.thy ===== *)
theory Replay
  imports Backtest_Properties Position_Engine
begin

text \<open>
  \<open>backtest/engine.py\<close> and \<open>backtest/data_source.py\<close>: the replay of recorded market data against the
  backtest venue. \<open>settle\<close> lets the event loop run: the consumers of the bus work off their queues.
  Which of them exist (strategies, risk, OMS) is not the engine's business, so what they do in one
  settling is an argument of the model, the function \<open>env\<close>: from the time, the bus, the position
  engine and their own state to their new states and to the events that reach the venue, which the
  venue's own handlers then process. The three \<open>while\<close> loops need not end, so they are partial
  functions to \<open>option\<close>. \<open>rp_log\<close> records with the time of the clock what is put on the bus.
\<close>

subsection \<open>Data sources\<close>

definition event_ts :: "event \<Rightarrow> timestamp" where
  "event_ts e =
     (case e of
        EvTick x \<Rightarrow> ts_event x | EvTrade x \<Rightarrow> ts_event x | EvBook x \<Rightarrow> ts_event x | EvSignal x \<Rightarrow> ts_event x
      | EvDecision x \<Rightarrow> ts_event x | EvRiskAlert x \<Rightarrow> ts_event x | EvKillSwitch x \<Rightarrow> ts_event x
      | EvOrderRequest x \<Rightarrow> ts_event x | EvRouted x \<Rightarrow> ts_event x | EvCancelRequest x \<Rightarrow> ts_event x
      | EvAmendRequest x \<Rightarrow> ts_event x | EvAck x \<Rightarrow> ts_event x | EvRejected x \<Rightarrow> ts_event x
      | EvCancelled x \<Rightarrow> ts_event x | EvCancelRejected x \<Rightarrow> ts_event x | EvAmendRejected x \<Rightarrow> ts_event x
      | EvAmended x \<Rightarrow> ts_event x | EvFill x \<Rightarrow> ts_event x | EvPosition x \<Rightarrow> ts_event x
      | EvPnL x \<Rightarrow> ts_event x | EvOpenOrders x \<Rightarrow> ts_event x | EvMicrostructure x \<Rightarrow> ts_event x
      | EvAccount x \<Rightarrow> ts_event x | EvVenuePositions x \<Rightarrow> ts_event x
      | EvFunding x \<Rightarrow> ts_event x | EvDiagnostics x \<Rightarrow> ts_event x)"

fun in_time_order :: "event list \<Rightarrow> bool" where
  "in_time_order (e # f # es) = (event_ts e \<le> event_ts f \<and> in_time_order (f # es))"
| "in_time_order _ = True"

definition in_memory_source :: "event list \<Rightarrow> py_error + event list" where
  "in_memory_source es = (if in_time_order es then Inr es else Inl ValueError)"

definition data_topic :: "event \<Rightarrow> topic option" where
  "data_topic e =
     (case e of EvTick _ \<Rightarrow> Some MARKET_DATA | EvTrade _ \<Rightarrow> Some MARKET_DATA | EvBook _ \<Rightarrow> Some MARKET_DATA
      | EvFunding _ \<Rightarrow> Some MARKET_DATA | _ \<Rightarrow> None)"

subsection \<open>The engine\<close>

record replay_config =
  rc_snapshot_seconds :: rat
  rc_settle_iterations :: int
  rc_initial_equity :: rat

datatype published = FromData event | FromVenue timestamp event

record 'w replay =
  rp_clock :: sim_clock
  rp_venue :: backtest_gateway
  rp_positions :: position_engine
  rp_world :: 'w
  rp_last_snapshot :: timestamp
  rp_interval :: int
  rp_log :: "(timestamp \<times> published) list"

type_synonym 'w env =
  "timestamp \<Rightarrow> async_bus \<Rightarrow> position_engine \<Rightarrow> 'w \<Rightarrow> venue_input list \<times> async_bus \<times> position_engine \<times> 'w"

type_synonym 'w replay_result = "'w replay \<times> (py_error + unit)"

definition replay_init ::
    "sim_clock \<Rightarrow> backtest_gateway \<Rightarrow> position_engine \<Rightarrow> 'w \<Rightarrow> replay_config \<Rightarrow> 'w replay" where
  "replay_init clk venue positions w cfg =
     \<lparr>rp_clock = clk, rp_venue = venue, rp_positions = positions, rp_world = w, rp_last_snapshot = 0,
      rp_interval = seconds_to_ns (rc_snapshot_seconds cfg), rp_log = []\<rparr>"

definition rp_now :: "'w replay \<Rightarrow> timestamp" where
  "rp_now s = ck_now (rp_clock s)"

definition settle_bus :: "'w env \<Rightarrow> 'w replay \<Rightarrow> 'w replay" where
  "settle_bus env s =
     (case env (rp_now s) (bg_bus (rp_venue s)) (rp_positions s) (rp_world s) of
        (inputs, b, pe, w) \<Rightarrow>
          s\<lparr>rp_venue := fold (\<lambda>x g. fst (bt_input x g)) inputs ((rp_venue s)\<lparr>bg_bus := b\<rparr>),
            rp_positions := pe, rp_world := w\<rparr>)"

text \<open>Setting the clock that venue and position engine share with the engine.\<close>

definition set_clock :: "timestamp \<Rightarrow> 'w replay \<Rightarrow> 'w replay_result" where
  "set_clock t s =
     (case set_time (rp_clock s) t of
        Inl e \<Rightarrow> (s, Inl e)
      | Inr c \<Rightarrow>
          (s\<lparr>rp_clock := c, rp_venue := (rp_venue s)\<lparr>bg_now := t\<rparr>,
             rp_positions := (rp_positions s)\<lparr>pe_now := t\<rparr>\<rparr>, Inr ()))"

definition publish_data :: "event \<Rightarrow> 'w replay \<Rightarrow> 'w replay_result" where
  "publish_data e s =
     (case publish MARKET_DATA e (bg_bus (rp_venue s)) of
        (b, Inl err) \<Rightarrow> (s\<lparr>rp_venue := (rp_venue s)\<lparr>bg_bus := b\<rparr>\<rparr>, Inl err)
      | (b, Inr _) \<Rightarrow>
          (s\<lparr>rp_venue := (rp_venue s)\<lparr>bg_bus := b\<rparr>, rp_log := rp_log s @ [(rp_now s, FromData e)]\<rparr>, Inr ()))"

definition drain_venue :: "'w replay \<Rightarrow> 'w replay \<times> (py_error + nat)" where
  "drain_venue s =
     (case drain_due (rp_venue s) of
        (g, r) \<Rightarrow>
          (s\<lparr>rp_venue := g,
             rp_log := rp_log s @ map (\<lambda>x. (rp_now s, FromVenue (sd_due x) (sd_event x)))
               (take (length (bg_schedule (rp_venue s)) - length (bg_schedule g)) (bg_schedule (rp_venue s)))\<rparr>, r))"

partial_function (option) drain_up_to :: "'w env \<Rightarrow> timestamp \<Rightarrow> 'w replay \<Rightarrow> 'w replay_result option" where
  "drain_up_to env target s =
     (case next_due_ns (rp_venue s) of
        None \<Rightarrow> Some (s, Inr ())
      | Some due \<Rightarrow>
          if target < due then Some (s, Inr ())
          else case set_clock due s of
                 (s1, Inl e) \<Rightarrow> Some (s1, Inl e)
               | (s1, Inr _) \<Rightarrow>
                   (case drain_venue s1 of
                      (s2, Inl e) \<Rightarrow> Some (s2, Inl e)
                    | (s2, Inr _) \<Rightarrow> drain_up_to env target (settle_bus env s2)))"

text \<open>\<open>while await drain_due() > 0\<close>\<close>

partial_function (option) drain_settled :: "'w env \<Rightarrow> 'w replay \<Rightarrow> 'w replay_result option" where
  "drain_settled env s =
     (case drain_venue s of
        (s1, Inl e) \<Rightarrow> Some (s1, Inl e)
      | (s1, Inr n) \<Rightarrow> if n = 0 then Some (s1, Inr ()) else drain_settled env (settle_bus env s1))"

partial_function (option) drain_remaining :: "'w env \<Rightarrow> 'w replay \<Rightarrow> 'w replay_result option" where
  "drain_remaining env s =
     (case next_due_ns (rp_venue s) of
        None \<Rightarrow> Some (s, Inr ())
      | Some due \<Rightarrow>
          (case (if rp_now s < due then set_clock due s else (s, Inr ())) of
             (s1, Inl e) \<Rightarrow> Some (s1, Inl e)
           | (s1, Inr _) \<Rightarrow>
               (case drain_venue s1 of
                  (s2, Inl e) \<Rightarrow> Some (s2, Inl e)
                | (s2, Inr _) \<Rightarrow> drain_remaining env (settle_bus env s2))))"

text \<open>The calls of the position engine, which publishes on the same bus.\<close>

definition call_positions :: "(position_engine \<Rightarrow> position_engine) \<Rightarrow> 'w replay \<Rightarrow> 'w replay" where
  "call_positions f s =
     (let pe = f ((rp_positions s)\<lparr>pe_bus := bg_bus (rp_venue s)\<rparr>)
      in s\<lparr>rp_positions := pe, rp_venue := (rp_venue s)\<lparr>bg_bus := pe_bus pe\<rparr>\<rparr>)"

definition mark_and_snapshot :: "'w env \<Rightarrow> 'w replay \<Rightarrow> 'w replay" where
  "mark_and_snapshot env s =
     settle_bus env (call_positions (publish_portfolio_snapshot None)
       (settle_bus env (call_positions mark_to_market_all s)))"

definition maybe_snapshot :: "'w env \<Rightarrow> 'w replay \<Rightarrow> 'w replay" where
  "maybe_snapshot env s =
     (if rp_now s - rp_last_snapshot s < rp_interval s then s
      else mark_and_snapshot env (s\<lparr>rp_last_snapshot := rp_now s\<rparr>))"

text \<open>The rest of an operation that may not return or may have raised.\<close>

definition go_on :: "'w replay_result option \<Rightarrow> ('w replay \<Rightarrow> 'w replay_result option) \<Rightarrow> 'w replay_result option" where
  "go_on m k = (case m of None \<Rightarrow> None | Some (s, Inl e) \<Rightarrow> Some (s, Inl e) | Some (s, Inr _) \<Rightarrow> k s)"

definition replay_event :: "'w env \<Rightarrow> event \<Rightarrow> 'w replay \<Rightarrow> 'w replay_result option" where
  "replay_event env e s =
     go_on (drain_up_to env (event_ts e) s) (\<lambda>s.
     go_on (Some (set_clock (event_ts e) s)) (\<lambda>s.
     go_on (case data_topic e of
              None \<Rightarrow> Some (s, Inr ())
            | Some _ \<Rightarrow> go_on (Some (publish_data e s)) (\<lambda>s. Some (settle_bus env s, Inr ()))) (\<lambda>s.
     go_on (drain_settled env s) (\<lambda>s. Some (maybe_snapshot env s, Inr ())))))"

primrec replay_loop :: "'w env \<Rightarrow> event list \<Rightarrow> 'w replay \<Rightarrow> 'w replay_result option" where
  "replay_loop env [] s = Some (s, Inr ())"
| "replay_loop env (e # es) s = go_on (replay_event env e s) (replay_loop env es)"

text \<open>A source is the events it yields and what it raises behind them, if it does.\<close>

definition replay_source :: "'w env \<Rightarrow> event list \<times> py_error option \<Rightarrow> 'w replay \<Rightarrow> 'w replay_result option" where
  "replay_source env src s =
     go_on (replay_loop env (fst src) s) (\<lambda>s. Some (s, case snd src of None \<Rightarrow> Inr () | Some e \<Rightarrow> Inl e))"

text \<open>
  \<open>run\<close>: the recorders are subscribed and the bus started first; the bus is stopped whatever happens.
\<close>

definition replay_begin :: "'w replay \<Rightarrow> 'w replay_result" where
  "replay_begin s =
     (case subscribe FILLS ''_record_fill'' (bg_bus (rp_venue s)) of
        Inl e \<Rightarrow> (s, Inl e)
      | Inr b \<Rightarrow>
          (case subscribe POSITIONS ''_record_pnl'' b of
             Inl e \<Rightarrow> (s\<lparr>rp_venue := (rp_venue s)\<lparr>bg_bus := b\<rparr>\<rparr>, Inl e)
           | Inr b2 \<Rightarrow> (s\<lparr>rp_venue := (rp_venue s)\<lparr>bg_bus := bus_start b2\<rparr>\<rparr>, Inr ())))"

definition replay_end :: "'w replay_result option \<Rightarrow> 'w replay_result option" where
  "replay_end m =
     map_option (\<lambda>(s, r). (s\<lparr>rp_venue := (rp_venue s)\<lparr>bg_bus := stop_end (stop_begin (bg_bus (rp_venue s)))\<rparr>\<rparr>, r)) m"

definition replay_run :: "'w env \<Rightarrow> event list \<times> py_error option \<Rightarrow> 'w replay \<Rightarrow> 'w replay_result option" where
  "replay_run env src s =
     (case replay_begin s of
        (s1, Inl e) \<Rightarrow> Some (s1, Inl e)
      | (s1, Inr _) \<Rightarrow>
          replay_end
            (go_on (replay_source env src s1) (\<lambda>s.
             go_on (drain_remaining env s) (\<lambda>s. Some (mark_and_snapshot env s, Inr ())))))"

end
