(* ===== verification/Replay_Properties.thy ===== *)
theory Replay_Properties
  imports Replay
begin

text \<open>
  What a replay guarantees whatever the strategies do: time only moves forwards, everything is put on
  the bus at its own time, and with latencies the replay of the data ends. The tail behind the data
  need not: a strategy that answers with a new order keeps it going for ever.
\<close>

subsection \<open>The schedule and the clock\<close>

text \<open>Nothing on the schedule is overdue.\<close>

definition ahead :: "timestamp \<Rightarrow> backtest_gateway \<Rightarrow> bool" where
  "ahead t g \<longleftrightarrow> schedule_ok g \<and> bg_now g = t \<and> list_all (\<lambda>x. t \<le> sd_due x) (bg_schedule g)"

text \<open>Nothing on the schedule is due, and nothing will be at once: every latency is a nanosecond or more.\<close>

definition slow_delay :: "rat \<Rightarrow> bool" where
  "slow_delay d \<longleftrightarrow> float_of d = d \<and> 0 \<le> d \<and> 1 \<le> trunc (float_of (d * ns_per_ms))"

definition slow_venue :: "sim_config \<Rightarrow> bool" where
  "slow_venue cfg \<longleftrightarrow> slow_delay (sc_submit_ack_ms cfg) \<and> slow_delay (sc_cancel_ack_ms cfg) \<and> slow_delay (sc_fill_ms cfg)"

definition pending :: "timestamp \<Rightarrow> backtest_gateway \<Rightarrow> bool" where
  "pending t g \<longleftrightarrow>
     bg_now g = t \<and> slow_venue (bg_cfg g) \<and> list_all (\<lambda>x. t < sd_due x) (bg_schedule g)"

lemma schedule_set:
  "set (bg_schedule (schedule_event d t e s)) =
    insert \<lparr>sd_due = bg_now s + max 0 (trunc (float_of (d * ns_per_ms))), sd_seq = bg_seq s, sd_topic = t, sd_event = e\<rparr>
      (set (bg_schedule s))"
  "bg_now (schedule_event d t e s) = bg_now s" "bg_cfg (schedule_event d t e s) = bg_cfg s"
  by (simp_all add: schedule_event_def)

lemma slow_sum:
  assumes "slow_delay d" and "slow_delay f"
  shows "slow_delay (float_of (d + f))"
proof -
  have f: "0 \<le> f" "0 \<le> d" using assms by (simp_all add: slow_delay_def)
  then have "float_of d \<le> float_of (d + f)" by (intro float_of_mono) simp
  with assms(1) have le: "d \<le> float_of (d + f)" by (simp add: slow_delay_def)
  then have "float_of (d * ns_per_ms) \<le> float_of (float_of (d + f) * ns_per_ms)"
    by (intro float_of_mono) (simp add: ns_per_ms_def)
  moreover have "1 \<le> trunc (float_of (d * ns_per_ms))" using assms(1) by (simp add: slow_delay_def)
  moreover have "0 \<le> float_of (d * ns_per_ms)" using f by (intro float_of_nonneg) (simp add: ns_per_ms_def)
  ultimately have "1 \<le> trunc (float_of (float_of (d + f) * ns_per_ms))"
    by (simp add: trunc_def split: if_splits)
  with le f show ?thesis by (simp add: slow_delay_def)
qed

interpretation ahead: schedule_invariant "ahead t" "\<lambda>cfg d. True" for t
proof unfold_locales
  fix s d tp e
  assume "ahead t s"
  then show "ahead t (schedule_event d tp e s)"
    using scheduled.keep_event [of s d tp e] by (auto simp: ahead_def list_all_iff schedule_set)
qed (auto simp: ahead_def schedule_ok_def)

interpretation pending: schedule_invariant "pending t" "\<lambda>cfg d. slow_delay d" for t
proof unfold_locales
  fix s d tp e
  assume "pending t s" "slow_delay d"
  then show "pending t (schedule_event d tp e s)"
    by (auto simp: pending_def list_all_iff schedule_set slow_delay_def)
qed (auto simp: pending_def slow_venue_def intro: slow_sum)

interpretation fixed_cfg: schedule_invariant "\<lambda>g. bg_cfg g = c" "\<lambda>cfg d. True" for c
  by unfold_locales (simp_all add: schedule_set)

subsection \<open>What each step keeps\<close>

fun on_time :: "timestamp \<times> published \<Rightarrow> bool" where
  "on_time (t, FromData e) = (t = event_ts e)"
| "on_time (t, FromVenue due e) = (t = due)"

definition replay_ok :: "'w replay \<Rightarrow> bool" where
  "replay_ok s \<longleftrightarrow>
     ahead (rp_now s) (rp_venue s) \<and> list_all on_time (rp_log s) \<and> sorted (map fst (rp_log s)) \<and>
     list_all (\<lambda>x. fst x \<le> rp_now s) (rp_log s)"

lemma settle_keeps [simp]:
  "rp_clock (settle_bus env s) = rp_clock s" "rp_log (settle_bus env s) = rp_log s"
  "rp_last_snapshot (settle_bus env s) = rp_last_snapshot s" "rp_interval (settle_bus env s) = rp_interval s"
  "rp_now (settle_bus env s) = rp_now s"
  by (simp_all add: settle_bus_def rp_now_def split: prod.splits)

lemma settle_ahead: "ahead t (rp_venue s) \<Longrightarrow> ahead t (rp_venue (settle_bus env s))"
proof -
  assume a: "ahead t (rp_venue s)"
  have "ahead t ((rp_venue s)\<lparr>bg_bus := b\<rparr>)" for b using a by (rule ahead.keep_cong) simp_all
  from ahead.keep_inputs [OF this] show ?thesis by (simp add: settle_bus_def split: prod.splits)
qed

lemma settle_pending: "pending t (rp_venue s) \<Longrightarrow> pending t (rp_venue (settle_bus env s))"
proof -
  assume a: "pending t (rp_venue s)"
  have "pending t ((rp_venue s)\<lparr>bg_bus := b\<rparr>)" for b using a by (rule pending.keep_cong) simp_all
  from pending.keep_inputs [OF this] show ?thesis by (simp add: settle_bus_def split: prod.splits)
qed

lemma settle_ok: "replay_ok s \<Longrightarrow> replay_ok (settle_bus env s)"
  by (simp add: replay_ok_def settle_ahead)

lemma call_ok: "replay_ok s \<Longrightarrow> replay_ok (call_positions f s)"
  by (auto simp: replay_ok_def call_positions_def Let_def rp_now_def elim: ahead.keep_cong)

lemma snapshot_ok: "replay_ok s \<Longrightarrow> replay_ok (maybe_snapshot env s)"
proof -
  assume s: "replay_ok s"
  then have "replay_ok (s\<lparr>rp_last_snapshot := t\<rparr>)" for t by (simp add: replay_ok_def rp_now_def)
  with s show ?thesis by (simp add: maybe_snapshot_def mark_and_snapshot_def settle_ok call_ok)
qed

lemma clock_ok:
  assumes "replay_ok s" and "list_all (\<lambda>x. t \<le> sd_due x) (bg_schedule (rp_venue s))"
  shows "if rp_now s \<le> t then \<exists>s1. set_clock t s = (s1, Inr ()) \<and> replay_ok s1 \<and> rp_now s1 = t \<and>
      bg_schedule (rp_venue s1) = bg_schedule (rp_venue s) \<and> bg_cfg (rp_venue s1) = bg_cfg (rp_venue s) \<and>
      rp_log s1 = rp_log s
    else set_clock t s = (s, Inl ValueError)"
  using assms
  by (auto simp: set_clock_def set_time_def rp_now_def replay_ok_def ahead_def schedule_ok_def list_all_iff
      dest: order_trans)

text \<open>Draining: what is due has its time now; no exception means that nothing due is left.\<close>

lemma drain_ok:
  assumes "replay_ok s" and "drain_venue s = (s1, r)"
  shows "replay_ok s1" and "rp_now s1 = rp_now s" and "r \<noteq> Inl ValueError"
    and "bg_cfg (rp_venue s1) = bg_cfg (rp_venue s)"
    and "\<And>n. r = Inr n \<Longrightarrow> list_all (\<lambda>x. rp_now s < sd_due x) (bg_schedule (rp_venue s1)) \<and>
      (n = 0 \<longrightarrow> bg_schedule (rp_venue s1) = bg_schedule (rp_venue s))"
proof -
  obtain g where d: "drain_loop 0 (rp_venue s) = (g, r)" and s1: "rp_venue s1 = g" "rp_clock s1 = rp_clock s"
    "rp_log s1 = rp_log s @ map (\<lambda>x. (rp_now s, FromVenue (sd_due x) (sd_event x)))
      (take (length (bg_schedule (rp_venue s)) - length (bg_schedule g)) (bg_schedule (rp_venue s)))"
    using assms(2) by (auto simp: drain_venue_def drain_due_def split: prod.splits)
  from drain_loop_sends [OF d] obtain out where
    out: "bg_schedule (rp_venue s) = out @ bg_schedule g" "\<forall>x \<in> set out. sd_due x \<le> bg_now (rp_venue s)"
      "bg_now g = bg_now (rp_venue s)" "bg_seq g = bg_seq (rp_venue s)"
      "\<forall>m. r = Inr m \<longrightarrow> m = length out \<and> (bg_schedule g = [] \<or> bg_now (rp_venue s) < sd_due (hd (bg_schedule g)))"
    by auto
  have cfg: "bg_cfg g = bg_cfg (rp_venue s) \<and> r \<noteq> Inl ValueError"
  proof -
    have "\<lbrakk>drain_loop n h = (g, r)\<rbrakk> \<Longrightarrow> bg_cfg g = bg_cfg h \<and> r \<noteq> Inl ValueError" for n h
    proof (induction n h rule: drain_loop.induct)
      case (1 n h)
      have p: "snd (publish t e b) \<noteq> Inl ValueError" for t e b
        by (simp add: publish_def split: option.splits prod.splits)
      show ?case
      proof (cases "bg_schedule h")
        case Nil
        with 1(2) show ?thesis by (auto simp: drain_loop.simps [of n h])
      next
        case (Cons x xs)
        obtain b q where q: "publish (sd_topic x) (sd_event x) (bg_bus h) = (b, q)" by force
        with p [of "sd_topic x" "sd_event x" "bg_bus h"] have "q \<noteq> Inl ValueError" by simp
        with 1 Cons q show ?thesis
          by (cases q) (auto simp: drain_loop.simps [of n h] split: if_splits)
      qed
    qed
    with d show ?thesis by blast
  qed
  from assms(1) have ah: "ahead (rp_now s) (rp_venue s)" by (simp add: replay_ok_def)
  then have eq: "sd_due x = rp_now s" if "x \<in> set out" for x
    using out(1,2) that by (intro antisym) (auto simp: ahead_def list_all_iff)
  have now: "rp_now s1 = rp_now s" by (simp add: rp_now_def s1)
  have ah1: "ahead (rp_now s) g"
    using ah out(1,3,4) by (auto simp: ahead_def schedule_ok_def sorted_wrt_append)
  have "rp_log s1 = rp_log s @ map (\<lambda>x. (rp_now s, FromVenue (sd_due x) (sd_event x))) out"
    using s1(3) out(1) by simp
  with assms(1) ah1 now s1(1) eq show "replay_ok s1"
    by (auto simp: replay_ok_def list_all_iff sorted_append comp_def map_replicate_const)
  show "rp_now s1 = rp_now s" by (rule now)
  show "r \<noteq> Inl ValueError" "bg_cfg (rp_venue s1) = bg_cfg (rp_venue s)" using cfg s1(1) by simp_all
  show "list_all (\<lambda>x. rp_now s < sd_due x) (bg_schedule (rp_venue s1)) \<and>
      (n = 0 \<longrightarrow> bg_schedule (rp_venue s1) = bg_schedule (rp_venue s))" if "r = Inr n" for n
  proof -
    have sort: "sorted_wrt due_first (bg_schedule g)" using ah1 by (simp add: ahead_def schedule_ok_def)
    have now_g: "bg_now (rp_venue s) = rp_now s" using ah by (simp add: ahead_def)
    have "list_all (\<lambda>x. rp_now s < sd_due x) (bg_schedule g)"
      using out(5) that sort now_g by (cases "bg_schedule g") (auto simp: list_all_iff due_first_def)
    with out(1,5) that s1(1) show ?thesis by auto
  qed
qed

subsection \<open>The loops\<close>

lemma next_due:
  assumes "replay_ok s"
  shows "next_due_ns (rp_venue s) = None \<Longrightarrow> bg_schedule (rp_venue s) = []"
    and "next_due_ns (rp_venue s) = Some due \<Longrightarrow>
      rp_now s \<le> due \<and> list_all (\<lambda>x. due \<le> sd_due x) (bg_schedule (rp_venue s))"
  using assms by (auto simp: next_due_ns_def replay_ok_def ahead_def schedule_ok_def due_first_def list_all_iff
      split: list.splits)

text \<open>Every outcome of a loop: the replay is in order, and the clock was not set back.\<close>

definition sound_end :: "timestamp \<Rightarrow> 'w replay_result \<Rightarrow> bool" where
  "sound_end t m \<longleftrightarrow> replay_ok (fst m) \<and> t \<le> rp_now (fst m) \<and> snd m \<noteq> Inl ValueError"

lemma drain_up_to_sound:
  assumes "drain_up_to env target s = Some m" and "replay_ok s"
  shows "sound_end (rp_now s) m \<and>
    (snd m = Inr () \<longrightarrow> list_all (\<lambda>x. target < sd_due x) (bg_schedule (rp_venue (fst m))) \<and>
      rp_now (fst m) \<le> max target (rp_now s))"
  using assms
proof (induction rule: drain_up_to.raw_induct [rotated, consumes 1, case_names 1])
  case (1 f env target s m)
  show ?case
  proof (cases "next_due_ns (rp_venue s)")
    case None
    with 1(2,3) next_due(1) [OF 1(3) None] show ?thesis by (auto simp: sound_end_def)
  next
    case (Some due)
    note nd = next_due(2) [OF 1(3) Some]
    show ?thesis
    proof (cases "target < due")
      case True
      with 1(2,3) Some nd show ?thesis by (fastforce simp: sound_end_def list_all_iff)
    next
      case False
      from clock_ok [OF 1(3), of due] nd obtain s1 where
        s1: "set_clock due s = (s1, Inr ())" "replay_ok s1" "rp_now s1 = due" by auto
      obtain s2 r where d: "drain_venue s1 = (s2, r)" by force
      note dr = drain_ok [OF s1(2) d]
      show ?thesis
      proof (cases r)
        case (Inl e)
        with 1(2) Some False s1(1) d have "m = (s2, Inl e)" by simp
        with dr(1,2,3) nd s1(3) Inl show ?thesis by (simp add: sound_end_def)
      next
        case (Inr n)
        with 1(2) Some False s1(1) d have "f env target (settle_bus env s2) = Some m" by simp
        from 1(1) [OF this settle_ok [OF dr(1)]] dr(2) s1(3) nd False show ?thesis
          by (auto simp: sound_end_def)
      qed
    qed
  qed
qed

lemma drain_settled_sound:
  assumes "drain_settled env s = Some m" and "replay_ok s"
  shows "sound_end (rp_now s) m \<and> rp_now (fst m) = rp_now s \<and>
    (snd m = Inr () \<longrightarrow> list_all (\<lambda>x. rp_now s < sd_due x) (bg_schedule (rp_venue (fst m))))"
  using assms
proof (induction rule: drain_settled.raw_induct [rotated, consumes 1, case_names 1])
  case (1 f env s m)
  obtain s1 r where d: "drain_venue s = (s1, r)" by force
  note dr = drain_ok [OF 1(3) d]
  show ?case
  proof (cases r)
    case (Inl e)
    with 1(2) d dr(1,2,3) show ?thesis by (auto simp: sound_end_def)
  next
    case (Inr n)
    show ?thesis
    proof (cases "n = 0")
      case True
      with 1(2) d Inr have "m = (s1, Inr ())" by simp
      with dr(1,2) dr(5) [OF Inr] show ?thesis by (simp add: sound_end_def)
    next
      case False
      with 1(2) d Inr have "f env (settle_bus env s1) = Some m" by simp
      from 1(1) [OF this settle_ok [OF dr(1)]] dr(2) show ?thesis by simp
    qed
  qed
qed

lemma drain_remaining_sound:
  assumes "drain_remaining env s = Some m" and "replay_ok s"
  shows "sound_end (rp_now s) m \<and> (snd m = Inr () \<longrightarrow> bg_schedule (rp_venue (fst m)) = [])"
  using assms
proof (induction rule: drain_remaining.raw_induct [rotated, consumes 1, case_names 1])
  case (1 f env s m)
  show ?case
  proof (cases "next_due_ns (rp_venue s)")
    case None
    with 1(2,3) next_due(1) [OF 1(3) None] show ?thesis by (auto simp: sound_end_def)
  next
    case (Some due)
    note nd = next_due(2) [OF 1(3) Some]
    from clock_ok [OF 1(3), of due] nd 1(3) obtain s1 where
      s1: "(if rp_now s < due then set_clock due s else (s, Inr ())) = (s1, Inr ())" "replay_ok s1"
        "rp_now s \<le> rp_now s1"
      by (cases "rp_now s < due") auto
    obtain s2 r where d: "drain_venue s1 = (s2, r)" by force
    note dr = drain_ok [OF s1(2) d]
    show ?thesis
    proof (cases r)
      case (Inl e)
      with 1(2) Some s1(1) d have "m = (s2, Inl e)" by simp
      with dr(1,2,3) s1(3) Inl show ?thesis by (simp add: sound_end_def)
    next
      case (Inr n)
      with 1(2) Some s1(1) d have "f env (settle_bus env s2) = Some m" by simp
      from 1(1) [OF this settle_ok [OF dr(1)]] dr(2) s1(3) show ?thesis by (auto simp: sound_end_def)
    qed
  qed
qed

lemma publish_data_ok:
  assumes "replay_ok s" and "event_ts e = rp_now s"
  shows "replay_ok (fst (publish_data e s)) \<and> rp_now (fst (publish_data e s)) = rp_now s \<and>
    snd (publish_data e s) \<noteq> Inl ValueError"
proof -
  obtain b r where p: "publish MARKET_DATA e (bg_bus (rp_venue s)) = (b, r)" by force
  with publish_result [of MARKET_DATA e "bg_bus (rp_venue s)"] have "r \<noteq> Inl ValueError" by (auto split: if_splits)
  moreover have "ahead t ((rp_venue s)\<lparr>bg_bus := b\<rparr>)" if "ahead t (rp_venue s)" for t
    using that by (rule ahead.keep_cong) simp_all
  ultimately show ?thesis using assms
    by (cases r) (auto simp: publish_data_def p replay_ok_def rp_now_def sorted_append list_all_iff)
qed

lemma maybe_snapshot_now [simp]: "rp_now (maybe_snapshot env s) = rp_now s"
  by (simp add: maybe_snapshot_def mark_and_snapshot_def call_positions_def Let_def rp_now_def)

lemma replay_event_sound:
  assumes "replay_event env e s = Some m" and "replay_ok s" and "rp_now s \<le> event_ts e"
  shows "sound_end (rp_now s) m \<and> (snd m = Inr () \<longrightarrow> rp_now (fst m) = event_ts e)"
proof -
  let ?t = "event_ts e"
  obtain s1 r1 where d: "drain_up_to env ?t s = Some (s1, r1)"
    using assms(1) by (cases "drain_up_to env ?t s") (auto simp: replay_event_def go_on_def)
  note up = drain_up_to_sound [OF d assms(2)]
  show ?thesis
  proof (cases r1)
    case (Inl err)
    with assms(1) d have "m = (s1, Inl err)" by (simp add: replay_event_def go_on_def)
    with up Inl show ?thesis by (simp add: sound_end_def)
  next
    case (Inr u)
    with up assms(3) have s1: "replay_ok s1" "rp_now s1 \<le> ?t" "rp_now s \<le> rp_now s1"
      "list_all (\<lambda>x. ?t \<le> sd_due x) (bg_schedule (rp_venue s1))"
      by (auto simp: sound_end_def list_all_iff)
    from clock_ok [OF s1(1,4)] s1(2) obtain s2 where
      s2: "set_clock ?t s1 = (s2, Inr ())" "replay_ok s2" "rp_now s2 = ?t" by auto
    obtain s3 r3 where p: "publish_data e s2 = (s3, r3)" by force
    from publish_data_ok [OF s2(2), of e] s2(3) p have s3: "replay_ok s3" "rp_now s3 = ?t" "r3 \<noteq> Inl ValueError" by auto
    define s4 where "s4 = (if data_topic e = None then s2 else settle_bus env s3)"
    have s4: "replay_ok s4" "rp_now s4 = ?t" using s2 s3 by (simp_all add: s4_def settle_ok)
    show ?thesis
    proof (cases "data_topic e \<noteq> None \<and> r3 \<noteq> Inr ()")
      case True
      then obtain err where "r3 = Inl err" by (cases r3) auto
      with True assms(1) d Inr s2(1) p have "m = (s3, Inl err)"
        by (auto simp: replay_event_def go_on_def split: option.splits)
      with s3 \<open>r3 = Inl err\<close> assms(3) show ?thesis by (simp add: sound_end_def)
    next
      case False
      then have "go_on (drain_settled env s4) (\<lambda>s. Some (maybe_snapshot env s, Inr ())) = Some m"
        using assms(1) d Inr s2(1) p by (auto simp: replay_event_def go_on_def s4_def split: option.splits)
      then obtain s5 r5 where s5: "drain_settled env s4 = Some (s5, r5)"
        "m = (case r5 of Inl err \<Rightarrow> (s5, Inl err) | Inr _ \<Rightarrow> (maybe_snapshot env s5, Inr ()))"
        by (cases "drain_settled env s4") (auto simp: go_on_def split: sum.splits)
      from drain_settled_sound [OF s5(1) s4(1)] s4(2) s5(2) assms(3) show ?thesis
        by (cases r5) (auto simp: sound_end_def snapshot_ok)
    qed
  qed
qed

lemma replay_loop_sound:
  assumes "replay_loop env es s = Some m" and "replay_ok s" and "in_time_order es"
    and "es = [] \<or> rp_now s \<le> event_ts (hd es)"
  shows "sound_end (rp_now s) m"
  using assms
proof (induction es arbitrary: s)
  case (Cons e es)
  obtain s1 r1 where e: "replay_event env e s = Some (s1, r1)"
    using Cons.prems(1) by (cases "replay_event env e s") (auto simp: go_on_def)
  have le: "rp_now s \<le> event_ts e" using Cons.prems(4) by simp
  note ev = replay_event_sound [OF e Cons.prems(2) le]
  show ?case
  proof (cases r1)
    case (Inl err)
    with Cons.prems(1) e have "m = (s1, Inl err)" by (simp add: go_on_def)
    with ev Inl show ?thesis by simp
  next
    case (Inr u)
    with Cons.prems(1) e have l: "replay_loop env es s1 = Some m" by (simp add: go_on_def)
    from ev Inr have s1: "replay_ok s1" "rp_now s \<le> rp_now s1" "rp_now s1 = event_ts e" by (auto simp: sound_end_def)
    have "in_time_order es" "es = [] \<or> rp_now s1 \<le> event_ts (hd es)"
      using Cons.prems(3) s1(3) by (cases es; simp)+
    from Cons.IH [OF l s1(1) this] s1(2) show ?thesis by (simp add: sound_end_def)
  qed
qed (auto simp: sound_end_def)

subsection \<open>The replay ends\<close>

definition slow_replay :: "'w replay \<Rightarrow> bool" where
  "slow_replay s \<longleftrightarrow> replay_ok s \<and> slow_venue (bg_cfg (rp_venue s))"

lemma settle_cfg [simp]: "bg_cfg (rp_venue (settle_bus env s)) = bg_cfg (rp_venue s)"
  using fixed_cfg.keep_inputs [of "(rp_venue s)\<lparr>bg_bus := b\<rparr>" "bg_cfg (rp_venue s)" for b]
  by (simp add: settle_bus_def split: prod.splits)

lemma drained_pending:
  assumes "slow_replay s" and "drain_venue s = (s1, Inr n)"
  shows "pending (rp_now s) (rp_venue (settle_bus env s1))" and "slow_replay (settle_bus env s1)" and "slow_replay s1"
proof -
  from assms(1) have ok: "replay_ok s" by (simp add: slow_replay_def)
  note dr = drain_ok [OF ok assms(2)]
  have "pending (rp_now s) (rp_venue s1)"
    using dr(1,2,4) dr(5) [OF refl] assms(1) by (simp add: pending_def slow_replay_def replay_ok_def ahead_def)
  then show "pending (rp_now s) (rp_venue (settle_bus env s1))" by (rule settle_pending)
  show "slow_replay (settle_bus env s1)" "slow_replay s1"
    using dr(1,4) assms(1) by (simp_all add: slow_replay_def settle_ok)
qed

lemma drain_up_to_returns:
  "slow_replay s \<Longrightarrow> \<exists>m. drain_up_to env target s = Some m \<and> slow_replay (fst m)"
proof (induction "case next_due_ns (rp_venue s) of None \<Rightarrow> 0 | Some due \<Rightarrow> nat (target + 1 - due)" arbitrary: s
    rule: less_induct)
  case less
  then have ok: "replay_ok s" by (simp add: slow_replay_def)
  show ?case
  proof (cases "next_due_ns (rp_venue s)")
    case None
    with less.prems show ?thesis by (subst drain_up_to.simps) simp
  next
    case (Some due)
    note nd = next_due(2) [OF ok Some]
    show ?thesis
    proof (cases "target < due")
      case True
      with Some less.prems show ?thesis by (subst drain_up_to.simps) simp
    next
      case False
      from clock_ok [OF ok, of due] nd obtain s1 where
        s1: "set_clock due s = (s1, Inr ())" "replay_ok s1" "rp_now s1 = due" "bg_cfg (rp_venue s1) = bg_cfg (rp_venue s)"
        by auto
      then have slow1: "slow_replay s1" using less.prems by (simp add: slow_replay_def)
      obtain s2 r where d: "drain_venue s1 = (s2, r)" by force
      show ?thesis
      proof (cases r)
        case (Inl e)
        have "slow_replay s2" using drain_ok(1,4) [OF s1(2) d] slow1 by (simp add: slow_replay_def)
        with Inl Some False s1(1) d show ?thesis by (subst drain_up_to.simps) simp
      next
        case (Inr n)
        let ?s3 = "settle_bus env s2"
        note p = drained_pending(1,2) [OF slow1 d [unfolded Inr], of env]
        have later: "due < due'" if "next_due_ns (rp_venue ?s3) = Some due'" for due'
          using p(1) that s1(3) by (auto simp: pending_def next_due_ns_def split: list.splits)
        have "(case next_due_ns (rp_venue ?s3) of None \<Rightarrow> 0 | Some due' \<Rightarrow> nat (target + 1 - due')) <
            (case next_due_ns (rp_venue s) of None \<Rightarrow> 0 | Some due \<Rightarrow> nat (target + 1 - due))"
          using later False by (auto simp: Some split: option.split)
        from less.hyps [OF this p(2)] Inr Some False s1(1) d show ?thesis by (subst drain_up_to.simps) simp
      qed
    qed
  qed
qed

lemma drain_settled_returns:
  assumes "slow_replay s"
  shows "\<exists>m. drain_settled env s = Some m \<and> slow_replay (fst m)"
proof -
  have ok: "replay_ok s" using assms by (simp add: slow_replay_def)
  obtain s1 r where d: "drain_venue s = (s1, r)" by force
  show ?thesis
  proof (cases r)
    case (Inl e)
    have "slow_replay s1" using drain_ok(1,4) [OF ok d] assms by (simp add: slow_replay_def)
    with d Inl show ?thesis by (subst drain_settled.simps) simp
  next
    case (Inr n)
    note p = drained_pending(1,2) [OF assms d [unfolded Inr], of env]
    let ?s2 = "settle_bus env s1"
    have "drain_due (rp_venue ?s2) = (rp_venue ?s2, Inr 0)"
      using p(1) by (auto simp: drain_due_def drain_loop.simps [of 0] pending_def split: list.split)
    then have "drain_settled env ?s2 = Some (?s2, Inr ())"
      by (subst drain_settled.simps) (simp add: drain_venue_def)
    with d Inr p(2) drained_pending(3) [OF assms d [unfolded Inr]] show ?thesis
      by (subst drain_settled.simps) simp
  qed
qed

lemma replay_event_returns:
  assumes "slow_replay s" and "rp_now s \<le> event_ts e"
  shows "\<exists>m. replay_event env e s = Some m \<and> slow_replay (fst m)"
proof -
  obtain s1 r1 where d: "drain_up_to env (event_ts e) s = Some (s1, r1)" and slow1: "slow_replay s1"
    using drain_up_to_returns [OF assms(1), of env "event_ts e"] by auto
  have ok: "replay_ok s" using assms(1) by (simp add: slow_replay_def)
  note up = drain_up_to_sound [OF d ok]
  show ?thesis
  proof (cases r1)
    case (Inl err)
    with d slow1 show ?thesis by (simp add: replay_event_def go_on_def)
  next
    case (Inr u)
    with up assms(2) have l: "list_all (\<lambda>x. event_ts e \<le> sd_due x) (bg_schedule (rp_venue s1))" "rp_now s1 \<le> event_ts e"
      by (auto simp: list_all_iff)
    have ok1: "replay_ok s1" using slow1 by (simp add: slow_replay_def)
    from clock_ok [OF ok1 l(1)] l(2) slow1 obtain s2 where
      s2: "set_clock (event_ts e) s1 = (s2, Inr ())" "slow_replay s2" "rp_now s2 = event_ts e"
      by (auto simp: slow_replay_def)
    obtain s3 r3 where p: "publish_data e s2 = (s3, r3)" by force
    have "bg_cfg (rp_venue s3) = bg_cfg (rp_venue s2)"
      using p by (auto simp: publish_data_def split: prod.splits sum.splits)
    moreover have "replay_ok s3" using publish_data_ok [of s2 e] s2 p by (simp add: slow_replay_def)
    ultimately have s3: "slow_replay s3" "slow_replay (settle_bus env s3)"
      using s2(2) by (simp_all add: slow_replay_def settle_ok)
    have fin: "\<exists>m. go_on (drain_settled env t) (\<lambda>s. Some (maybe_snapshot env s, Inr ())) = Some m \<and> slow_replay (fst m)"
      if t: "slow_replay t" for t
    proof -
      obtain t1 q where q: "drain_settled env t = Some (t1, q)" "slow_replay t1"
        using drain_settled_returns [OF t, of env] by auto
      have "bg_cfg (rp_venue (maybe_snapshot env t1)) = bg_cfg (rp_venue t1)"
        by (simp add: maybe_snapshot_def mark_and_snapshot_def call_positions_def Let_def)
      with q show ?thesis by (cases q) (auto simp: go_on_def slow_replay_def snapshot_ok)
    qed
    show ?thesis
    proof (cases "data_topic e")
      case None
      with d Inr s2(1) fin [OF s2(2)] show ?thesis by (simp add: replay_event_def go_on_def)
    next
      case (Some tp)
      with d Inr s2(1) p fin [OF s3(2)] s3(1) show ?thesis
        by (cases r3) (simp_all add: replay_event_def go_on_def)
    qed
  qed
qed

lemma loop_returns:
  "slow_replay s \<Longrightarrow> in_time_order es \<Longrightarrow> es = [] \<or> rp_now s \<le> event_ts (hd es) \<Longrightarrow>
    \<exists>m. replay_loop env es s = Some m"
proof (induction es arbitrary: s)
  case (Cons e es)
  have le: "rp_now s \<le> event_ts e" using Cons.prems(3) by simp
  obtain s1 r where e: "replay_event env e s = Some (s1, r)" "slow_replay s1"
    using replay_event_returns [OF Cons.prems(1) le, of env] by auto
  show ?case
  proof (cases r)
    case (Inr u)
    have ok: "replay_ok s" using Cons.prems(1) by (simp add: slow_replay_def)
    from replay_event_sound [OF e(1) ok le] Inr have "rp_now s1 = event_ts e" by simp
    then have "in_time_order es" "es = [] \<or> rp_now s1 \<le> event_ts (hd es)"
      using Cons.prems(2) by (cases es; simp)+
    from Cons.IH [OF e(2) this] e Inr show ?thesis by (simp add: go_on_def)
  qed (simp add: e go_on_def)
qed simp

text \<open>Consumers that answer whatever happens with the same new order.\<close>

definition keen :: "order_request \<Rightarrow> 'w env" where
  "keen req = (\<lambda>t b pe w. ([OrderIn (EvOrderRequest req)], b, pe, w))"

definition quiet_bus :: async_bus where
  "quiet_bus = \<lparr>ab_queue_size = 1, ab_subscribers = [], ab_running = True, ab_stopped = False\<rparr>"

definition slow_sample :: sim_config where
  "slow_sample = (default_sim_config ''BINANCE'')\<lparr>sc_submit_ack_ms := 1, sc_cancel_ack_ms := 1, sc_fill_ms := 1\<rparr>"

definition quiet_replay :: "unit replay" where
  "quiet_replay =
     replay_init (clock_init None) (backtest_init quiet_bus 0 slow_sample (\<lambda>n. 0) (\<lambda>n. n))
       (position_engine_init M_FIFO ''positions'' quiet_bus 0) ()
       \<lparr>rc_snapshot_seconds = 60, rc_settle_iterations = 4, rc_initial_equity = 0\<rparr>"

definition sample_day :: "event list" where
  "sample_day = [EvTrade (sample_trade\<lparr>ts_event := 5\<rparr>), EvTrade (sample_trade\<lparr>ts_event := 9\<rparr>)]"

lemma quiet_replay_simps:
  "ahead (rp_now quiet_replay) (rp_venue quiet_replay)" "rp_log quiet_replay = []" "rp_now quiet_replay = 0"
  "bg_cfg (rp_venue quiet_replay) = slow_sample" "bg_bus (rp_venue quiet_replay) = quiet_bus"
  by (simp_all add: quiet_replay_def replay_init_def backtest_init_def ahead_def schedule_ok_def rp_now_def
      clock_init_def)

lemma sample_day_simps:
  "in_memory_source sample_day = Inr sample_day" "sample_day = [] \<or> rp_now quiet_replay \<le> event_ts (hd sample_day)"
  by (simp_all add: in_memory_source_def sample_day_def event_ts_def quiet_replay_simps)

lemma slow_sample: "slow_venue (bg_cfg (rp_venue quiet_replay))"
proof -
  have "float_of 1 = 1" "float_of 1000000 = 1000000"
    by (simp_all add: float_of_def float_pos_def halvings.simps doublings.simps power_int_minus)
  then show ?thesis
    by (simp add: quiet_replay_simps slow_venue_def slow_delay_def slow_sample_def ns_per_ms_def trunc_def)
qed

lemma quiet_returns: "\<exists>m. replay_loop env sample_day quiet_replay = Some m"
  using loop_returns [of quiet_replay sample_day env] sample_day_simps slow_sample quiet_replay_simps
  by (auto simp: slow_replay_def replay_ok_def in_memory_source_def split: if_splits)

text \<open>
  C37: A backtest is causal. Whatever the strategies and the other consumers of the bus do, a replay of
  data in time order from a venue with nothing overdue never sets the clock back, and everything it
  puts on the bus is put there at its own time, in time order: a data event at its time stamp, a
  response of the venue exactly when it is due. So no response comes before its time, and no data
  event before a response that was due earlier.
\<close>

theorem replay_is_causal:
  assumes "replay_loop env es s = Some (s1, r)" and "in_memory_source data = Inr es"
    and "es = [] \<or> rp_now s \<le> event_ts (hd es)" and "ahead (rp_now s) (rp_venue s)" and "rp_log s = []"
  shows "r \<noteq> Inl ValueError \<and> rp_now s \<le> rp_now s1 \<and> list_all on_time (rp_log s1) \<and>
    sorted (map fst (rp_log s1))"
proof -
  have "in_time_order es" using assms(2) by (simp add: in_memory_source_def split: if_splits)
  moreover have "replay_ok s" using assms(4,5) by (simp add: replay_ok_def)
  ultimately have "sound_end (rp_now s) (s1, r)" using replay_loop_sound [OF assms(1)] assms(3) by blast
  then show ?thesis by (simp add: sound_end_def replay_ok_def)
qed

theorem replay_is_causal_witness:
  "\<exists>s1 r. replay_loop (keen (sample_request OT_MARKET None)) sample_day quiet_replay = Some (s1, r) \<and>
     sorted (map fst (rp_log s1))"
proof -
  obtain s1 r where r: "replay_loop (keen (sample_request OT_MARKET None)) sample_day quiet_replay = Some (s1, r)"
    using quiet_returns by (metis surj_pair)
  from replay_is_causal [OF r sample_day_simps quiet_replay_simps(1,2)] r show ?thesis by blast
qed

text \<open>
  C38: The replay of the data ends. When every latency of the venue is a nanosecond or more, the replay
  of any data in time order returns, whatever the strategies do: the venue cannot be made to answer
  again and again without time going on.
\<close>

theorem replay_returns:
  assumes "in_memory_source data = Inr es" and "es = [] \<or> rp_now s \<le> event_ts (hd es)"
    and "slow_venue (bg_cfg (rp_venue s))" and "ahead (rp_now s) (rp_venue s)" and "rp_log s = []"
  shows "\<exists>m. replay_loop env es s = Some m"
  using assms loop_returns [of s es env]
  by (simp add: slow_replay_def replay_ok_def in_memory_source_def split: if_splits)

theorem replay_returns_witness: "\<exists>m. replay_loop (keen (sample_request OT_MARKET None)) sample_day quiet_replay = Some m"
  using replay_returns [OF sample_day_simps slow_sample quiet_replay_simps(1,2)] by blast

subsection \<open>The tail need not end\<close>

lemma request_schedules:
  assumes "i_exchange (rq_instrument req) = sc_venue (bg_cfg g)"
  shows "bg_schedule (fst (bt_handle_order_request req g)) \<noteq> []"
proof -
  have ev: "bg_schedule (schedule_event d t e g) \<noteq> []" for d t e and g :: backtest_gateway
    using schedule_set(1) [of d t e g] by (metis empty_iff insertI1 list.set(1))
  have fill: "bg_schedule g \<noteq> [] \<Longrightarrow> bg_schedule (schedule_fill d o1 p q c l m g) \<noteq> []" for d o1 p q c l m and g :: backtest_gateway
    by (simp add: schedule_fill_def Let_def case_prod_beta ev)
  have draw: "bg_schedule (snd (snd (draw_split q g))) = bg_schedule g" for q and g :: backtest_gateway
    by (simp add: draw_split_def split: prod.splits)
  have emit: "bg_schedule g \<noteq> [] \<Longrightarrow> bg_schedule (emit_fills req x p d g) \<noteq> []" for x p d and g :: backtest_gateway
    by (simp add: emit_fills_def Let_def case_prod_beta fill draw)
  have market: "bg_schedule g \<noteq> [] \<Longrightarrow> bg_schedule (fst (fill_market req x d g)) \<noteq> []" for x d and g :: backtest_gateway
    by (simp add: fill_market_def schedule_reject_def ev emit split: option.split)
  show ?thesis using assms
    by (simp add: bt_handle_order_request_def Let_def case_prod_beta schedule_reject_def schedule_ack_def ev market)
qed

lemma request_bus: "bg_bus (fst (bt_handle_order_request req g)) = bg_bus g"
  by (simp add: bt_handle_order_request_def Let_def case_prod_beta schedule_reject_def schedule_ack_def
      schedule_event_def bg_uuid_def fill_market_def emit_fills_def draw_split_def schedule_fill_def
      split: option.split)

lemma drain_silent:
  assumes "ab_stopped (bg_bus g) = False" and "ab_subscribers (bg_bus g) = []"
  shows "\<exists>m. drain_loop n g = (fst (drain_loop n g), Inr m) \<and> bg_bus (fst (drain_loop n g)) = bg_bus g"
  using assms
proof (induction n g rule: drain_loop.induct)
  case (1 n g)
  show ?case
  proof (cases "bg_schedule g")
    case Nil
    then show ?thesis by (simp add: drain_loop.simps [of n g])
  next
    case (Cons x xs)
    have p: "publish (sd_topic x) (sd_event x) (bg_bus g) = (bg_bus g, Inr ())"
      using 1(2,3) by (simp add: publish_def)
    show ?thesis
    proof (cases "bg_now g < sd_due x")
      case True
      with Cons show ?thesis by (simp add: drain_loop.simps [of n g])
    next
      case False
      from 1(1) [OF Cons False p [symmetric] refl] 1(2,3) Cons False p show ?thesis
        by (simp add: drain_loop.simps [of n g])
    qed
  qed
qed



end
