(* ===== verification/Backtest_Report.thy ===== *)
theory Backtest_Report
  imports Replay Json
begin

text \<open>
  What goes into a backtest and what comes out of it: the bars of a CSV file
  (\<open>CSVDataSource\<close> of \<open>backtest/data_source.py\<close>) and the statistics of \<open>backtest/metrics.py\<close> and
  \<open>backtest/report.py\<close>. The rows of the file are an argument, as \<open>csv.DictReader\<close> gives them; a cell a
  short row lacks is \<open>None\<close>; a cell that is not a finite number counts as a bad value. The statistics are floats. Those that take roots and powers (volatility,
  Sharpe and Sortino ratio, annualized return) and the sums behind the profit factor are left out.
\<close>

subsection \<open>Bars\<close>

type_synonym csv_row = "(string, string option) dict"

record csv_columns =
  cc_timestamp :: string
  cc_close :: string
  cc_volume :: string
  cc_unit :: string

definition csv_columns_default :: csv_columns where
  "csv_columns_default =
     \<lparr>cc_timestamp = ''timestamp'', cc_close = ''close'', cc_volume = ''volume'', cc_unit = ''ms''\<rparr>"

definition timestamp_multipliers :: "(string \<times> int) list" where
  "timestamp_multipliers = [(''ns'', 1), (''us'', 1000), (''ms'', 1000000), (''s'', 1000000000)]"

definition csv_cell :: "string \<Rightarrow> csv_row \<Rightarrow> py_error + string" where
  "csv_cell k row =
     (case dget row k of None \<Rightarrow> Inl KeyError | Some None \<Rightarrow> Inl TypeError | Some (Some w) \<Rightarrow> Inr w)"

text \<open>\<open>int(float(cell))\<close>\<close>

definition csv_time :: "csv_columns \<Rightarrow> int \<Rightarrow> csv_row \<Rightarrow> py_error + timestamp" where
  "csv_time c mult row =
     sum_bind (csv_cell (cc_timestamp c) row) (\<lambda>w.
       case dec_of_string w of None \<Rightarrow> Inl ValueError | Some x \<Rightarrow> Inr (trunc (float_of x) * mult))"

definition csv_decimal :: "string \<Rightarrow> py_error + dec" where
  "csv_decimal w = (case dec_of_string w of None \<Rightarrow> Inl InvalidOperation | Some x \<Rightarrow> Inr x)"

text \<open>\<open>row.get(c.volume, "0") or "0"\<close>, and the volume traded in a bar, none without trades.\<close>

definition csv_volume :: "csv_columns \<Rightarrow> csv_row \<Rightarrow> string" where
  "csv_volume c row = (case dget row (cc_volume c) of Some (Some w) \<Rightarrow> if w = [] then ''0'' else w | _ \<Rightarrow> ''0'')"

definition bar_volume :: "csv_columns \<Rightarrow> bool \<Rightarrow> csv_row \<Rightarrow> py_error + dec" where
  "bar_volume c trades row = (if trades then csv_decimal (csv_volume c row) else Inr 0)"

definition bar_tick :: "instrument \<Rightarrow> string \<Rightarrow> timestamp \<Rightarrow> dec \<Rightarrow> event" where
  "bar_tick ins src t close =
     EvTick \<lparr>ts_event = t, ts_ingest = t, source = src, tk_instrument = ins,
       tk_bid_price = dsub close (i_tick_size ins), tk_bid_size = 1,
       tk_ask_price = dadd close (i_tick_size ins), tk_ask_size = 1\<rparr>"

definition bar_trade :: "instrument \<Rightarrow> string \<Rightarrow> timestamp \<Rightarrow> dec \<Rightarrow> dec \<Rightarrow> event" where
  "bar_trade ins src t close volume =
     EvTrade \<lparr>ts_event = t, ts_ingest = t, source = src, tr_instrument = ins, tr_price = close,
       tr_quantity = volume, tr_aggressor = None, tr_venue_trade_id = None\<rparr>"

text \<open>The generator \<open>_load\<close>: what it yields, and what it raises behind that.\<close>

fun csv_load ::
    "instrument \<Rightarrow> csv_columns \<Rightarrow> bool \<Rightarrow> string \<Rightarrow> int \<Rightarrow> timestamp option \<Rightarrow> csv_row list \<Rightarrow>
     event list \<times> py_error option" where
  "csv_load ins c trades src mult last_ts [] = ([], None)"
| "csv_load ins c trades src mult last_ts (row # rows) =
     (case csv_time c mult row of
        Inl e \<Rightarrow> ([], Some e)
      | Inr t \<Rightarrow>
          if (case last_ts of None \<Rightarrow> False | Some l \<Rightarrow> t < l) then ([], Some ValueError)
          else
            case sum_bind (csv_cell (cc_close c) row) csv_decimal of
              Inl e \<Rightarrow> ([], Some e)
            | Inr close \<Rightarrow>
                (case bar_volume c trades row of
                   Inl e \<Rightarrow> ([bar_tick ins src t close], Some e)
                 | Inr volume \<Rightarrow>
                     (case csv_load ins c trades src mult (Some t) rows of
                        (es, err) \<Rightarrow>
                          (bar_tick ins src t close #
                             (if 0 < volume then [bar_trade ins src t close volume] else []) @ es, err))))"

definition csv_source ::
    "instrument \<Rightarrow> csv_columns \<Rightarrow> bool \<Rightarrow> string \<Rightarrow> csv_row list \<Rightarrow> event list \<times> py_error option" where
  "csv_source ins c trades src rows =
     (case map_of timestamp_multipliers (cc_unit c) of
        None \<Rightarrow> ([], Some KeyError)
      | Some mult \<Rightarrow> csv_load ins c trades src mult None rows)"

subsection \<open>Statistics\<close>

definition compute_returns :: "rat list \<Rightarrow> rat list" where
  "compute_returns equity =
     map (\<lambda>i. if equity ! (i - 1) \<noteq> 0
              then float_of (float_of (equity ! i - equity ! (i - 1)) / equity ! (i - 1)) else 0)
       [1 ..< length equity]"

fun drawdown_loop :: "rat \<Rightarrow> rat \<Rightarrow> rat \<Rightarrow> rat list \<Rightarrow> rat \<times> rat" where
  "drawdown_loop peak max_dd max_dd_pct [] = (max_dd, max_dd_pct)"
| "drawdown_loop peak max_dd max_dd_pct (value # values) =
     (let peak = (if peak < value then value else peak); dd = float_of (peak - value)
      in if max_dd < dd then drawdown_loop peak dd (if 0 < peak then float_of (dd / peak) else 0) values
         else drawdown_loop peak max_dd max_dd_pct values)"

definition max_drawdown :: "rat list \<Rightarrow> rat \<times> rat" where
  "max_drawdown equity = (case equity of [] \<Rightarrow> (0, 0) | e # es \<Rightarrow> drawdown_loop e 0 0 (e # es))"

type_synonym trade_lots = "(rat \<times> rat \<times> side) list"

text \<open>
  Closing opposite lots: the queue, the profits and what is left of the fill. A lot that is closed in
  part takes all of the fill, so the loop ends with it.
\<close>

fun close_trades :: "side \<Rightarrow> rat \<Rightarrow> rat \<Rightarrow> trade_lots \<Rightarrow> trade_lots \<times> rat list \<times> rat" where
  "close_trades sd price qty [] = ([], [], qty)"
| "close_trades sd price qty ((open_price, open_qty, open_side) # queue) =
     (if qty \<le> 0 \<or> open_side = sd then ((open_price, open_qty, open_side) # queue, [], qty)
      else
        let close_qty = min open_qty qty; sign = (case open_side of BUY \<Rightarrow> 1 | SELL \<Rightarrow> -1);
            pnl = float_of (sign * float_of (price - open_price) * close_qty);
            rest = float_of (qty - close_qty)
        in if close_qty < open_qty
           then ((open_price, float_of (open_qty - close_qty), open_side) # queue, [pnl], rest)
           else case close_trades sd price rest queue of (q, pnls, left) \<Rightarrow> (q, pnl # pnls, left))"

type_synonym trade_key = "strategy_id \<times> string"

definition count_trade ::
    "fill_event \<Rightarrow> (trade_key, trade_lots) dict \<times> rat list \<Rightarrow> (trade_key, trade_lots) dict \<times> rat list" where
  "count_trade f st =
     (case st of (queues, pnls) \<Rightarrow>
        let key = (fl_strategy f, instrument_id (fl_instrument f));
            queue = (case dget queues key of None \<Rightarrow> [] | Some q \<Rightarrow> q); price = float_of (fl_price f)
        in case close_trades (fl_side f) price (float_of (fl_quantity f)) queue of
             (q, new, left) \<Rightarrow>
               (dset key (if 0 < left then q @ [(price, left, fl_side f)] else q) queues, pnls @ new))"

definition trade_pnls :: "fill_event list \<Rightarrow> rat list" where
  "trade_pnls fills = snd (fold count_trade fills ([], []))"

text \<open>The number of round trips and the win rate.\<close>

definition trade_statistics :: "fill_event list \<Rightarrow> nat \<times> rat" where
  "trade_statistics fills =
     (let pnls = trade_pnls fills
      in if pnls = [] then (0, 0)
         else (length pnls, float_of (of_nat (length (filter (\<lambda>p. 0 < p) pnls)) / of_nat (length pnls))))"

subsection \<open>The report\<close>

record equity_point =
  eq_ts :: timestamp
  eq_total :: rat
  eq_realized :: rat
  eq_unrealized :: rat
  eq_gross :: rat
  eq_net :: rat

record backtest_report =
  br_fills :: "fill_event list"
  br_points :: "equity_point list"

definition report_init :: backtest_report where
  "report_init = \<lparr>br_fills = [], br_points = []\<rparr>"

definition record_report_fill :: "event \<Rightarrow> backtest_report \<Rightarrow> backtest_report" where
  "record_report_fill e r = (case e of EvFill f \<Rightarrow> r\<lparr>br_fills := br_fills r @ [f]\<rparr> | _ \<Rightarrow> r)"

definition record_pnl_snapshot :: "event \<Rightarrow> backtest_report \<Rightarrow> backtest_report" where
  "record_pnl_snapshot e r =
     (case e of
        EvPnL x \<Rightarrow>
          r\<lparr>br_points := br_points r @
              [\<lparr>eq_ts = ts_event x, eq_total = float_of (ps_total x), eq_realized = float_of (ps_realized x),
                eq_unrealized = float_of (ps_unrealized x), eq_gross = float_of (ps_gross x),
                eq_net = float_of (ps_net x)\<rparr>]\<rparr>
      | _ \<Rightarrow> r)"

definition equity_curve :: "rat \<Rightarrow> backtest_report \<Rightarrow> rat list" where
  "equity_curve initial_equity r =
     (let curve = map (\<lambda>p. float_of (initial_equity + eq_total p)) (br_points r)
      in if curve \<noteq> [] \<and> hd curve \<noteq> initial_equity then initial_equity # curve else curve)"

record performance =
  pf_total_return :: rat
  pf_max_drawdown :: rat
  pf_max_drawdown_pct :: rat
  pf_num_trades :: nat
  pf_win_rate :: rat

definition compute_metrics :: "rat list \<Rightarrow> fill_event list \<Rightarrow> performance" where
  "compute_metrics curve fills =
     (if curve = []
      then \<lparr>pf_total_return = 0, pf_max_drawdown = 0, pf_max_drawdown_pct = 0, pf_num_trades = 0, pf_win_rate = 0\<rparr>
      else
        \<lparr>pf_total_return = (if hd curve \<noteq> 0 then float_of (float_of (last curve - hd curve) / hd curve) else 0),
         pf_max_drawdown = fst (max_drawdown curve), pf_max_drawdown_pct = snd (max_drawdown curve),
         pf_num_trades = fst (trade_statistics fills), pf_win_rate = snd (trade_statistics fills)\<rparr>)"

definition finalize_report :: "rat \<Rightarrow> backtest_report \<Rightarrow> performance" where
  "finalize_report initial_equity r = compute_metrics (equity_curve initial_equity r) (br_fills r)"

subsection \<open>What the source yields is in time order\<close>

lemma csv_load_order:
  assumes "csv_load ins c trades src mult l rows = (es, err)"
  shows "in_time_order es \<and> (\<forall>x. l = Some x \<longrightarrow> es \<noteq> [] \<longrightarrow> x \<le> event_ts (hd es))"
  using assms
proof (induction rows arbitrary: l es err)
  case (Cons row rows)
  show ?case
  proof (cases "csv_time c mult row")
    case (Inr t)
    have ts: "event_ts (bar_tick ins src t x) = t" "event_ts (bar_trade ins src t x y) = t" for x y
      by (simp_all add: event_ts_def bar_tick_def bar_trade_def)
    obtain es1 err1 where l: "csv_load ins c trades src mult (Some t) rows = (es1, err1)" by force
    have a: "in_time_order es1" "es1 \<noteq> [] \<longrightarrow> t \<le> event_ts (hd es1)" using Cons.IH [OF l] by auto
    have b: "in_time_order (e # es1)" if "event_ts e = t" for e
      using a that by (cases es1) simp_all
    then have c: "in_time_order (e # f # es1)" if "event_ts e = t" "event_ts f = t" for e f
      using that by simp
    show ?thesis using Cons.prems Inr l b c ts
      by (auto split: sum.splits if_splits option.splits)
  qed (use Cons.prems in auto)
qed simp

lemma csv_in_order: "in_time_order (fst (csv_source ins c trades src rows))"
  using csv_load_order [of ins c trades src _ None rows]
  by (auto simp: csv_source_def split: option.split) (metis prod.collapse)

definition bar_event :: "instrument \<Rightarrow> string \<Rightarrow> event \<Rightarrow> bool" where
  "bar_event ins src e \<longleftrightarrow>
     (\<exists>t close. e = bar_tick ins src t close \<or> (\<exists>v. 0 < v \<and> e = bar_trade ins src t close v))"

lemma csv_load_bars: "list_all (bar_event ins src) (fst (csv_load ins c trades src mult l rows))"
proof (induction rows arbitrary: l)
  case (Cons row rows)
  have tick: "bar_event ins src (bar_tick ins src t close)" for t close by (auto simp: bar_event_def)
  have trade: "0 < v \<Longrightarrow> bar_event ins src (bar_trade ins src t close v)" for t close v by (auto simp: bar_event_def)
  from Cons [of "Some _"] show ?case
    by (auto simp: tick trade case_prod_beta split: sum.split option.split)
qed simp

text \<open>
  The bars of a file replay causally. For any rows whatever, what the CSV source yields before it
  ends or raises is in time order, the order that the replay needs, each bar with its price between
  the quotes one tick away.
\<close>

theorem csv_source_in_order:
  "in_memory_source (fst (csv_source ins c trades src rows)) = Inr (fst (csv_source ins c trades src rows)) \<and>
   list_all (bar_event ins src) (fst (csv_source ins c trades src rows))"
  using csv_in_order [of ins c trades src rows] csv_load_bars
  by (auto simp: in_memory_source_def csv_source_def split: option.split)

subsection \<open>The drawdown\<close>

text \<open>The losses from any point of the curve to a later one.\<close>

definition losses :: "rat list \<Rightarrow> rat set" where
  "losses equity = {float_of (equity ! i - equity ! j) | i j. i \<le> j \<and> j < length equity}"

definition seen :: "rat \<Rightarrow> rat list \<Rightarrow> nat \<Rightarrow> rat set" where
  "seen m es j = insert m (set (take (Suc j) es))"

lemma drawdown_loop_worst:
  assumes "0 \<le> d"
  shows "d \<le> fst (drawdown_loop m d p es) \<and>
    (\<forall>j < length es. \<forall>x \<in> seen m es j. float_of (x - es ! j) \<le> fst (drawdown_loop m d p es)) \<and>
    (fst (drawdown_loop m d p es) = d \<or>
     (\<exists>j < length es. \<exists>x \<in> seen m es j. fst (drawdown_loop m d p es) = float_of (x - es ! j)))"
  using assms
proof (induction es arbitrary: m d p)
  case (Cons v es)
  define m1 where "m1 = (if m < v then v else m)"
  define d1 where "d1 = max d (float_of (m1 - v))"
  obtain p1 where r: "drawdown_loop m d p (v # es) = drawdown_loop m1 d1 p1 es"
  proof (cases "d < float_of (m1 - v)")
    case True
    then have "d1 = float_of (m1 - v)" by (simp add: d1_def)
    with True that show ?thesis by (simp add: m1_def Let_def del: if_split)
  next
    case False
    then have "d1 = d" by (simp add: d1_def)
    with False that show ?thesis by (simp add: m1_def Let_def del: if_split)
  qed
  let ?r = "fst (drawdown_loop m1 d1 p1 es)"
  have "0 \<le> d1" using Cons.prems by (simp add: d1_def)
  note IH = Cons.IH [OF this, of m1 p1]
  have m1: "m \<le> m1" "v \<le> m1" "m1 \<in> {m, v}" by (auto simp: m1_def)
  have mono: "float_of (x - y) \<le> float_of (m1 - y)" if "x \<in> {m, v}" for x y
    using that m1 by (intro float_of_mono) auto
  have first: "float_of (x - v) \<le> ?r" if "x \<in> {m, v}" for x
    using mono [OF that, of v] IH unfolding d1_def by linarith
  have rest: "float_of (x - es ! j) \<le> ?r" if "j < length es" "x \<in> seen m (v # es) (Suc j)" for x j
  proof (cases "x \<in> {m, v}")
    case True
    have "float_of (m1 - es ! j) \<le> ?r" using IH that(1) by (auto simp: seen_def)
    with mono [OF True, of "es ! j"] show ?thesis by linarith
  next
    case False
    with that IH show ?thesis by (auto simp: seen_def)
  qed
  have bound: "float_of (x - (v # es) ! j) \<le> ?r" if "j < length (v # es)" "x \<in> seen m (v # es) j" for j x
    using that first rest by (cases j) (auto simp: seen_def)
  have reach: "?r = d \<or> (\<exists>j < length (v # es). \<exists>x \<in> seen m (v # es) j. ?r = float_of (x - (v # es) ! j))"
  proof (cases "?r = d1")
    case True
    show ?thesis
    proof (cases "d1 = d")
      case False
      then have "d1 = float_of (m1 - v)" by (simp add: d1_def max_def split: if_splits)
      with True m1(3) show ?thesis by (intro disjI2 exI [of _ 0]) (auto simp: seen_def)
    qed (use True in simp)
  next
    case False
    with IH obtain j x where j: "j < length es" "x \<in> seen m1 es j" "?r = float_of (x - es ! j)" by blast
    with m1(3) have "x \<in> seen m (v # es) (Suc j)" by (auto simp: seen_def)
    with j show ?thesis by (intro disjI2 exI [of _ "Suc j"]) auto
  qed
  have "d \<le> ?r" using IH by (simp add: d1_def)
  with bound reach show ?case unfolding r by blast
qed simp

text \<open>
  C40: The drawdown of the report is the worst loss. The single pass over the equity curve, which keeps
  the highest value so far, finds the largest of all losses from a point of the curve to a later one,
  each rounded to a float, for every curve.
\<close>

theorem max_drawdown_is_worst_loss:
  assumes "equity \<noteq> []"
  shows "fst (max_drawdown equity) = Max (losses equity)"
proof (rule sym, rule Max_eqI)
  obtain e es where eq: "equity = e # es" using assms by (cases equity) auto
  then have r: "max_drawdown equity = drawdown_loop e 0 0 equity" by (simp add: max_drawdown_def)
  have hd: "insert e (set (take (Suc j) equity)) = set (take (Suc j) equity)" for j by (auto simp: eq)
  note w = drawdown_loop_worst [of 0 e 0 equity, folded r, unfolded seen_def hd, OF order_refl]
  have "losses equity = (\<lambda>(i, j). float_of (equity ! i - equity ! j)) `
      {(i, j). i \<le> j \<and> j < length equity}" by (auto simp: losses_def)
  moreover have "{(i, j). i \<le> j \<and> j < length equity} \<subseteq> {..< length equity} \<times> {..< length equity}" by auto
  then have "finite {(i, j). i \<le> j \<and> j < length equity}" by (rule finite_subset) simp
  ultimately show "finite (losses equity)" by simp
  show "y \<le> fst (max_drawdown equity)" if "y \<in> losses equity" for y
  proof -
    from that obtain i j where y: "y = float_of (equity ! i - equity ! j)" "i \<le> j" "j < length equity"
      by (auto simp: losses_def)
    have "equity ! i \<in> set (take (Suc j) equity)"
      using y(2,3) by (auto simp: in_set_conv_nth intro!: exI [of _ i])
    with w y show ?thesis by blast
  qed
  have zero: "0 \<in> losses equity"
    by (auto simp: losses_def eq intro!: exI [of _ 0])
  show "fst (max_drawdown equity) \<in> losses equity"
  proof (cases "fst (max_drawdown equity) = 0")
    case False
    with w obtain j x where j: "j < length equity" "x \<in> set (take (Suc j) equity)"
      "fst (max_drawdown equity) = float_of (x - equity ! j)" by blast
    then obtain i where "x = equity ! i" "i \<le> j" by (auto simp: in_set_conv_nth less_Suc_eq_le)
    with j show ?thesis by (auto simp: losses_def)
  qed (use zero in simp)
qed

theorem max_drawdown_is_worst_loss_witness:
  "fst (max_drawdown [100, 110, 95, 120, 117]) = Max (losses [100, 110, 95, 120, 117])"
  using max_drawdown_is_worst_loss [of "[100, 110, 95, 120, 117]"] by simp

end
