(* ===== verification/Strategy_Registry.thy ===== *)
theory Strategy_Registry
  imports Position_Engine
begin

text \<open>
  \<open>strategy/base.py\<close>, \<open>strategy/context.py\<close> and \<open>strategy/registry.py\<close>: the interface of a strategy and
  the registry, which hands every strategy the events of its instruments and publishes the signals it
  returns. A strategy is its state \<open>'s\<close>; its class is the record of its handlers, each a function of
  the event, the context and the state to the new state and to the signals, or to the exception it
  raises. Handlers do not suspend, so a dispatch is atomic. The UUIDs drawn while a handler runs come
  from a source of the context. \<open>rg_sent\<close> is a history variable of what the bus has taken.
\<close>

subsection \<open>Strategies and their context\<close>

type_synonym parameters = "(string, string) dict"
type_synonym portfolio = "instrument \<Rightarrow> strategy_id \<Rightarrow> position option"

record strategy_context =
  cx_strategy :: strategy_id
  cx_now :: timestamp
  cx_portfolio :: portfolio
  cx_parameters :: parameters
  cx_uuid :: "nat \<Rightarrow> uuid"

definition get_param :: "string \<Rightarrow> string \<Rightarrow> strategy_context \<Rightarrow> string" where
  "get_param key fallback cx = (case dget (cx_parameters cx) key of None \<Rightarrow> fallback | Some v \<Rightarrow> v)"

type_synonym static_view = "(strategy_id \<times> instrument, position) dict"

definition static_position :: "static_view \<Rightarrow> portfolio" where
  "static_position v ins sid = dget v (sid, ins)"

definition static_positions :: "static_view \<Rightarrow> strategy_id \<Rightarrow> (instrument, position) dict" where
  "static_positions v sid =
     fold (\<lambda>((k, ins), p) out. if k = sid \<and> \<not> is_flat p then dset ins p out else out) v []"

definition set_position :: "position \<Rightarrow> static_view \<Rightarrow> static_view" where
  "set_position p v = dset (po_strategy p, po_instrument p) p v"

type_synonym ('s, 'e) handler =
  "'e \<Rightarrow> strategy_context \<Rightarrow> 's \<Rightarrow> 's \<times> (py_error + signal_event list)"

text \<open>
  The diagnostics of a strategy are a dictionary that need not fit the event made of it, hence the
  inner sum; the method itself can raise too.
\<close>

record 's strategy_class =
  h_start :: "strategy_context \<Rightarrow> 's \<Rightarrow> 's \<times> (py_error + unit)"
  h_stop :: "strategy_context \<Rightarrow> 's \<Rightarrow> 's \<times> (py_error + unit)"
  h_tick :: "('s, tick_event) handler"
  h_trade :: "('s, trade_event) handler"
  h_book :: "('s, order_book_event) handler"
  h_fill :: "('s, fill_event) handler"
  h_position :: "('s, position_update_event) handler"
  h_diagnostics :: "'s \<Rightarrow> py_error + (py_error + diagnostics_event) option"

definition abstract_strategy :: "'s strategy_class" where
  "abstract_strategy =
     \<lparr>h_start = \<lambda>cx x. (x, Inr ()), h_stop = \<lambda>cx x. (x, Inr ()), h_tick = \<lambda>e cx x. (x, Inr []),
      h_trade = \<lambda>e cx x. (x, Inr []), h_book = \<lambda>e cx x. (x, Inr []), h_fill = \<lambda>e cx x. (x, Inr []),
      h_position = \<lambda>e cx x. (x, Inr []), h_diagnostics = \<lambda>x. Inr None\<rparr>"

record 's strategy =
  sy_id :: strategy_id
  sy_instruments :: "instrument list"
  sy_state :: 's

definition trades_instrument :: "instrument \<Rightarrow> 's strategy \<Rightarrow> bool" where
  "trades_instrument ins st \<longleftrightarrow> list_ex (\<lambda>i. instrument_id i = instrument_id ins) (sy_instruments st)"

subsection \<open>The registry\<close>

record 's registry =
  rg_bus :: async_bus
  rg_now :: timestamp
  rg_portfolio :: portfolio
  rg_uuid_src :: "nat \<Rightarrow> nat \<Rightarrow> uuid"
  rg_calls :: nat
  rg_strategies :: "(strategy_id, 's strategy) dict"
  rg_index :: "(string, strategy_id list) dict"
  rg_parameters :: "(strategy_id, parameters) dict"
  rg_paused :: "strategy_id set"
  rg_started :: bool
  rg_tick_map :: "(uuid, timestamp) dict"
  rg_sent :: "(topic \<times> event) list"

type_synonym 's registry_result = "'s registry \<times> (py_error + unit)"

definition signal_map_max :: nat where
  "signal_map_max = 128"

definition registry_init ::
    "async_bus \<Rightarrow> timestamp \<Rightarrow> portfolio \<Rightarrow> (nat \<Rightarrow> nat \<Rightarrow> uuid) \<Rightarrow> 's registry" where
  "registry_init b now view src =
     \<lparr>rg_bus = b, rg_now = now, rg_portfolio = view, rg_uuid_src = src, rg_calls = 0, rg_strategies = [],
      rg_index = [], rg_parameters = [], rg_paused = {}, rg_started = False, rg_tick_map = [], rg_sent = []\<rparr>"

definition index_of :: "string \<Rightarrow> (string, strategy_id list) dict \<Rightarrow> strategy_id list" where
  "index_of iid ix = (case dget ix iid of None \<Rightarrow> [] | Some sids \<Rightarrow> sids)"

definition index_strategy :: "'s strategy \<Rightarrow> (string, strategy_id list) dict \<Rightarrow> (string, strategy_id list) dict" where
  "index_strategy st ix =
     fold (\<lambda>i ix. dset (instrument_id i) (index_of (instrument_id i) ix @ [sy_id st]) ix) (sy_instruments st) ix"

definition register :: "'s strategy \<Rightarrow> parameters \<Rightarrow> 's registry \<Rightarrow> 's registry_result" where
  "register st ps s =
     (if rg_started s then (s, Inl ConfigError)
      else if dget (rg_strategies s) (sy_id st) \<noteq> None then (s, Inl ConfigError)
      else
        (s\<lparr>rg_strategies := dset (sy_id st) st (rg_strategies s),
           rg_parameters := dset (sy_id st) ps (rg_parameters s),
           rg_index := index_strategy st (rg_index s)\<rparr>, Inr ()))"

definition set_parameters :: "strategy_id \<Rightarrow> parameters \<Rightarrow> 's registry \<Rightarrow> 's registry_result" where
  "set_parameters sid ps s =
     (if dget (rg_strategies s) sid = None then (s, Inl KeyError)
      else (s\<lparr>rg_parameters := dset sid ps (rg_parameters s)\<rparr>, Inr ()))"

definition get_strategy :: "strategy_id \<Rightarrow> 's registry \<Rightarrow> py_error + 's strategy" where
  "get_strategy sid s = (case dget (rg_strategies s) sid of None \<Rightarrow> Inl KeyError | Some st \<Rightarrow> Inr st)"

definition pause :: "strategy_id \<Rightarrow> 's registry \<Rightarrow> 's registry_result" where
  "pause sid s =
     (if dget (rg_strategies s) sid = None then (s, Inl KeyError)
      else (s\<lparr>rg_paused := insert sid (rg_paused s)\<rparr>, Inr ()))"

definition resume_strategy :: "strategy_id \<Rightarrow> 's registry \<Rightarrow> 's registry_result" where
  "resume_strategy sid s =
     (if dget (rg_strategies s) sid = None then (s, Inl KeyError)
      else (s\<lparr>rg_paused := rg_paused s - {sid}\<rparr>, Inr ()))"

definition is_paused :: "strategy_id \<Rightarrow> 's registry \<Rightarrow> bool" where
  "is_paused sid s \<longleftrightarrow> sid \<in> rg_paused s"

definition make_context :: "strategy_id \<Rightarrow> 's registry \<Rightarrow> strategy_context" where
  "make_context sid s =
     \<lparr>cx_strategy = sid, cx_now = rg_now s, cx_portfolio = rg_portfolio s,
      cx_parameters = (case dget (rg_parameters s) sid of None \<Rightarrow> [] | Some ps \<Rightarrow> ps),
      cx_uuid = rg_uuid_src s (rg_calls s)\<rparr>"

definition put_state :: "strategy_id \<Rightarrow> 's \<Rightarrow> 's registry \<Rightarrow> 's registry" where
  "put_state sid x s =
     s\<lparr>rg_strategies := dmod sid (\<lambda>st. st\<lparr>sy_state := x\<rparr>) (rg_strategies s), rg_calls := Suc (rg_calls s)\<rparr>"

subsection \<open>Start and stop\<close>

definition subscribe_to :: "topic \<Rightarrow> string \<Rightarrow> 's registry \<Rightarrow> 's registry_result" where
  "subscribe_to t name s =
     (case subscribe t name (rg_bus s) of Inl e \<Rightarrow> (s, Inl e) | Inr b \<Rightarrow> (s\<lparr>rg_bus := b\<rparr>, Inr ()))"

fun start_all :: "'s strategy_class \<Rightarrow> (strategy_id \<times> 's strategy) list \<Rightarrow> 's registry \<Rightarrow> 's registry_result" where
  "start_all c [] s = (s, Inr ())"
| "start_all c ((sid, st) # sts) s =
     (case h_start c (make_context sid s) (sy_state st) of
        (x, Inl e) \<Rightarrow> (put_state sid x s, Inl e)
      | (x, Inr _) \<Rightarrow> start_all c sts (put_state sid x s))"

definition registry_start :: "'s strategy_class \<Rightarrow> 's registry \<Rightarrow> 's registry_result" where
  "registry_start c s =
     (if rg_started s then (s, Inr ())
      else
        and_then (subscribe_to MARKET_DATA ''_handle_market_data'' (s\<lparr>rg_started := True\<rparr>)) (\<lambda>s _.
        and_then (subscribe_to FILLS ''_handle_fill'' s) (\<lambda>s _.
        and_then (subscribe_to POSITIONS ''_handle_position_update'' s) (\<lambda>s _.
          start_all c (rg_strategies s) s))))"

definition stop_one :: "'s strategy_class \<Rightarrow> strategy_id \<times> 's strategy \<Rightarrow> 's registry \<Rightarrow> 's registry" where
  "stop_one c entry s = put_state (fst entry) (fst (h_stop c (make_context (fst entry) s) (sy_state (snd entry)))) s"

definition registry_stop :: "'s strategy_class \<Rightarrow> 's registry \<Rightarrow> 's registry" where
  "registry_stop c s =
     (if \<not> rg_started s then s else (fold (stop_one c) (rg_strategies s) s)\<lparr>rg_started := False\<rparr>)"

subsection \<open>Dispatch\<close>

definition rg_publish :: "topic \<Rightarrow> event \<Rightarrow> 's registry \<Rightarrow> 's registry_result" where
  "rg_publish t e s =
     (case publish t e (rg_bus s) of
        (b, Inl err) \<Rightarrow> (s\<lparr>rg_bus := b\<rparr>, Inl err)
      | (b, Inr _) \<Rightarrow> (s\<lparr>rg_bus := b, rg_sent := rg_sent s @ [(t, e)]\<rparr>, Inr ()))"

definition remember_tick :: "uuid \<Rightarrow> timestamp \<Rightarrow> (uuid, timestamp) dict \<Rightarrow> (uuid, timestamp) dict" where
  "remember_tick i t m = dset i t (if signal_map_max \<le> length m then dpop (fst (hd m)) m else m)"

fun publish_signals :: "timestamp \<Rightarrow> signal_event list \<Rightarrow> 's registry \<Rightarrow> 's registry_result" where
  "publish_signals t [] s = (s, Inr ())"
| "publish_signals t (sg # sgs) s =
     and_then (rg_publish SIGNALS (EvSignal sg) (s\<lparr>rg_tick_map := remember_tick (sig_id sg) t (rg_tick_map s)\<rparr>))
       (\<lambda>s _. publish_signals t sgs s)"

definition publish_diagnostics :: "'s strategy_class \<Rightarrow> 's \<Rightarrow> 's registry \<Rightarrow> 's registry_result" where
  "publish_diagnostics c x s =
     (case h_diagnostics c x of
        Inl e \<Rightarrow> (s, Inl e)
      | Inr (Some (Inr d)) \<Rightarrow> (fst (rg_publish ANALYTICS (EvDiagnostics d) s), Inr ())
      | _ \<Rightarrow> (s, Inr ()))"

definition is_tick :: "event \<Rightarrow> bool" where
  "is_tick e = (case e of EvTick _ \<Rightarrow> True | _ \<Rightarrow> False)"

definition base_ingest :: "event \<Rightarrow> timestamp" where
  "base_ingest e =
     (case e of EvTick x \<Rightarrow> ts_ingest x | EvTrade x \<Rightarrow> ts_ingest x | EvBook x \<Rightarrow> ts_ingest x
      | EvFill x \<Rightarrow> ts_ingest x | EvPosition x \<Rightarrow> ts_ingest x | _ \<Rightarrow> 0)"

text \<open>The handler of a class for an event; the registry passes no others on.\<close>

definition handler_for :: "'s strategy_class \<Rightarrow> event \<Rightarrow> strategy_context \<Rightarrow> 's \<Rightarrow> 's \<times> (py_error + signal_event list)" where
  "handler_for c e =
     (case e of EvTick x \<Rightarrow> h_tick c x | EvTrade x \<Rightarrow> h_trade c x | EvBook x \<Rightarrow> h_book c x
      | EvFill x \<Rightarrow> h_fill c x | EvPosition x \<Rightarrow> h_position c x | _ \<Rightarrow> (\<lambda>cx x. (x, Inr [])))"

definition invoke :: "'s strategy_class \<Rightarrow> event \<Rightarrow> strategy_id \<Rightarrow> 's registry \<Rightarrow> 's registry_result" where
  "invoke c e sid s =
     (if sid \<in> rg_paused s then (s, Inr ())
      else
        case dget (rg_strategies s) sid of
          None \<Rightarrow> (s, Inl KeyError)
        | Some st \<Rightarrow>
            (case handler_for c e (make_context sid s) (sy_state st) of
               (x, Inl _) \<Rightarrow> (put_state sid x s, Inr ())
             | (x, Inr signals) \<Rightarrow>
                 and_then (publish_signals (base_ingest e) signals (put_state sid x s)) (\<lambda>s _.
                   if is_tick e then publish_diagnostics c x s else (s, Inr ()))))"

fun dispatch :: "'s strategy_class \<Rightarrow> event \<Rightarrow> strategy_id list \<Rightarrow> 's registry \<Rightarrow> 's registry_result" where
  "dispatch c e [] s = (s, Inr ())"
| "dispatch c e (sid # sids) s = and_then (invoke c e sid s) (\<lambda>s _. dispatch c e sids s)"

definition dispatch_to_strategy :: "'s strategy_class \<Rightarrow> event \<Rightarrow> strategy_id \<Rightarrow> 's registry \<Rightarrow> 's registry_result" where
  "dispatch_to_strategy c e sid s = (if dget (rg_strategies s) sid \<noteq> None then invoke c e sid s else (s, Inr ()))"

definition rg_handle_market_data :: "'s strategy_class \<Rightarrow> event \<Rightarrow> 's registry \<Rightarrow> 's registry_result" where
  "rg_handle_market_data c e s =
     (case e of
        EvTick x \<Rightarrow> dispatch c e (index_of (instrument_id (tk_instrument x)) (rg_index s)) s
      | EvTrade x \<Rightarrow> dispatch c e (index_of (instrument_id (tr_instrument x)) (rg_index s)) s
      | EvBook x \<Rightarrow> dispatch c e (index_of (instrument_id (ob_instrument x)) (rg_index s)) s
      | _ \<Rightarrow> (s, Inr ()))"

definition rg_handle_fill :: "'s strategy_class \<Rightarrow> event \<Rightarrow> 's registry \<Rightarrow> 's registry_result" where
  "rg_handle_fill c e s = (case e of EvFill f \<Rightarrow> dispatch_to_strategy c e (fl_strategy f) s | _ \<Rightarrow> (s, Inr ()))"

definition rg_handle_position :: "'s strategy_class \<Rightarrow> event \<Rightarrow> 's registry \<Rightarrow> 's registry_result" where
  "rg_handle_position c e s =
     (case e of EvPosition u \<Rightarrow> dispatch_to_strategy c e (pu_strategy u) s | _ \<Rightarrow> (s, Inr ()))"

end
