(* ===== verification/Indicators.thy ===== *)
theory Indicators
  imports Core_Types Floats
begin

text \<open>
  The indicators and filters of \<open>analytics/\<close> that the quoting strategies rest on: microprice, order book
  and order flow imbalance (\<open>microprice.py\<close>, \<open>imbalance.py\<close>), the tick rule and the VPIN
  (\<open>classifiers.py\<close>, \<open>vpin.py\<close>), the exponential average of \<open>strategy/indicator_lib/\<close>, and the
  filters of \<open>quote_filters.py\<close>. All numbers but those of the filters are floats. \<open>sum\<close> of a list of
  floats differs between the supported versions of Python (plain up to 3.11, compensated from 3.12 on)
  and is an argument. The loop of the VPIN need not end and is a partial function.
\<close>

subsection \<open>Quote filters\<close>

definition round_half_up :: "rat \<Rightarrow> int" where
  "round_half_up x = (if x < 0 then - \<lfloor>1 / 2 - x\<rfloor> else \<lfloor>x + 1 / 2\<rfloor>)"

text \<open>\<open>quantize(Decimal("1"))\<close> raises when the integer has more than 28 digits.\<close>

definition quantized :: "int \<Rightarrow> py_error + dec" where
  "quantized n = (if 10 ^ 28 \<le> \<bar>n\<bar> then Inl InvalidOperation else Inr (of_int n))"

definition round_to_tick :: "dec \<Rightarrow> dec \<Rightarrow> py_error + dec" where
  "round_to_tick price tick_size =
     (if tick_size \<le> 0 then Inl ValueError
      else sum_bind (quantized (round_half_up (ddiv price tick_size))) (\<lambda>n. Inr (dmul n tick_size)))"

definition round_to_lot :: "dec \<Rightarrow> dec \<Rightarrow> py_error + dec" where
  "round_to_lot qty lot_size =
     (if lot_size \<le> 0 then Inl ValueError
      else sum_bind (quantized (trunc (ddiv qty lot_size))) (\<lambda>n. Inr (dmul n lot_size)))"

definition passes_min_notional :: "dec \<Rightarrow> dec \<Rightarrow> dec \<Rightarrow> bool" where
  "passes_min_notional price qty min_notional \<longleftrightarrow> min_notional \<le> dmul price qty"

definition post_only_guard :: "side \<Rightarrow> dec \<Rightarrow> dec \<Rightarrow> dec \<Rightarrow> bool" where
  "post_only_guard sd our_price best_bid best_ask =
     (case sd of BUY \<Rightarrow> our_price < best_ask | SELL \<Rightarrow> best_bid < our_price)"

subsection \<open>Microprice and imbalance\<close>

definition microprice_update :: "rat \<Rightarrow> rat \<Rightarrow> rat \<Rightarrow> rat \<Rightarrow> rat option \<Rightarrow> rat option" where
  "microprice_update bid bid_size ask ask_size last_value =
     (let total = float_of (bid_size + ask_size)
      in if total \<le> 0 then last_value
         else Some (float_of (float_of (float_of (bid * ask_size) + float_of (ask * bid_size)) / total)))"

definition obi_update :: "rat \<Rightarrow> rat \<Rightarrow> rat option \<Rightarrow> rat option" where
  "obi_update bid_size ask_size last_value =
     (let total = float_of (bid_size + ask_size)
      in if total \<le> 0 then last_value else Some (float_of (float_of (bid_size - ask_size) / total)))"

record ofi =
  of_window_ns :: int
  of_events :: "(timestamp \<times> rat) list"
  of_sum :: rat
  of_prev :: "(rat \<times> rat) option"
  of_last :: "rat option"

definition ofi_init :: "rat \<Rightarrow> py_error + ofi" where
  "ofi_init window_seconds =
     (if window_seconds \<le> 0 then Inl ValueError
      else Inr \<lparr>of_window_ns = seconds_to_ns window_seconds, of_events = [], of_sum = 0, of_prev = None, of_last = None\<rparr>)"

text \<open>The signed change of one update; the previous prices are set together.\<close>

definition ofi_delta :: "rat \<times> rat \<Rightarrow> rat \<Rightarrow> rat \<Rightarrow> rat \<Rightarrow> rat \<Rightarrow> rat" where
  "ofi_delta prev bid bid_size ask ask_size =
     (let delta = (if fst prev < bid then bid_size else if bid < fst prev then - bid_size else 0)
      in if snd prev < ask then float_of (delta - ask_size)
         else if ask < snd prev then float_of (delta + ask_size) else delta)"

fun ofi_evict :: "timestamp \<Rightarrow> (timestamp \<times> rat) list \<Rightarrow> rat \<Rightarrow> (timestamp \<times> rat) list \<times> rat" where
  "ofi_evict cutoff [] running = ([], running)"
| "ofi_evict cutoff ((t, d) # events) running =
     (if t < cutoff then ofi_evict cutoff events (float_of (running - d)) else ((t, d) # events, running))"

definition ofi_update :: "rat \<Rightarrow> rat \<Rightarrow> rat \<Rightarrow> rat \<Rightarrow> timestamp \<Rightarrow> ofi \<Rightarrow> ofi" where
  "ofi_update bid bid_size ask ask_size ts_ns s =
     (let s1 = (case of_prev s of
                  None \<Rightarrow> s
                | Some prev \<Rightarrow>
                    let delta = ofi_delta prev bid bid_size ask ask_size
                    in s\<lparr>of_events := of_events s @ [(ts_ns, delta)], of_sum := float_of (of_sum s + delta)\<rparr>)
      in case ofi_evict (ts_ns - of_window_ns s) (of_events s1) (of_sum s1) of
           (events, running) \<Rightarrow>
             s1\<lparr>of_prev := Some (bid, ask), of_events := events, of_sum := running,
                of_last := (if events = [] then of_last s else Some running)\<rparr>)"

subsection \<open>The exponential average\<close>

record ema =
  em_period :: int
  em_alpha :: rat
  em_count :: int
  em_value :: "rat option"

definition ema_init :: "int \<Rightarrow> py_error + ema" where
  "ema_init period =
     (if period \<le> 0 then Inl ValueError
      else Inr \<lparr>em_period = period, em_alpha = float_of (2 / of_int (period + 1)), em_count = 0, em_value = None\<rparr>)"

definition ema_is_ready :: "ema \<Rightarrow> bool" where
  "ema_is_ready s \<longleftrightarrow> em_period s \<le> em_count s"

definition ema_update :: "rat \<Rightarrow> ema \<Rightarrow> ema" where
  "ema_update x s =
     s\<lparr>em_count := em_count s + 1,
       em_value := Some (case em_value s of
         None \<Rightarrow> x
       | Some v \<Rightarrow> float_of (float_of (em_alpha s * x) + float_of (float_of (1 - em_alpha s) * v)))\<rparr>"

subsection \<open>Trade classification and VPIN\<close>

text \<open>A classifier turns price and volume into the volumes bought and sold.\<close>

type_synonym 'c classifier = "rat \<Rightarrow> rat \<Rightarrow> 'c \<Rightarrow> 'c \<times> rat \<times> rat"

record tick_rule =
  tr_prev_price :: "rat option"
  tr_last_side :: rat

definition tick_rule_init :: tick_rule where
  "tick_rule_init = \<lparr>tr_prev_price = None, tr_last_side = 1 / 2\<rparr>"

definition tick_rule_classify :: "tick_rule classifier" where
  "tick_rule_classify price volume s =
     (case tr_prev_price s of
        None \<Rightarrow> (s\<lparr>tr_prev_price := Some price\<rparr>, float_of (volume / 2), float_of (volume / 2))
      | Some prev \<Rightarrow>
          let frac = (if prev < price then 1 else if price < prev then 0 else tr_last_side s)
          in (s\<lparr>tr_prev_price := Some price, tr_last_side := frac\<rparr>,
              float_of (volume * frac), float_of (volume * float_of (1 - frac))))"

record 'c vpin =
  vn_bucket_volume :: rat
  vn_rolling :: nat
  vn_classifier :: 'c
  vn_buy :: rat
  vn_sell :: rat
  vn_filled :: rat
  vn_history :: "rat list"
  vn_last :: "rat option"

definition vpin_new :: "rat \<Rightarrow> nat \<Rightarrow> 'c \<Rightarrow> py_error + 'c vpin" where
  "vpin_new bucket_volume rolling_buckets c =
     (if bucket_volume \<le> 0 \<or> rolling_buckets < 1 then Inl ValueError
      else Inr \<lparr>vn_bucket_volume = bucket_volume, vn_rolling = rolling_buckets, vn_classifier = c, vn_buy = 0,
                vn_sell = 0, vn_filled = 0, vn_history = [], vn_last = None\<rparr>)"

definition vpin_is_ready :: "'c vpin \<Rightarrow> bool" where
  "vpin_is_ready s \<longleftrightarrow> length (vn_history s) = vn_rolling s"

text \<open>A deque of bounded length.\<close>

definition push_bounded :: "nat \<Rightarrow> 'a \<Rightarrow> 'a list \<Rightarrow> 'a list" where
  "push_bounded n x xs = drop (length xs + 1 - n) (xs @ [x])"

definition vpin_chunk :: "'c classifier \<Rightarrow> rat \<Rightarrow> rat \<Rightarrow> 'c vpin \<Rightarrow> 'c vpin" where
  "vpin_chunk classify price chunk s =
     (case classify price chunk (vn_classifier s) of
        (c, bought, sold) \<Rightarrow>
          s\<lparr>vn_classifier := c, vn_buy := float_of (vn_buy s + bought), vn_sell := float_of (vn_sell s + sold),
            vn_filled := float_of (vn_filled s + chunk)\<rparr>)"

definition vpin_close :: "'c vpin \<Rightarrow> 'c vpin" where
  "vpin_close s =
     (if vn_filled s < vn_bucket_volume s then s
      else
        let toxicity = float_of (\<bar>float_of (vn_buy s - vn_sell s)\<bar> / vn_bucket_volume s)
        in s\<lparr>vn_history := push_bounded (vn_rolling s) toxicity (vn_history s),
             vn_buy := 0, vn_sell := 0, vn_filled := 0\<rparr>)"

partial_function (option) vpin_loop :: "'c classifier \<Rightarrow> rat \<Rightarrow> rat \<Rightarrow> 'c vpin \<Rightarrow> 'c vpin option" where
  "vpin_loop classify price remaining s =
     (if remaining \<le> 0 then Some s
      else
        let chunk = min remaining (float_of (vn_bucket_volume s - vn_filled s))
        in vpin_loop classify price (float_of (remaining - chunk)) (vpin_close (vpin_chunk classify price chunk s)))"

definition vpin_update :: "(rat list \<Rightarrow> rat) \<Rightarrow> 'c classifier \<Rightarrow> rat \<Rightarrow> rat \<Rightarrow> 'c vpin \<Rightarrow> 'c vpin option" where
  "vpin_update fsum classify price volume s =
     map_option (\<lambda>s1.
       if vn_history s1 = [] then s1
       else s1\<lparr>vn_last := Some (float_of (fsum (vn_history s1) / of_nat (length (vn_history s1))))\<rparr>)
       (vpin_loop classify price volume s)"

end
