(* ===== verification/Quoting.thy ===== *)
theory Quoting
  imports Strategy_Registry Indicators Json
begin

text \<open>
  The example strategies of \<open>strategy/examples/\<close>: the market makers (\<open>market_making.py\<close>,
  \<open>microprice_mm.py\<close>, \<open>grid.py\<close>, \<open>obi_alpha.py\<close>) and the two that take (\<open>ping_pong.py\<close>,
  \<open>momentum.py\<close>), each as a record of its fields, its constructor and its tick handler. The fill
  handlers only log. A handler returns the state it leaves also when it raises. Parameters are the
  strings of the configuration.
\<close>

text \<open>\<open>Decimal(str(x))\<close> of any float.\<close>

definition float_dec :: "rat \<Rightarrow> dec" where
  "float_dec x = (if x < 0 then - float_text (- x) else float_text x)"

definition option_err :: "'a option \<Rightarrow> py_error + 'a" where
  "option_err m = (case m of None \<Rightarrow> Inl InvalidOperation | Some x \<Rightarrow> Inr x)"

subsection \<open>What the quoting strategies share\<close>

text \<open>The two gates of a new quote: the time since the last one and the move of the price.\<close>

definition should_requote ::
    "int \<Rightarrow> rat \<Rightarrow> (string, timestamp) dict \<Rightarrow> (string, dec) dict \<Rightarrow> string \<Rightarrow> dec \<Rightarrow> timestamp \<Rightarrow> bool" where
  "should_requote interval_ns threshold last_ns last_price iid price now =
     (if 0 < interval_ns \<and> now - (case dget last_ns iid of None \<Rightarrow> 0 | Some t \<Rightarrow> t) < interval_ns then False
      else if 0 < threshold then
        (case dget last_price iid of
           None \<Rightarrow> True
         | Some p \<Rightarrow> \<not> (0 < p \<and> ddiv (dabs (dsub price p)) p < float_dec threshold))
      else True)"

definition inventory_of :: "instrument \<Rightarrow> strategy_context \<Rightarrow> dec" where
  "inventory_of ins cx = (case cx_portfolio cx ins (cx_strategy cx) of None \<Rightarrow> 0 | Some p \<Rightarrow> po_quantity p)"

definition skew_ratio :: "dec \<Rightarrow> dec \<Rightarrow> rat" where
  "skew_ratio inventory max_position = max (- 1) (min 1 (float_of (ddiv (dneg inventory) max_position)))"

definition quote_leg :: "strategy_context \<Rightarrow> nat \<Rightarrow> side \<Rightarrow> dec \<Rightarrow> dec \<Rightarrow> order_leg" where
  "quote_leg cx n sd price qty =
     \<lparr>leg_id = uuid_hex12 (cx_uuid cx n), leg_side = sd, leg_quantity = qty, leg_price = Some price,
      leg_type = OT_POST_ONLY, leg_tif = TIF_GTC, leg_intent = PASSIVE\<rparr>"

definition market_leg :: "strategy_context \<Rightarrow> side \<Rightarrow> dec \<Rightarrow> order_leg" where
  "market_leg cx sd qty =
     \<lparr>leg_id = uuid_hex12 (cx_uuid cx 0), leg_side = sd, leg_quantity = qty, leg_price = None,
      leg_type = OT_MARKET, leg_tif = TIF_IOC, leg_intent = PASSIVE\<rparr>"

definition make_signal :: "tick_event \<Rightarrow> strategy_context \<Rightarrow> order_leg list \<Rightarrow> string \<Rightarrow> signal_event" where
  "make_signal ev cx legs why =
     \<lparr>ts_event = ts_event ev, ts_ingest = cx_now cx, source = ''strategy:'' @ cx_strategy cx,
      sig_id = cx_uuid cx (length legs), sig_strategy = cx_strategy cx, sig_instrument = tk_instrument ev,
      sig_legs = legs, sig_atomic = False, sig_rationale = why\<rparr>"

subsection \<open>Two-sided quoting around a fair value\<close>

record two_sided =
  ts_quote_size :: dec
  ts_half_spread :: rat
  ts_max_position :: dec
  ts_skew_frac :: rat
  ts_interval_ns :: int
  ts_threshold :: rat
  ts_last_ns :: "(string, timestamp) dict"
  ts_last_price :: "(string, dec) dict"

record microprice_mm = two_sided +
  mp_micro :: "rat option"

definition bps :: "rat \<Rightarrow> rat" where
  "bps x = float_of (x / 10000)"

definition market_making_init :: "dec \<Rightarrow> rat \<Rightarrow> dec \<Rightarrow> rat \<Rightarrow> rat \<Rightarrow> rat \<Rightarrow> py_error + two_sided" where
  "market_making_init quote_size spread_bps max_position skew_bps interval_s threshold_bps =
     (if max_position \<le> 0 \<or> quote_size \<le> 0 \<or> interval_s < 0 \<or> threshold_bps < 0 then Inl ValueError
      else Inr \<lparr>ts_quote_size = quote_size, ts_half_spread = bps (float_of (spread_bps / 2)),
                ts_max_position = max_position, ts_skew_frac = bps skew_bps, ts_interval_ns = seconds_to_ns interval_s,
                ts_threshold = bps threshold_bps, ts_last_ns = [], ts_last_price = []\<rparr>)"

definition microprice_mm_init :: "dec \<Rightarrow> rat \<Rightarrow> dec \<Rightarrow> rat \<Rightarrow> rat \<Rightarrow> rat \<Rightarrow> py_error + microprice_mm" where
  "microprice_mm_init quote_size spread_bps max_position skew_bps interval_s threshold_bps =
     (if max_position \<le> 0 \<or> quote_size \<le> 0 \<or> interval_s < 0 \<or> threshold_bps < 0 then Inl ValueError
      else Inr \<lparr>ts_quote_size = quote_size, ts_half_spread = bps (float_of (spread_bps / 2)),
                ts_max_position = max_position, ts_skew_frac = bps skew_bps, ts_interval_ns = seconds_to_ns interval_s,
                ts_threshold = bps threshold_bps, ts_last_ns = [], ts_last_price = [], mp_micro = None\<rparr>)"

definition ts_should_requote :: "string \<Rightarrow> dec \<Rightarrow> timestamp \<Rightarrow> 'a two_sided_scheme \<Rightarrow> bool" where
  "ts_should_requote iid price now s =
     should_requote (ts_interval_ns s) (ts_threshold s) (ts_last_ns s) (ts_last_price s) iid price now"

definition two_sided_legs :: "tick_event \<Rightarrow> strategy_context \<Rightarrow> dec \<Rightarrow> 'a two_sided_scheme \<Rightarrow> py_error + order_leg list" where
  "two_sided_legs ev cx fv s =
     (let ins = tk_instrument ev; inventory = inventory_of ins cx;
          half_spread = dmul (float_dec (ts_half_spread s)) fv;
          skew = dmul (float_dec (float_of (skew_ratio inventory (ts_max_position s) * ts_skew_frac s))) fv
      in sum_bind (option_err (round_price ins (dadd (dsub fv half_spread) skew))) (\<lambda>bid_price.
         sum_bind (option_err (round_price ins (dadd (dadd fv half_spread) skew))) (\<lambda>ask_price.
           let legs = (if inventory < ts_max_position s then [quote_leg cx 0 BUY bid_price (ts_quote_size s)] else [])
           in Inr (legs @ (if dneg (ts_max_position s) < inventory
                           then [quote_leg cx (length legs) SELL ask_price (ts_quote_size s)] else [])))))"

definition two_sided_quote ::
    "string \<Rightarrow> tick_event \<Rightarrow> strategy_context \<Rightarrow> dec \<Rightarrow> 'a two_sided_scheme \<Rightarrow>
     'a two_sided_scheme \<times> (py_error + signal_event list)" where
  "two_sided_quote why ev cx fv s =
     (let iid = instrument_id (tk_instrument ev)
      in if \<not> ts_should_requote iid fv (cx_now cx) s then (s, Inr [])
         else case two_sided_legs ev cx fv s of
                Inl e \<Rightarrow> (s, Inl e)
              | Inr legs \<Rightarrow>
                  (s\<lparr>ts_last_ns := dset iid (cx_now cx) (ts_last_ns s), ts_last_price := dset iid fv (ts_last_price s)\<rparr>,
                   Inr [make_signal ev cx legs why]))"

definition market_making_on_tick :: "(two_sided, tick_event) handler" where
  "market_making_on_tick ev cx s = two_sided_quote ''market-make'' ev cx (tick_mid ev) s"

definition tick_microprice :: "tick_event \<Rightarrow> rat option \<Rightarrow> rat option" where
  "tick_microprice ev last_value =
     microprice_update (float_of (tk_bid_price ev)) (float_of (tk_bid_size ev)) (float_of (tk_ask_price ev))
       (float_of (tk_ask_size ev)) last_value"

definition microprice_mm_on_tick :: "(microprice_mm, tick_event) handler" where
  "microprice_mm_on_tick ev cx s =
     (let micro = tick_microprice ev (mp_micro s)
      in two_sided_quote ''microprice-mm'' ev cx
           (case micro of None \<Rightarrow> tick_mid ev | Some m \<Rightarrow> float_dec m) (s\<lparr>mp_micro := micro\<rparr>))"

subsection \<open>The grid\<close>

record grid =
  gr_quote_size :: dec
  gr_n_levels :: nat
  gr_step_frac :: rat
  gr_max_position :: dec
  gr_skew_frac :: rat
  gr_use_microprice :: bool
  gr_interval_ns :: int
  gr_threshold :: rat
  gr_micro :: "rat option"
  gr_last_ns :: "(string, timestamp) dict"
  gr_last_center :: "(string, dec) dict"

definition grid_init :: "dec \<Rightarrow> int \<Rightarrow> rat \<Rightarrow> dec \<Rightarrow> rat \<Rightarrow> bool \<Rightarrow> rat \<Rightarrow> rat \<Rightarrow> py_error + grid" where
  "grid_init quote_size n_levels step_bps max_position skew_bps use_micro interval_s threshold_bps =
     (if max_position \<le> 0 \<or> quote_size \<le> 0 \<or> n_levels < 1 \<or> step_bps \<le> 0 \<or> interval_s < 0 \<or> threshold_bps < 0
      then Inl ValueError
      else Inr \<lparr>gr_quote_size = quote_size, gr_n_levels = nat n_levels, gr_step_frac = bps step_bps,
                gr_max_position = max_position, gr_skew_frac = bps skew_bps, gr_use_microprice = use_micro,
                gr_interval_ns = seconds_to_ns interval_s, gr_threshold = bps threshold_bps, gr_micro = None,
                gr_last_ns = [], gr_last_center = []\<rparr>)"

text \<open>One leg of the ladder, if its side is open and the price does not cross.\<close>

definition add_quote ::
    "tick_event \<Rightarrow> strategy_context \<Rightarrow> dec \<Rightarrow> bool \<Rightarrow> side \<Rightarrow> dec \<Rightarrow> order_leg list \<Rightarrow> py_error + order_leg list" where
  "add_quote ev cx qty side_open sd price legs =
     (if \<not> side_open then Inr legs
      else sum_bind (option_err (round_price (tk_instrument ev) price)) (\<lambda>p.
        Inr (if post_only_guard sd p (tk_bid_price ev) (tk_ask_price ev)
             then legs @ [quote_leg cx (length legs) sd p qty] else legs)))"

definition grid_level ::
    "tick_event \<Rightarrow> strategy_context \<Rightarrow> dec \<Rightarrow> dec \<Rightarrow> grid \<Rightarrow> nat \<Rightarrow> order_leg list \<Rightarrow> py_error + order_leg list" where
  "grid_level ev cx center skew s i legs =
     (let inventory = inventory_of (tk_instrument ev) cx;
          offset = dmul (dmul center (float_dec (gr_step_frac s))) (of_nat i)
      in sum_bind (add_quote ev cx (gr_quote_size s) (inventory < gr_max_position s) BUY (dadd (dsub center offset) skew) legs)
           (add_quote ev cx (gr_quote_size s) (dneg (gr_max_position s) < inventory) SELL (dadd (dadd center offset) skew)))"

fun grid_levels ::
    "tick_event \<Rightarrow> strategy_context \<Rightarrow> dec \<Rightarrow> dec \<Rightarrow> grid \<Rightarrow> nat list \<Rightarrow> order_leg list \<Rightarrow> py_error + order_leg list" where
  "grid_levels ev cx center skew s [] legs = Inr legs"
| "grid_levels ev cx center skew s (i # is) legs =
     sum_bind (grid_level ev cx center skew s i legs) (grid_levels ev cx center skew s is)"

definition grid_should_requote :: "string \<Rightarrow> dec \<Rightarrow> timestamp \<Rightarrow> grid \<Rightarrow> bool" where
  "grid_should_requote iid center now s =
     should_requote (gr_interval_ns s) (gr_threshold s) (gr_last_ns s) (gr_last_center s) iid center now"

definition grid_on_tick :: "(grid, tick_event) handler" where
  "grid_on_tick ev cx s =
     (let ins = tk_instrument ev; iid = instrument_id ins;
          micro = (if gr_use_microprice s then tick_microprice ev (gr_micro s) else gr_micro s); s1 = s\<lparr>gr_micro := micro\<rparr>;
          center = (if gr_use_microprice s then (case micro of None \<Rightarrow> tick_mid ev | Some m \<Rightarrow> float_dec m) else tick_mid ev)
      in if \<not> grid_should_requote iid center (cx_now cx) s1 then (s1, Inr [])
         else
           let ratio = skew_ratio (inventory_of ins cx) (gr_max_position s);
               skew = dmul (float_dec (float_of (ratio * gr_skew_frac s))) center
           in case grid_levels ev cx center skew s1 [1 ..< Suc (gr_n_levels s)] [] of
                Inl e \<Rightarrow> (s1, Inl e)
              | Inr legs \<Rightarrow>
                  (s1\<lparr>gr_last_ns := dset iid (cx_now cx) (gr_last_ns s), gr_last_center := dset iid center (gr_last_center s)\<rparr>,
                   Inr (if legs = [] then [] else [make_signal ev cx legs ''grid''])))"

subsection \<open>Quoting with an order flow signal\<close>

record obi_alpha =
  oa_quote_size :: dec
  oa_half_spread :: rat
  oa_max_position :: dec
  oa_skew_frac :: rat
  oa_obi_alpha :: rat
  oa_ofi_alpha :: rat
  oa_window :: rat
  oa_min_ticks :: int
  oa_micro :: "rat option"
  oa_obi :: "rat option"
  oa_ofi :: "ofi option"
  oa_last_bid :: "dec option"
  oa_last_ask :: "dec option"

definition obi_alpha_init :: "dec \<Rightarrow> rat \<Rightarrow> dec \<Rightarrow> rat \<Rightarrow> rat \<Rightarrow> rat \<Rightarrow> rat \<Rightarrow> int \<Rightarrow> py_error + obi_alpha" where
  "obi_alpha_init quote_size spread_bps max_position skew_bps a b window min_ticks =
     (if max_position \<le> 0 \<or> quote_size \<le> 0 then Inl ValueError
      else Inr \<lparr>oa_quote_size = quote_size, oa_half_spread = bps (float_of (spread_bps / 2)),
                oa_max_position = max_position, oa_skew_frac = bps skew_bps, oa_obi_alpha = a, oa_ofi_alpha = b,
                oa_window = window, oa_min_ticks = min_ticks, oa_micro = None, oa_obi = None, oa_ofi = None,
                oa_last_bid = None, oa_last_ask = None\<rparr>)"

text \<open>The price of the last quote is kept until the new one has moved far enough.\<close>

definition held_price :: "dec \<Rightarrow> dec \<Rightarrow> dec option \<Rightarrow> dec" where
  "held_price min_move price last_price =
     (case last_price of None \<Rightarrow> price | Some p \<Rightarrow> if min_move \<le> dabs (dsub price p) then price else p)"

definition obi_fair_value :: "rat \<Rightarrow> obi_alpha \<Rightarrow> dec" where
  "obi_fair_value micro s =
     (let obi_val = (case oa_obi s of None \<Rightarrow> 0 | Some v \<Rightarrow> v);
          ofi_val = (case oa_ofi s of None \<Rightarrow> 0 | Some o1 \<Rightarrow> (case of_last o1 of None \<Rightarrow> 0 | Some v \<Rightarrow> v))
      in float_dec (float_of (float_of (micro + float_of (oa_obi_alpha s * obi_val)) + float_of (oa_ofi_alpha s * ofi_val))))"

text \<open>The two prices, rounded and held.\<close>

definition obi_prices :: "tick_event \<Rightarrow> strategy_context \<Rightarrow> rat \<Rightarrow> obi_alpha \<Rightarrow> py_error + dec \<times> dec" where
  "obi_prices ev cx micro s =
     (let ins = tk_instrument ev; fv = obi_fair_value micro s;
          skew = dmul (float_dec (float_of (skew_ratio (inventory_of ins cx) (oa_max_position s) * oa_skew_frac s))) fv;
          half_spread = dmul (float_dec (oa_half_spread s)) fv;
          min_move = dmul (i_tick_size ins) (of_int (oa_min_ticks s))
      in sum_bind (round_to_tick (dadd (dsub fv half_spread) skew) (i_tick_size ins)) (\<lambda>bid_price.
         sum_bind (round_to_tick (dadd (dadd fv half_spread) skew) (i_tick_size ins)) (\<lambda>ask_price.
           Inr (held_price min_move bid_price (oa_last_bid s), held_price min_move ask_price (oa_last_ask s)))))"

text \<open>The indicators of a tick, in the order of their updates.\<close>

definition obi_observe :: "tick_event \<Rightarrow> ofi \<Rightarrow> obi_alpha \<Rightarrow> obi_alpha" where
  "obi_observe ev o1 s =
     (let bid = float_of (tk_bid_price ev); ask = float_of (tk_ask_price ev);
          bid_size = float_of (tk_bid_size ev); ask_size = float_of (tk_ask_size ev)
      in s\<lparr>oa_obi := obi_update bid_size ask_size (oa_obi s),
           oa_ofi := Some (ofi_update bid bid_size ask ask_size (ts_event ev) o1)\<rparr>)"

definition obi_quote :: "tick_event \<Rightarrow> strategy_context \<Rightarrow> dec \<times> dec \<Rightarrow> obi_alpha \<Rightarrow> obi_alpha \<times> signal_event list" where
  "obi_quote ev cx prices s =
     (let inventory = inventory_of (tk_instrument ev) cx;
          buy = (inventory < oa_max_position s \<and> post_only_guard BUY (fst prices) (tk_bid_price ev) (tk_ask_price ev));
          sell = (dneg (oa_max_position s) < inventory \<and>
            post_only_guard SELL (snd prices) (tk_bid_price ev) (tk_ask_price ev));
          bids = (if buy then [quote_leg cx 0 BUY (fst prices) (oa_quote_size s)] else []);
          legs = bids @ (if sell then [quote_leg cx (length bids) SELL (snd prices) (oa_quote_size s)] else [])
      in (s\<lparr>oa_last_bid := (if buy then Some (fst prices) else None), oa_last_ask := (if sell then Some (snd prices) else None)\<rparr>,
          if legs = [] then [] else [make_signal ev cx legs ''obi-alpha'']))"

definition obi_alpha_on_tick :: "(obi_alpha, tick_event) handler" where
  "obi_alpha_on_tick ev cx s =
     (case (case oa_ofi s of None \<Rightarrow> ofi_init (oa_window s) | Some o1 \<Rightarrow> Inr o1) of
        Inl e \<Rightarrow> (s, Inl e)
      | Inr o1 \<Rightarrow>
          (case tick_microprice ev (oa_micro s) of
             None \<Rightarrow> (s\<lparr>oa_ofi := Some o1\<rparr>, Inr [])
           | Some micro \<Rightarrow>
               let s1 = obi_observe ev o1 (s\<lparr>oa_micro := Some micro\<rparr>)
               in case obi_prices ev cx micro s1 of
                    Inl e \<Rightarrow> (s1, Inl e)
                  | Inr prices \<Rightarrow> (case obi_quote ev cx prices s1 of (s2, signals) \<Rightarrow> (s2, Inr signals))))"

subsection \<open>Ping-pong and momentum\<close>

record ping_pong =
  pp_last_ns :: "(string, timestamp) dict"
  pp_next_side :: "(string, side) dict"

definition ping_pong_init :: "instrument list \<Rightarrow> ping_pong" where
  "ping_pong_init inss =
     \<lparr>pp_last_ns = fold (\<lambda>i. dset (instrument_id i) 0) inss [],
      pp_next_side = fold (\<lambda>i. dset (instrument_id i) BUY) inss []\<rparr>"

definition float_param :: "string \<Rightarrow> string \<Rightarrow> strategy_context \<Rightarrow> py_error + rat" where
  "float_param key fallback cx =
     (case dec_of_string (get_param key fallback cx) of None \<Rightarrow> Inl ValueError | Some x \<Rightarrow> Inr (float_of x))"

definition dec_param :: "string \<Rightarrow> string \<Rightarrow> strategy_context \<Rightarrow> py_error + dec" where
  "dec_param key fallback cx = option_err (dec_of_string (get_param key fallback cx))"

fun other_side :: "side \<Rightarrow> side" where
  "other_side BUY = SELL"
| "other_side SELL = BUY"

definition ping_pong_on_tick :: "(ping_pong, tick_event) handler" where
  "ping_pong_on_tick ev cx s =
     (let iid = instrument_id (tk_instrument ev)
      in case float_param ''interval_seconds'' ''10.0'' cx of
           Inl e \<Rightarrow> (s, Inl e)
         | Inr interval_seconds \<Rightarrow>
             (case dget (pp_last_ns s) iid of
                None \<Rightarrow> (s, Inl KeyError)
              | Some last_ns \<Rightarrow>
                  if ts_event ev - last_ns < seconds_to_ns interval_seconds then (s, Inr [])
                  else
                    let s1 = s\<lparr>pp_last_ns := dset iid (ts_event ev) (pp_last_ns s)\<rparr>
                    in case dget (pp_next_side s) iid of
                         None \<Rightarrow> (s1, Inl KeyError)
                       | Some sd \<Rightarrow>
                           let s2 = s1\<lparr>pp_next_side := dset iid (other_side sd) (pp_next_side s)\<rparr>
                           in case dec_param ''target_quantity'' ''0.0001'' cx of
                                Inl e \<Rightarrow> (s2, Inl e)
                              | Inr qty \<Rightarrow> (s2, Inr [make_signal ev cx [market_leg cx sd qty] ''ping-pong''])))"

datatype regime = Above | Below

record momentum =
  mo_fast :: "(string, ema) dict"
  mo_slow :: "(string, ema) dict"
  mo_regime :: "(string, regime option) dict"

definition momentum_init :: "instrument list \<Rightarrow> int \<Rightarrow> int \<Rightarrow> py_error + momentum" where
  "momentum_init inss fast_period slow_period =
     (if slow_period \<le> fast_period then Inl ValueError
      else if inss = [] then Inr \<lparr>mo_fast = [], mo_slow = [], mo_regime = []\<rparr>
      else
        sum_bind (ema_init fast_period) (\<lambda>fast. sum_bind (ema_init slow_period) (\<lambda>slow.
          Inr \<lparr>mo_fast = fold (\<lambda>i. dset (instrument_id i) fast) inss [],
               mo_slow = fold (\<lambda>i. dset (instrument_id i) slow) inss [],
               mo_regime = fold (\<lambda>i. dset (instrument_id i) None) inss []\<rparr>)))"

definition momentum_observe :: "string \<Rightarrow> rat \<Rightarrow> momentum \<Rightarrow> momentum" where
  "momentum_observe iid mid s =
     s\<lparr>mo_fast := dmod iid (ema_update mid) (mo_fast s), mo_slow := dmod iid (ema_update mid) (mo_slow s)\<rparr>"

text \<open>The regime of two averages that are both ready.\<close>

definition regime_of :: "ema \<Rightarrow> ema \<Rightarrow> regime option" where
  "regime_of fast slow =
     (if ema_is_ready fast \<and> ema_is_ready slow
      then (case (em_value fast, em_value slow) of (Some f, Some g) \<Rightarrow> Some (if g < f then Above else Below) | _ \<Rightarrow> None)
      else None)"

definition momentum_on_tick :: "(momentum, tick_event) handler" where
  "momentum_on_tick ev cx s =
     (let iid = instrument_id (tk_instrument ev)
      in if dget (mo_fast s) iid = None \<or> dget (mo_slow s) iid = None then (s, Inl KeyError)
         else
           let s1 = momentum_observe iid (float_of (tick_mid ev)) s
           in case regime_of (the (dget (mo_fast s1) iid)) (the (dget (mo_slow s1) iid)) of
                None \<Rightarrow> (s1, Inr [])
              | Some new_regime \<Rightarrow>
                  (case dget (mo_regime s) iid of
                     None \<Rightarrow> (s1, Inl KeyError)
                   | Some old_regime \<Rightarrow>
                       let s2 = s1\<lparr>mo_regime := dset iid (Some new_regime) (mo_regime s)\<rparr>
                       in if old_regime = None \<or> old_regime = Some new_regime then (s2, Inr [])
                          else case dec_param ''target_quantity'' ''1'' cx of
                                 Inl e \<Rightarrow> (s2, Inl e)
                               | Inr qty \<Rightarrow>
                                   (s2, Inr [make_signal ev cx
                                      [market_leg cx (case new_regime of Above \<Rightarrow> BUY | Below \<Rightarrow> SELL) qty] ''EMA crossover''])))"

subsection \<open>The class of the examples\<close>

text \<open>One registry holds strategies of all these classes: an object is one of them.\<close>

datatype example =
    ExMarketMaking two_sided | ExMicroprice microprice_mm | ExGrid grid | ExObiAlpha obi_alpha
  | ExPingPong ping_pong | ExMomentum momentum

definition example_on_tick :: "(example, tick_event) handler" where
  "example_on_tick ev cx x =
     (case x of
        ExMarketMaking s \<Rightarrow> map_prod ExMarketMaking id (market_making_on_tick ev cx s)
      | ExMicroprice s \<Rightarrow> map_prod ExMicroprice id (microprice_mm_on_tick ev cx s)
      | ExGrid s \<Rightarrow> map_prod ExGrid id (grid_on_tick ev cx s)
      | ExObiAlpha s \<Rightarrow> map_prod ExObiAlpha id (obi_alpha_on_tick ev cx s)
      | ExPingPong s \<Rightarrow> map_prod ExPingPong id (ping_pong_on_tick ev cx s)
      | ExMomentum s \<Rightarrow> map_prod ExMomentum id (momentum_on_tick ev cx s))"

definition example_class :: "example strategy_class" where
  "example_class = abstract_strategy\<lparr>h_tick := example_on_tick\<rparr>"

end
