(* ===== verification/Strategy_Properties.thy ===== *)
theory Strategy_Properties
  imports Quoting
begin

text \<open>
  What the registry promises to strategies: which of them an event reaches, that they do not disturb
  each other, what pausing means, and where this ends (a full queue, a restart).
\<close>

subsection \<open>One invocation\<close>

definition signals_in :: "(topic \<times> event) list \<Rightarrow> signal_event list" where
  "signals_in sent = List.map_filter (\<lambda>x. case x of (SIGNALS, EvSignal sg) \<Rightarrow> Some sg | _ \<Rightarrow> None) sent"

lemma signals_in_simps [simp]:
  "signals_in [] = []" "signals_in (xs @ ys) = signals_in xs @ signals_in ys"
  "signals_in [(SIGNALS, EvSignal sg)] = [sg]" "signals_in [(ANALYTICS, e)] = []"
  by (simp_all add: signals_in_def map_filter_def)

text \<open>What the strategies see of the registry, apart from its bookkeeping of publications.\<close>

definition same_world :: "'s registry \<Rightarrow> 's registry \<Rightarrow> bool" where
  "same_world s t \<longleftrightarrow>
     rg_now t = rg_now s \<and> rg_portfolio t = rg_portfolio s \<and> rg_uuid_src t = rg_uuid_src s \<and>
     rg_parameters t = rg_parameters s \<and> rg_paused t = rg_paused s \<and> rg_index t = rg_index s \<and>
     rg_started t = rg_started s"

lemma same_world_refl [simp]: "same_world s s"
  by (simp add: same_world_def)

lemma same_world_trans: "same_world s t \<Longrightarrow> same_world t u \<Longrightarrow> same_world s u"
  by (simp add: same_world_def)

lemma publish_world:
  assumes "rg_publish t e s = (s1, r)"
  shows "same_world s s1 \<and> rg_strategies s1 = rg_strategies s \<and> rg_calls s1 = rg_calls s \<and>
    rg_sent s1 = rg_sent s @ (if r = Inr () then [(t, e)] else []) \<and> rg_tick_map s1 = rg_tick_map s"
  using assms by (auto simp: rg_publish_def same_world_def split: prod.splits sum.splits)

lemma signals_world:
  assumes "publish_signals t sgs s = (s1, r)"
  shows "same_world s s1 \<and> rg_strategies s1 = rg_strategies s \<and> rg_calls s1 = rg_calls s \<and>
    (\<exists>n. signals_in (rg_sent s1) = signals_in (rg_sent s) @ take n sgs) \<and>
    (r = Inr () \<longrightarrow> signals_in (rg_sent s1) = signals_in (rg_sent s) @ sgs)"
  using assms
proof (induction sgs arbitrary: s)
  case (Cons sg sgs)
  let ?s0 = "s\<lparr>rg_tick_map := remember_tick (sig_id sg) t (rg_tick_map s)\<rparr>"
  obtain s2 r2 where p: "rg_publish SIGNALS (EvSignal sg) ?s0 = (s2, r2)" by force
  have w: "same_world s s2" "rg_strategies s2 = rg_strategies s" "rg_calls s2 = rg_calls s"
    "signals_in (rg_sent s2) = signals_in (rg_sent s) @ (if r2 = Inr () then [sg] else [])"
    using publish_world [OF p] by (auto simp: same_world_def)
  show ?case
  proof (cases r2)
    case (Inl e)
    with Cons.prems p have "s1 = s2" "r = Inl e" by simp_all
    with w Inl show ?thesis by (auto intro: exI [of _ 0])
  next
    case (Inr u)
    with Cons.prems p have "publish_signals t sgs s2 = (s1, r)" by simp
    from Cons.IH [OF this] w Inr show ?thesis
      by (auto intro: same_world_trans exI [of _ "Suc n" for n])
  qed
qed (auto simp: intro: exI [of _ 0])

lemma diagnostics_world:
  assumes "publish_diagnostics c x s = (s1, r)"
  shows "same_world s s1 \<and> rg_strategies s1 = rg_strategies s \<and> rg_calls s1 = rg_calls s \<and>
    signals_in (rg_sent s1) = signals_in (rg_sent s)"
proof -
  have "same_world s (fst (rg_publish ANALYTICS (EvDiagnostics d) s)) \<and>
      rg_strategies (fst (rg_publish ANALYTICS (EvDiagnostics d) s)) = rg_strategies s \<and>
      rg_calls (fst (rg_publish ANALYTICS (EvDiagnostics d) s)) = rg_calls s \<and>
      signals_in (rg_sent (fst (rg_publish ANALYTICS (EvDiagnostics d) s))) = signals_in (rg_sent s)" for d
    using publish_world [of ANALYTICS "EvDiagnostics d" s, OF surjective_pairing] by auto
  then show ?thesis using assms by (auto simp: publish_diagnostics_def split: sum.splits option.splits)
qed

text \<open>What an invocation that goes through leaves: the handler's state and its signals.\<close>

definition context_at :: "nat \<Rightarrow> strategy_id \<Rightarrow> 's registry \<Rightarrow> strategy_context" where
  "context_at k sid s = (make_context sid s)\<lparr>cx_uuid := rg_uuid_src s k\<rparr>"

definition called :: "'s strategy_class \<Rightarrow> event \<Rightarrow> nat \<Rightarrow> strategy_id \<Rightarrow> 's registry \<Rightarrow> 's \<times> (py_error + signal_event list)" where
  "called c e k sid s = handler_for c e (context_at k sid s) (sy_state (the (dget (rg_strategies s) sid)))"

definition outcome :: "py_error + signal_event list \<Rightarrow> signal_event list" where
  "outcome r = (case r of Inl _ \<Rightarrow> [] | Inr sgs \<Rightarrow> sgs)"

lemma context_at_world: "same_world s t \<Longrightarrow> context_at k sid t = context_at k sid s"
  by (simp add: same_world_def context_at_def make_context_def)

lemma invoke_paused [simp]: "sid \<in> rg_paused s \<Longrightarrow> invoke c e sid s = (s, Inr ())"
  by (simp add: invoke_def)

lemma invoke_world:
  assumes "invoke c e sid s = (s1, r)" and "sid \<notin> rg_paused s" and "dget (rg_strategies s) sid \<noteq> None"
  shows "same_world s s1 \<and> rg_calls s1 = Suc (rg_calls s) \<and>
    rg_strategies s1 = dmod sid (\<lambda>st. st\<lparr>sy_state := fst (called c e (rg_calls s) sid s)\<rparr>) (rg_strategies s) \<and>
    (\<exists>n. signals_in (rg_sent s1) = signals_in (rg_sent s) @ take n (outcome (snd (called c e (rg_calls s) sid s)))) \<and>
    (r = Inr () \<longrightarrow> signals_in (rg_sent s1) = signals_in (rg_sent s) @ outcome (snd (called c e (rg_calls s) sid s)))"
proof -
  obtain st where st: "dget (rg_strategies s) sid = Some st" using assms(3) by auto
  obtain x q where h: "handler_for c e (make_context sid s) (sy_state st) = (x, q)" by force
  have cl: "called c e (rg_calls s) sid s = (x, q)"
    using h st by (simp add: called_def context_at_def make_context_def)
  let ?s0 = "put_state sid x s"
  have w0: "same_world s ?s0" "rg_calls ?s0 = Suc (rg_calls s)" "rg_sent ?s0 = rg_sent s"
    "rg_strategies ?s0 = dmod sid (\<lambda>st. st\<lparr>sy_state := x\<rparr>) (rg_strategies s)"
    by (simp_all add: put_state_def same_world_def)
  show ?thesis
  proof (cases q)
    case (Inl err)
    with assms(1,2) st h have "s1 = ?s0" "r = Inr ()" by (simp_all add: invoke_def)
    with w0 cl Inl show ?thesis by (auto simp: outcome_def)
  next
    case (Inr sgs)
    obtain s2 r2 where p: "publish_signals (base_ingest e) sgs ?s0 = (s2, r2)" by force
    note w2 = signals_world [OF p]
    show ?thesis
    proof (cases r2)
      case (Inl err)
      with assms(1,2) st h Inr p have "s1 = s2" "r = Inl err" by (simp_all add: invoke_def)
      with w0 w2 cl Inr Inl show ?thesis by (auto simp: outcome_def intro: same_world_trans)
    next
      case r2: (Inr u)
      with assms(1,2) st h Inr p
      have d: "(if is_tick e then publish_diagnostics c x s2 else (s2, Inr ())) = (s1, r)" by (simp add: invoke_def)
      have w3: "same_world s2 s1 \<and> rg_strategies s1 = rg_strategies s2 \<and> rg_calls s1 = rg_calls s2 \<and>
          signals_in (rg_sent s1) = signals_in (rg_sent s2)"
        using d diagnostics_world [of c x s2 s1 r] by (auto split: if_splits)
      have "same_world s s1" using w0(1) w2 w3 same_world_trans by blast
      moreover have "signals_in (rg_sent s1) = signals_in (rg_sent s) @ sgs" using w0(3) w2 w3 r2 by simp
      ultimately show ?thesis using w0 w2 w3 cl Inr by (auto simp: outcome_def intro: exI [of _ "length sgs"])
    qed
  qed
qed

subsection \<open>Strategies do not disturb each other\<close>

text \<open>The calls an event makes, every one a function of the registry before the event.\<close>

fun call_log ::
    "'s strategy_class \<Rightarrow> event \<Rightarrow> 's registry \<Rightarrow> nat \<Rightarrow> strategy_id list \<Rightarrow>
     (strategy_id, 's \<times> (py_error + signal_event list)) dict" where
  "call_log c e s k [] = []"
| "call_log c e s k (sid # sids) =
     (if sid \<in> rg_paused s then call_log c e s k sids
      else (sid, called c e k sid s) # call_log c e s (Suc k) sids)"

definition after_calls :: "(strategy_id, 's \<times> (py_error + signal_event list)) dict \<Rightarrow> strategy_id \<Rightarrow> 's strategy option \<Rightarrow> 's strategy option" where
  "after_calls calls sid st =
     (case dget calls sid of None \<Rightarrow> st | Some (x, _) \<Rightarrow> map_option (\<lambda>st. st\<lparr>sy_state := x\<rparr>) st)"

definition log_signals :: "(strategy_id, 's \<times> (py_error + signal_event list)) dict \<Rightarrow> signal_event list" where
  "log_signals calls = concat (map (\<lambda>x. outcome (snd (snd x))) calls)"

lemma call_log_keys: "sid \<notin> set sids \<Longrightarrow> dget (call_log c e s k sids) sid = None"
  by (induction sids arbitrary: k) auto

lemma call_log_cong:
  assumes "same_world s t" and "\<forall>sid \<in> set sids. dget (rg_strategies t) sid = dget (rg_strategies s) sid"
  shows "call_log c e t k sids = call_log c e s k sids"
  using assms(2)
proof (induction sids arbitrary: k)
  case (Cons sid sids)
  have "rg_paused t = rg_paused s" using assms(1) by (simp add: same_world_def)
  with Cons context_at_world [OF assms(1)] show ?case by (simp add: called_def)
qed simp

lemma dispatch_world:
  assumes "dispatch c e sids s = (s1, Inr ())" and "distinct sids"
    and "\<forall>sid \<in> set sids. dget (rg_strategies s) sid \<noteq> None"
  shows "same_world s s1 \<and>
    (\<forall>sid. dget (rg_strategies s1) sid = after_calls (call_log c e s (rg_calls s) sids) sid (dget (rg_strategies s) sid)) \<and>
    signals_in (rg_sent s1) = signals_in (rg_sent s) @ log_signals (call_log c e s (rg_calls s) sids)"
  using assms
proof (induction sids arbitrary: s)
  case (Cons sid sids)
  obtain s2 r2 where i: "invoke c e sid s = (s2, r2)" by force
  with Cons.prems(1) have r2: "r2 = Inr ()" and d: "dispatch c e sids s2 = (s1, Inr ())"
    by (cases r2; simp)+
  show ?case
  proof (cases "sid \<in> rg_paused s")
    case True
    with i d have "dispatch c e sids s = (s1, Inr ())" by simp
    from Cons.IH [OF this] Cons.prems True show ?thesis by simp
  next
    case False
    note w = invoke_world [OF i False] 
    have st: "dget (rg_strategies s) sid \<noteq> None" using Cons.prems(3) by simp
    let ?x = "called c e (rg_calls s) sid s"
    have w2: "same_world s s2" "rg_calls s2 = Suc (rg_calls s)"
      "dget (rg_strategies s2) k = (if k = sid then map_option (\<lambda>st. st\<lparr>sy_state := fst ?x\<rparr>) (dget (rg_strategies s) k)
        else dget (rg_strategies s) k)"
      "signals_in (rg_sent s2) = signals_in (rg_sent s) @ outcome (snd ?x)" for k
      using w st r2 by simp_all
    have log: "call_log c e s2 k sids = call_log c e s k sids" for k
      using Cons.prems(2) w2(3) by (intro call_log_cong [OF w2(1)]) auto
    have "\<forall>k \<in> set sids. dget (rg_strategies s2) k \<noteq> None" using Cons.prems(3) w2(3) by auto
    from Cons.IH [OF d _ this] Cons.prems(2)
    have IH: "same_world s2 s1"
      "dget (rg_strategies s1) k = after_calls (call_log c e s (Suc (rg_calls s)) sids) k (dget (rg_strategies s2) k)"
      "signals_in (rg_sent s1) = signals_in (rg_sent s2) @ log_signals (call_log c e s (Suc (rg_calls s)) sids)" for k
      by (simp_all add: log w2(2))
    have "dget (rg_strategies s1) k = after_calls ((sid, ?x) # call_log c e s (Suc (rg_calls s)) sids) k
        (dget (rg_strategies s) k)" for k
      using IH(2) [of k] w2(3) [of k] call_log_keys [of sid sids c e s "Suc (rg_calls s)"] Cons.prems(2)
      by (auto simp: after_calls_def split: prod.splits)
    with IH(1,3) w2(1,4) False show ?thesis
      by (auto simp: log_signals_def intro: same_world_trans)
  qed
qed (simp add: after_calls_def log_signals_def)

subsection \<open>Histories of the registry\<close>

text \<open>
  What can happen to a registry that is set up. The environment moves the time, the positions and the
  bus, on which others publish and from which consumers take.
\<close>

datatype registry_op =
    DoStart | DoStop | DoPause strategy_id | DoResume strategy_id | DoParameters strategy_id parameters
  | DoMarket event | DoFill event | DoPosition event | DoEnvironment timestamp portfolio async_bus

definition registry_do :: "'s strategy_class \<Rightarrow> registry_op \<Rightarrow> 's registry \<Rightarrow> 's registry" where
  "registry_do c op s =
     (case op of
        DoStart \<Rightarrow> fst (registry_start c s)
      | DoStop \<Rightarrow> registry_stop c s
      | DoPause sid \<Rightarrow> fst (pause sid s)
      | DoResume sid \<Rightarrow> fst (resume_strategy sid s)
      | DoParameters sid ps \<Rightarrow> fst (set_parameters sid ps s)
      | DoMarket e \<Rightarrow> fst (rg_handle_market_data c e s)
      | DoFill e \<Rightarrow> fst (rg_handle_fill c e s)
      | DoPosition e \<Rightarrow> fst (rg_handle_position c e s)
      | DoEnvironment t view b \<Rightarrow> s\<lparr>rg_now := t, rg_portfolio := view, rg_bus := b\<rparr>)"

fun register_all :: "('s strategy \<times> parameters) list \<Rightarrow> 's registry \<Rightarrow> 's registry" where
  "register_all [] s = s"
| "register_all ((st, ps) # sts) s = register_all sts (fst (register st ps s))"

text \<open>Which strategies there are and which instruments they trade never changes once it is set up.\<close>

definition same_setup :: "'s registry \<Rightarrow> 's registry \<Rightarrow> bool" where
  "same_setup s t \<longleftrightarrow> rg_index t = rg_index s \<and> dkeys (rg_strategies t) = dkeys (rg_strategies s)"

lemma same_setup_refl [simp]: "same_setup s s"
  by (simp add: same_setup_def)

lemma same_setup_trans: "same_setup s t \<Longrightarrow> same_setup t u \<Longrightarrow> same_setup s u"
  by (simp add: same_setup_def)

lemma same_setup_put [simp]: "same_setup s (put_state sid x s)"
  by (simp add: same_setup_def put_state_def)

lemma setup_invoke: "same_setup s (fst (invoke c e sid s))"
proof (cases "sid \<in> rg_paused s \<or> dget (rg_strategies s) sid = None")
  case False
  then show ?thesis using invoke_world [of c e sid s, OF surjective_pairing]
    by (simp add: same_setup_def same_world_def)
qed (auto simp: invoke_def)

lemma setup_dispatch: "same_setup s (fst (dispatch c e sids s))"
proof (induction sids arbitrary: s)
  case (Cons sid sids)
  obtain s2 r2 where i: "invoke c e sid s = (s2, r2)" by force
  with setup_invoke [of s c e sid] Cons [of s2] show ?case
    by (cases r2) (auto intro: same_setup_trans)
qed simp

lemma setup_start_all: "same_setup s (fst (start_all c sts s))"
proof (induction sts arbitrary: s)
  case (Cons entry sts)
  obtain sid st where [simp]: "entry = (sid, st)" by force
  show ?case using Cons [of "put_state sid _ s"]
    by (auto split: prod.split sum.split intro: same_setup_trans [OF same_setup_put])
qed simp

lemma setup_stop_all: "same_setup s (fold (stop_one c) sts s)"
proof (induction sts arbitrary: s)
  case (Cons entry sts)
  show ?case using Cons [of "stop_one c entry s"]
    by (auto simp: stop_one_def intro: same_setup_trans [OF same_setup_put])
qed simp

lemma setup_do: "same_setup s (registry_do c op s)"
proof -
  have sub: "same_setup s (fst (subscribe_to t n s))" for t n and s :: "'a registry"
    by (simp add: subscribe_to_def same_setup_def split: sum.split)
  have "same_setup s (fst (registry_start c s))"
  proof (cases "rg_started s")
    case False
    have chain: "same_setup s (fst (and_then m k))" if "same_setup s (fst m)" "\<And>s1 u. same_setup s1 (fst (k s1 u))"
      for s :: "'a registry" and m :: "'a registry_result" and k
      using that by (cases m; cases "snd m") (auto intro: same_setup_trans)
    have "same_setup (s\<lparr>rg_started := True\<rparr>) (fst (registry_start c s))"
      using False by (simp add: registry_start_def) (intro chain sub setup_start_all)
    then show ?thesis by (simp add: same_setup_def)
  qed (simp add: registry_start_def)
  moreover have "same_setup s (registry_stop c s)"
    using setup_stop_all [of s c "rg_strategies s"] by (simp add: registry_stop_def same_setup_def)
  ultimately show ?thesis
    using setup_dispatch [of s c] setup_invoke [of s c]
    by (auto simp: registry_do_def pause_def resume_strategy_def set_parameters_def rg_handle_market_data_def
        rg_handle_fill_def rg_handle_position_def dispatch_to_strategy_def same_setup_def
        split: registry_op.split event.split)
qed

lemma setup_history: "same_setup s (fold (registry_do c) ops s)"
  by (induction ops arbitrary: s) (auto intro: same_setup_trans setup_do)

subsection \<open>Which strategies an event reaches\<close>

definition market_instrument :: "event \<Rightarrow> instrument option" where
  "market_instrument e =
     (case e of EvTick x \<Rightarrow> Some (tk_instrument x) | EvTrade x \<Rightarrow> Some (tr_instrument x)
      | EvBook x \<Rightarrow> Some (ob_instrument x) | _ \<Rightarrow> None)"

lemma index_strategy_of:
  assumes "distinct (map instrument_id (sy_instruments st))"
  shows "index_of iid (index_strategy st ix) =
    index_of iid ix @ (if iid \<in> set (map instrument_id (sy_instruments st)) then [sy_id st] else [])"
proof -
  have "index_of iid (fold (\<lambda>i ix. dset (instrument_id i) (index_of (instrument_id i) ix @ [sy_id st]) ix) xs ix) =
      index_of iid ix @ (if iid \<in> set (map instrument_id xs) then [sy_id st] else [])"
    if "distinct (map instrument_id xs)" for xs
    using that by (induction xs arbitrary: ix) (auto simp: index_of_def)
  with assms show ?thesis by (simp add: index_strategy_def)
qed

lemma register_all_setup:
  assumes "\<not> rg_started s" and "distinct (map (\<lambda>x. sy_id (fst x)) sts)"
    and "\<forall>x \<in> set sts. distinct (map instrument_id (sy_instruments (fst x)))"
    and "\<forall>x \<in> set sts. sy_id (fst x) \<notin> set (dkeys (rg_strategies s))"
  shows "index_of (instrument_id ins) (rg_index (register_all sts s)) =
      index_of (instrument_id ins) (rg_index s) @ map sy_id (filter (trades_instrument ins) (map fst sts)) \<and>
    set (dkeys (rg_strategies (register_all sts s))) = set (dkeys (rg_strategies s)) \<union> set (map (\<lambda>x. sy_id (fst x)) sts)"
  using assms
proof (induction sts arbitrary: s)
  case (Cons x sts)
  obtain st ps where x: "x = (st, ps)" by force
  let ?s = "fst (register st ps s)"
  have new: "dget (rg_strategies s) (sy_id st) = None" using Cons.prems(4) x by (simp add: dget_None)
  then have s: "\<not> rg_started ?s" "rg_index ?s = index_strategy st (rg_index s)"
    "set (dkeys (rg_strategies ?s)) = insert (sy_id st) (set (dkeys (rg_strategies s)))"
    using Cons.prems(1) by (simp_all add: register_def)
  have other: "sy_id (fst y) \<noteq> sy_id st" if "y \<in> set sts" for y using Cons.prems(2) x that by force
  then have "\<forall>x \<in> set sts. sy_id (fst x) \<notin> set (dkeys (rg_strategies ?s))" using Cons.prems(4) s(3) by simp
  from Cons.IH [OF s(1) _ _ this] Cons.prems(2,3) s(2,3) x
  show ?case by (auto simp: index_strategy_of trades_instrument_def list_ex_iff image_iff)
qed simp

lemma registered_history:
  fixes c :: "'s strategy_class" and sts :: "('s strategy \<times> parameters) list" and ops b now view src
  assumes "distinct (map (\<lambda>x. sy_id (fst x)) sts)"
    and "\<forall>x \<in> set sts. distinct (map instrument_id (sy_instruments (fst x)))"
  defines "s \<equiv> fold (registry_do c) ops (register_all sts (registry_init b now view src))"
  shows "index_of (instrument_id ins) (rg_index s) = map sy_id (filter (trades_instrument ins) (map fst sts))"
    and "set (dkeys (rg_strategies s)) = set (map (\<lambda>x. sy_id (fst x)) sts)"
  using register_all_setup [of "registry_init b now view src" sts ins] assms(1,2)
    setup_history [of "register_all sts (registry_init b now view src)" c ops, folded s_def]
  by (auto simp: same_setup_def registry_init_def index_of_def dkeys_def)

text \<open>
  C0: An event reaches the strategies that trade its instrument, and they do not disturb each other.
  After every history of a registry, a market data event that goes through is handled once by each
  strategy that trades the instrument and is not paused, in the order of registration. Every handler
  works on its own state and on the context as they were before the event; the signals published are
  theirs, in that order, and a handler that raises only lacks its own.
\<close>

theorem events_reach_their_strategies:
  fixes c :: "'s strategy_class" and sts :: "('s strategy \<times> parameters) list" and ops b now view src ins
  assumes "distinct (map (\<lambda>x. sy_id (fst x)) sts)"
    and "\<forall>x \<in> set sts. distinct (map instrument_id (sy_instruments (fst x)))"
    and "market_instrument e = Some ins"
  defines "s \<equiv> fold (registry_do c) ops (register_all sts (registry_init b now view src))"
  defines "calls \<equiv> call_log c e s (rg_calls s) (map sy_id (filter (trades_instrument ins) (map fst sts)))"
  assumes "rg_handle_market_data c e s = (s1, Inr ())"
  shows "(\<forall>sid. dget (rg_strategies s1) sid = after_calls calls sid (dget (rg_strategies s) sid)) \<and>
    signals_in (rg_sent s1) = signals_in (rg_sent s) @ log_signals calls"
proof -
  let ?sids = "map sy_id (filter (trades_instrument ins) (map fst sts))"
  have h: "index_of (instrument_id ins) (rg_index s) = ?sids"
    "set (dkeys (rg_strategies s)) = set (map (\<lambda>x. sy_id (fst x)) sts)"
    unfolding s_def using registered_history [OF assms(1,2)] by auto
  have "dispatch c e ?sids s = (s1, Inr ())"
    using assms(3,6) h(1) by (auto simp: rg_handle_market_data_def market_instrument_def split: event.splits)
  moreover have "distinct ?sids"
    using assms(1) by (induction sts) auto
  moreover have "\<forall>sid \<in> set ?sids. dget (rg_strategies s) sid \<noteq> None"
    using h(2) by (auto simp: dget_None)
  ultimately show ?thesis using dispatch_world [of c e ?sids s s1] by (simp add: calls_def)
qed

text \<open>A registry with a strategy that raises in front of one that signals.\<close>

definition sample_class :: "nat strategy_class" where
  "sample_class = abstract_strategy\<lparr>h_tick := (\<lambda>e cx n.
     if n = 0 then (1, Inl ValueError) else (n + 1, Inr [make_signal e cx [] ''sample'']))\<rparr>"

definition sample_listing :: instrument where
  "sample_listing = \<lparr>i_symbol = ''BTCUSDT'', i_exchange = ''SIM'', i_asset_type = AT_SPOT, i_base = ''BTC'',
     i_quote = ''USDT'', i_tick_size = 1, i_lot_size = 1, i_min_notional = None, i_multiplier = 1\<rparr>"

definition sample_strategy :: "strategy_id \<Rightarrow> nat \<Rightarrow> nat strategy" where
  "sample_strategy sid n = \<lparr>sy_id = sid, sy_instruments = [sample_listing], sy_state = n\<rparr>"

definition sample_view_tick :: tick_event where
  "sample_view_tick = \<lparr>ts_event = 5, ts_ingest = 6, source = ''feed'', tk_instrument = sample_listing,
     tk_bid_price = 99, tk_bid_size = 1, tk_ask_price = 101, tk_ask_size = 1\<rparr>"

definition sample_registry :: "async_bus \<Rightarrow> nat registry" where
  "sample_registry b = register_all [(sample_strategy ''bad'' 0, []), (sample_strategy ''good'' 7, [])]
     (registry_init b 10 (\<lambda>ins sid. None) (\<lambda>k i. 100 * k + i))"

lemmas sample_registry_simps = sample_registry_def sample_strategy_def register_def registry_init_def
  index_strategy_def index_of_def instrument_id_def sample_listing_def dset_def dkeys_def

definition sample_log :: "async_bus \<Rightarrow> (strategy_id, nat \<times> (py_error + signal_event list)) dict" where
  "sample_log b =
     [(''bad'', 1, Inl ValueError),
      (''good'', 8, Inr [make_signal sample_view_tick (context_at 1 ''good'' (sample_registry b)) [] ''sample''])]"

lemma sample_calls:
  "call_log sample_class (EvTick sample_view_tick) (sample_registry b) 0 [''bad'', ''good''] = sample_log b"
  by (simp add: sample_log_def sample_registry_simps called_def handler_for_def sample_class_def abstract_strategy_def dget_def)

theorem events_reach_their_strategies_witness:
  "\<exists>b s1 sg. rg_handle_market_data sample_class (EvTick sample_view_tick) (sample_registry b) = (s1, Inr ()) \<and>
     signals_in (rg_sent s1) = [sg] \<and> sig_strategy sg = ''good'' \<and>
     map_option sy_state (dget (rg_strategies s1) ''bad'') = Some 1"
proof -
  define b :: async_bus where "b = \<lparr>ab_queue_size = 5, ab_subscribers = [], ab_running = True, ab_stopped = False\<rparr>"
  let ?s = "sample_registry b" and ?sts = "[(sample_strategy ''bad'' 0, [] :: parameters), (sample_strategy ''good'' 7, [])]"
  have ix: "index_of (instrument_id sample_listing) (rg_index ?s) = [''bad'', ''good'']"
    by (simp add: sample_registry_simps dget_def)
  have pub: "snd (rg_publish t e s) = Inr () \<and> rg_bus (fst (rg_publish t e s)) = b" if "rg_bus s = b" for t e and s :: "nat registry"
    using that by (simp add: rg_publish_def publish_def b_def)
  have "snd (dispatch sample_class (EvTick sample_view_tick) [''bad'', ''good''] ?s) = Inr ()"
    using pub [of "put_state _ _ _"]
    by (simp add: invoke_def sample_registry_simps handler_for_def sample_class_def abstract_strategy_def dget_def
        make_context_def put_state_def publish_diagnostics_def is_tick_def rg_publish_def publish_def b_def)
  then obtain s1 where s1: "rg_handle_market_data sample_class (EvTick sample_view_tick) ?s = (s1, Inr ())"
    using ix by (cases "dispatch sample_class (EvTick sample_view_tick) [''bad'', ''good''] ?s")
      (simp add: rg_handle_market_data_def sample_view_tick_def)
  have sids: "map sy_id (filter (trades_instrument sample_listing) (map fst ?sts)) = [''bad'', ''good'']"
    by (simp add: sample_strategy_def trades_instrument_def)
  have start: "fold (registry_do sample_class) [] (register_all ?sts (registry_init b 10 (\<lambda>ins sid. None) (\<lambda>k i. 100 * k + i))) = ?s"
    by (simp add: sample_registry_def)
  have zero: "rg_calls ?s = 0" "rg_sent ?s = []" "rg_strategies ?s = map (\<lambda>x. (sy_id (fst x), fst x)) ?sts"
    by (simp_all add: sample_registry_simps)
  from events_reach_their_strategies [of ?sts "EvTick sample_view_tick" sample_listing sample_class "[]" b 10
      "\<lambda>ins sid. None" "\<lambda>k i. 100 * k + i" s1, unfolded start sids zero(1,2) sample_calls]
  have "(\<forall>sid. dget (rg_strategies s1) sid = after_calls (sample_log b) sid (dget (rg_strategies ?s) sid)) \<and>
      signals_in (rg_sent s1) = [] @ log_signals (sample_log b)"
    using s1 by (simp add: sample_strategy_def market_instrument_def sample_view_tick_def)
  then have "dget (rg_strategies s1) ''bad'' = Some (sample_strategy ''bad'' 1)"
    "signals_in (rg_sent s1) = [make_signal sample_view_tick (context_at 1 ''good'' ?s) [] ''sample'']"
    by (simp_all add: sample_log_def after_calls_def log_signals_def outcome_def sample_strategy_def zero(3))
  with s1 show ?thesis
    by (intro exI conjI) (auto simp: make_signal_def context_at_def make_context_def sample_strategy_def)
qed

subsection \<open>Where isolation ends\<close>

text \<open>
  C0: A full queue starves the strategies behind. Only the handlers are guarded, not the publication
  of what they return: when the bus refuses a signal of the first strategy of an instrument, the event
  is dropped for all the others, whose states stay as they were.
\<close>

theorem full_queue_starves:
  fixes c :: "'s strategy_class"
  assumes "market_instrument e = Some ins" and "index_of (instrument_id ins) (rg_index s) = sid # rest"
    and "sid \<notin> rg_paused s" and "dget (rg_strategies s) sid \<noteq> None"
    and "snd (called c e (rg_calls s) sid s) = Inr (sg # sgs)"
    and "snd (publish SIGNALS (EvSignal sg) (rg_bus s)) = Inl err"
  shows "snd (rg_handle_market_data c e s) = Inl err \<and>
    signals_in (rg_sent (fst (rg_handle_market_data c e s))) = signals_in (rg_sent s) \<and>
    (\<forall>k. k \<noteq> sid \<longrightarrow>
       dget (rg_strategies (fst (rg_handle_market_data c e s))) k = dget (rg_strategies s) k)"
proof -
  have m: "rg_handle_market_data c e s = dispatch c e (sid # rest) s"
    using assms(1,2) by (auto simp: rg_handle_market_data_def market_instrument_def split: event.splits)
  obtain st where st: "dget (rg_strategies s) sid = Some st" using assms(4) by auto
  obtain x where h: "handler_for c e (make_context sid s) (sy_state st) = (x, Inr (sg # sgs))"
    using assms(5) st by (cases "handler_for c e (make_context sid s) (sy_state st)")
      (simp add: called_def context_at_def make_context_def)
  let ?s0 = "(put_state sid x s)\<lparr>rg_tick_map := remember_tick (sig_id sg) (base_ingest e) (rg_tick_map (put_state sid x s))\<rparr>"
  obtain b where b: "publish SIGNALS (EvSignal sg) (rg_bus s) = (b, Inl err)"
    using assms(6) by (cases "publish SIGNALS (EvSignal sg) (rg_bus s)") simp
  then have p: "rg_publish SIGNALS (EvSignal sg) ?s0 = (?s0\<lparr>rg_bus := b\<rparr>, Inl err)"
    by (simp add: rg_publish_def put_state_def)
  have "dispatch c e (sid # rest) s = (?s0\<lparr>rg_bus := b\<rparr>, Inl err)"
    using assms(3) st h p by (simp add: invoke_def)
  then show ?thesis unfolding m by (simp add: put_state_def)
qed

definition full_bus :: async_bus where
  "full_bus = \<lparr>ab_queue_size = 1,
     ab_subscribers = [(SIGNALS, [\<lparr>sb_name = ''risk'', sb_queue = [Shutdown], sb_task = True\<rparr>])],
     ab_running = True, ab_stopped = False\<rparr>"

text \<open>The same two strategies, now with the one that signals in front.\<close>

definition sample_crowd :: "nat registry" where
  "sample_crowd = register_all [(sample_strategy ''good'' 7, []), (sample_strategy ''other'' 3, [])]
     (registry_init full_bus 10 (\<lambda>ins sid. None) (\<lambda>k i. 100 * k + i))"

theorem full_queue_starves_witness:
  "snd (rg_handle_market_data sample_class (EvTick sample_view_tick) sample_crowd) = Inl Backpressure \<and>
   map_option sy_state (dget (rg_strategies (fst (rg_handle_market_data sample_class (EvTick sample_view_tick) sample_crowd))) ''other'')
     = Some 3"
proof -
  have ix: "index_of (instrument_id sample_listing) (rg_index sample_crowd) = [''good'', ''other'']"
    "rg_paused sample_crowd = {}" "rg_calls sample_crowd = 0" "rg_bus sample_crowd = full_bus"
    "dget (rg_strategies sample_crowd) ''good'' = Some (sample_strategy ''good'' 7)"
    "dget (rg_strategies sample_crowd) ''other'' = Some (sample_strategy ''other'' 3)"
    by (simp_all add: sample_crowd_def sample_registry_simps dget_def)
  have full: "snd (publish SIGNALS (EvSignal sg) full_bus) = Inl Backpressure" for sg
    by (simp add: publish_def full_bus_def)
  have "snd (called sample_class (EvTick sample_view_tick) 0 ''good'' sample_crowd) =
      Inr [make_signal sample_view_tick (context_at 0 ''good'' sample_crowd) [] ''sample'']"
    by (simp add: called_def ix handler_for_def sample_class_def sample_strategy_def)
  with full_queue_starves [of "EvTick sample_view_tick" sample_listing sample_crowd "''good''" "[''other'']" sample_class
      "make_signal sample_view_tick (context_at 0 ''good'' sample_crowd) [] ''sample''" "[]" Backpressure]
  show ?thesis by (simp add: ix full market_instrument_def sample_view_tick_def sample_strategy_def)
qed

subsection \<open>Pausing\<close>

text \<open>A class whose strategies sign their signals with their own name.\<close>

locale attributed_class =
  fixes c :: "'s strategy_class"
  assumes attributed: "handler_for c e cx x = (y, Inr sgs) \<Longrightarrow> sg \<in> set sgs \<Longrightarrow> sig_strategy sg = cx_strategy cx"
begin

definition silent :: "strategy_id \<Rightarrow> 's registry \<Rightarrow> 's registry \<Rightarrow> bool" where
  "silent sid s t \<longleftrightarrow> sid \<in> rg_paused t \<and> dget (rg_strategies t) sid = dget (rg_strategies s) sid \<and>
     (\<exists>new. signals_in (rg_sent t) = signals_in (rg_sent s) @ new \<and> (\<forall>sg \<in> set new. sig_strategy sg \<noteq> sid))"

lemma silent_refl: "sid \<in> rg_paused s \<Longrightarrow> silent sid s s"
  by (simp add: silent_def)

lemma silent_trans: "silent sid s t \<Longrightarrow> silent sid t u \<Longrightarrow> silent sid s u"
  unfolding silent_def by (metis (no_types, lifting) Un_iff append.assoc set_append)

lemma outcome_attributed: "sg \<in> set (outcome (snd (called c e k sid s))) \<Longrightarrow> sig_strategy sg = sid"
  using attributed [of e "context_at k sid s" _ "fst (called c e k sid s)" _ sg]
  by (cases "called c e k sid s") (auto simp: called_def outcome_def context_at_def make_context_def split: sum.splits)

lemma invoke_silent:
  assumes "sid \<in> rg_paused s"
  shows "silent sid s (fst (invoke c e k s))"
proof (cases "k \<in> rg_paused s \<or> dget (rg_strategies s) k = None")
  case True
  with assms show ?thesis by (auto simp: invoke_def intro: silent_refl)
next
  case False
  then have k: "k \<noteq> sid" using assms by auto
  obtain s1 r where i: "invoke c e k s = (s1, r)" by force
  from invoke_world [OF i] False obtain n where w:
    "same_world s s1" "signals_in (rg_sent s1) = signals_in (rg_sent s) @ take n (outcome (snd (called c e (rg_calls s) k s)))"
    "rg_strategies s1 = dmod k (\<lambda>st. st\<lparr>sy_state := fst (called c e (rg_calls s) k s)\<rparr>) (rg_strategies s)"
    by auto
  have "sid \<in> rg_paused s1" using w(1) assms by (simp add: same_world_def)
  moreover have "dget (rg_strategies s1) sid = dget (rg_strategies s) sid" using w(3) k by simp
  moreover have "\<forall>sg \<in> set (take n (outcome (snd (called c e (rg_calls s) k s)))). sig_strategy sg \<noteq> sid"
    using outcome_attributed k by (metis in_set_takeD)
  ultimately show ?thesis using w(2) unfolding silent_def i fst_conv by blast
qed

lemma dispatch_silent: "sid \<in> rg_paused s \<Longrightarrow> silent sid s (fst (dispatch c e sids s))"
proof (induction sids arbitrary: s)
  case (Cons k sids)
  obtain s2 r2 where i: "invoke c e k s = (s2, r2)" by force
  have "silent sid s s2" using invoke_silent [OF Cons.prems, of e k] i by simp
  moreover have "silent sid s2 (fst (dispatch c e sids s2))"
    using calculation Cons.IH by (simp add: silent_def)
  ultimately show ?case using i by (cases r2) (auto intro: silent_trans)
qed (simp add: silent_refl)

lemma do_silent:
  assumes "sid \<in> rg_paused s" and "op \<notin> {DoStart, DoStop, DoResume sid}"
  shows "silent sid s (registry_do c op s)"
  using assms dispatch_silent [OF assms(1)] invoke_silent [OF assms(1)] silent_refl [OF assms(1)]
  by (auto simp: registry_do_def rg_handle_market_data_def rg_handle_fill_def rg_handle_position_def
      dispatch_to_strategy_def pause_def resume_strategy_def set_parameters_def split: registry_op.splits event.split)
    (auto simp: silent_def)

lemma history_silent:
  "sid \<in> rg_paused s \<Longrightarrow> set ops \<inter> {DoStart, DoStop, DoResume sid} = {} \<Longrightarrow> silent sid s (fold (registry_do c) ops s)"
proof (induction ops arbitrary: s)
  case (Cons op ops)
  have "silent sid s (registry_do c op s)" using Cons.prems by (intro do_silent) auto
  moreover have "silent sid (registry_do c op s) (fold (registry_do c) ops (registry_do c op s))"
    using Cons calculation by (intro Cons.IH) (auto simp: silent_def)
  ultimately show ?case by (auto intro: silent_trans)
qed (simp add: silent_refl)

end

definition made_by :: "tick_event \<Rightarrow> strategy_context \<Rightarrow> py_error + signal_event list \<Rightarrow> bool" where
  "made_by ev cx r \<longleftrightarrow> (\<forall>sg \<in> set (outcome r). \<exists>legs why. sg = make_signal ev cx legs why)"

lemma made_by_simps [simp]:
  "made_by ev cx (Inl e)" "made_by ev cx (Inr [])" "made_by ev cx (Inr [make_signal ev cx legs why])"
  "made_by ev cx (Inr (if b then [] else [make_signal ev cx legs why]))"
  by (auto simp: made_by_def outcome_def)

lemma two_sided_made: "made_by ev cx (snd (two_sided_quote why ev cx fv s))"
  by (simp add: two_sided_quote_def Let_def split: sum.split)

lemma grid_made: "made_by ev cx (snd (grid_on_tick ev cx s))"
  by (simp add: grid_on_tick_def Let_def split: sum.split)

lemma obi_made: "made_by ev cx (snd (obi_alpha_on_tick ev cx s))"
  by (simp add: obi_alpha_on_tick_def Let_def obi_quote_def case_prod_beta del: if_split split: sum.split option.split)

lemma ping_made: "made_by ev cx (snd (ping_pong_on_tick ev cx s))"
  by (simp add: ping_pong_on_tick_def Let_def split: sum.split option.split)

lemma momentum_made: "made_by ev cx (snd (momentum_on_tick ev cx s))"
  by (simp add: momentum_on_tick_def Let_def split: sum.split option.split)

lemma example_made: "made_by ev cx (snd (example_on_tick ev cx x))"
  by (simp add: example_on_tick_def market_making_on_tick_def microprice_mm_on_tick_def two_sided_made grid_made
      obi_made ping_made momentum_made Let_def split: example.split)

interpretation examples: attributed_class example_class
proof
  fix e cx x y sgs sg
  assume "handler_for example_class e cx x = (y, Inr sgs)" "sg \<in> set sgs"
  then obtain ev where "example_on_tick ev cx x = (y, Inr sgs)"
    by (auto simp: handler_for_def example_class_def abstract_strategy_def split: event.splits)
  with example_made [of ev cx x] \<open>sg \<in> set sgs\<close> show "sig_strategy sg = cx_strategy cx"
    by (auto simp: made_by_def outcome_def make_signal_def)
qed

text \<open>
  C0: A paused strategy is inert. From the pause until it is resumed, whatever events, parameters and
  pauses of others come, the state of the strategy stays as it was and no signal in its name is
  published, for registries that hold any of the example strategies.
\<close>

theorem pause_silences:
  assumes "sid \<in> rg_paused s" and "set ops \<inter> {DoStart, DoStop, DoResume sid} = {}"
  defines "s1 \<equiv> fold (registry_do example_class) ops s"
  shows "dget (rg_strategies s1) sid = dget (rg_strategies s) sid \<and>
    (\<exists>new. signals_in (rg_sent s1) = signals_in (rg_sent s) @ new \<and> (\<forall>sg \<in> set new. sig_strategy sg \<noteq> sid))"
  using examples.history_silent [OF assms(1,2)] by (simp add: examples.silent_def s1_def)

definition sample_players :: "example registry" where
  "sample_players = (register_all
     [(\<lparr>sy_id = ''pp'', sy_instruments = [sample_listing], sy_state = ExPingPong (ping_pong_init [sample_listing])\<rparr>, [])]
     (registry_init full_bus 10 (\<lambda>ins sid. None) (\<lambda>k i. 100 * k + i)))\<lparr>rg_paused := {''pp''}\<rparr>"

theorem pause_silences_witness:
  "map_option sy_state (dget (rg_strategies (registry_do example_class (DoMarket (EvTick sample_view_tick)) sample_players)) ''pp'') =
     Some (ExPingPong (ping_pong_init [sample_listing]))"
  using pause_silences [of "''pp''" sample_players "[DoMarket (EvTick sample_view_tick)]"]
  by (simp add: sample_players_def sample_registry_simps dget_def)

subsection \<open>Stopping\<close>

lemma start_all_bus: "rg_bus (fst (start_all c sts s)) = rg_bus s"
proof (induction sts arbitrary: s)
  case (Cons entry sts)
  obtain sid st where [simp]: "entry = (sid, st)" by force
  have "rg_bus (put_state sid x s) = rg_bus s" for x by (simp add: put_state_def)
  with Cons show ?case by (auto split: prod.split sum.split)
qed simp

lemma stop_all_fields:
  "rg_bus (fold (stop_one c) sts s) = rg_bus s" "rg_index (fold (stop_one c) sts s) = rg_index s"
  by (induction sts arbitrary: s) (auto simp: stop_one_def put_state_def)

lemma topic_subs_subscribe:
  "subscribe t n b = Inr b1 \<Longrightarrow>
   length (topic_subs u b1) = (if u = t then Suc (length (topic_subs u b)) else length (topic_subs u b)) \<and>
   ab_stopped b1 = ab_stopped b"
  by (auto simp: subscribe_def topic_subs_def split: if_splits option.split)

lemma start_subscribes:
  assumes "\<not> rg_started s" and "\<not> ab_stopped (rg_bus s)"
  shows "length (topic_subs t (rg_bus (fst (registry_start c s)))) =
      length (topic_subs t (rg_bus s)) + (if t \<in> {MARKET_DATA, FILLS, POSITIONS} then 1 else 0) \<and>
    \<not> ab_stopped (rg_bus (fst (registry_start c s))) \<and> rg_started (fst (registry_start c s))"
proof -
  have open_bus: "\<exists>b1. subscribe u n b = Inr b1" if "\<not> ab_stopped b" for u n b using that by (simp add: subscribe_def)
  obtain b1 where b1: "subscribe MARKET_DATA ''_handle_market_data'' (rg_bus s) = Inr b1"
    using open_bus [OF assms(2)] by blast
  note n1 = topic_subs_subscribe [OF b1]
  obtain b2 where b2: "subscribe FILLS ''_handle_fill'' b1 = Inr b2" using open_bus [of b1] n1 assms(2) by blast
  note n2 = topic_subs_subscribe [OF b2]
  obtain b3 where b3: "subscribe POSITIONS ''_handle_position_update'' b2 = Inr b3"
    using open_bus [of b2] n1 n2 assms(2) by blast
  note n3 = topic_subs_subscribe [OF b3]
  have started: "rg_started (fst (start_all c sts s)) = rg_started s" for sts s
  proof (induction sts arbitrary: s)
    case (Cons entry sts)
    obtain sid st where [simp]: "entry = (sid, st)" by force
    have "rg_started (put_state sid x s) = rg_started s" for x by (simp add: put_state_def)
    with Cons show ?case by (auto split: prod.split sum.split)
  qed simp
  have "rg_bus (fst (registry_start c s)) = b3" "rg_started (fst (registry_start c s))"
    using assms(1) b1 b2 b3 by (simp_all add: registry_start_def subscribe_to_def start_all_bus started)
  then show ?thesis using n1 [of t] n2 [of t] n3 [of t] assms(2) by (cases t) simp_all
qed

text \<open>
  C0: A stopped registry goes on trading. \<open>stop\<close> keeps the subscriptions and the handlers do not ask
  whether the registry is started: after it the bus delivers to the registry as before, and a registry
  that is started again is subscribed twice to each topic, so that every event reaches every strategy
  twice.
\<close>

theorem stop_keeps_subscriptions:
  fixes c :: "'s strategy_class"
  assumes "\<not> rg_started s" and "\<not> ab_stopped (rg_bus s)" and "t \<in> {MARKET_DATA, FILLS, POSITIONS}"
  defines "s1 \<equiv> fst (registry_start c s)"
  shows "topic_subs t (rg_bus (registry_stop c s1)) = topic_subs t (rg_bus s1) \<and>
    rg_index (registry_stop c s1) = rg_index s1 \<and> \<not> rg_started (registry_stop c s1) \<and>
    length (topic_subs t (rg_bus (fst (registry_start c (registry_stop c s1))))) = length (topic_subs t (rg_bus s)) + 2"
proof -
  have s1: "rg_started s1" "\<not> ab_stopped (rg_bus s1)" "length (topic_subs t (rg_bus s1)) = length (topic_subs t (rg_bus s)) + 1"
    using start_subscribes [OF assms(1,2), of t c] assms(3) by (auto simp: s1_def)
  then have s2: "rg_bus (registry_stop c s1) = rg_bus s1" "rg_index (registry_stop c s1) = rg_index s1"
    "\<not> rg_started (registry_stop c s1)"
    by (simp_all add: registry_stop_def stop_all_fields)
  with s1 start_subscribes [of "registry_stop c s1" t c] assms(3) show ?thesis by auto
qed

theorem stop_keeps_subscriptions_witness:
  "length (topic_subs FILLS (rg_bus (fst (registry_start example_class
     (registry_stop example_class (fst (registry_start example_class sample_players))))))) = 2"
  using stop_keeps_subscriptions [of sample_players FILLS example_class]
  by (simp add: sample_players_def sample_registry_simps full_bus_def topic_subs_def)

end
