(* ===== verification/Quoting_Properties.thy ===== *)
theory Quoting_Properties
  imports Strategy_Properties
begin

text \<open>
  What the quoting strategies keep: quotes that rest, inside the inventory limit, and not too often;
  and what they leave unsaid.
\<close>

subsection \<open>Quotes rest as maker\<close>

definition maker_leg :: "tick_event \<Rightarrow> strategy_context \<Rightarrow> dec \<Rightarrow> dec \<Rightarrow> order_leg \<Rightarrow> bool" where
  "maker_leg ev cx qty max_position leg \<longleftrightarrow>
     leg_type leg = OT_POST_ONLY \<and> leg_quantity leg = qty \<and>
     (case leg_price leg of
        None \<Rightarrow> False
      | Some p \<Rightarrow>
          (case leg_side leg of
             BUY \<Rightarrow> p < tk_ask_price ev \<and> inventory_of (tk_instrument ev) cx < max_position
           | SELL \<Rightarrow> tk_bid_price ev < p \<and> dneg max_position < inventory_of (tk_instrument ev) cx))"

lemma add_quote_maker:
  assumes "add_quote ev cx qty side_open sd price legs = Inr legs1"
    and "side_open = (case sd of BUY \<Rightarrow> inventory_of (tk_instrument ev) cx < m | SELL \<Rightarrow> dneg m < inventory_of (tk_instrument ev) cx)"
    and "list_all (maker_leg ev cx qty m) legs"
  shows "list_all (maker_leg ev cx qty m) legs1"
  using assms by (cases sd) (auto simp: add_quote_def sum_bind_Inr maker_leg_def quote_leg_def post_only_guard_def split: if_splits)

lemma grid_levels_maker:
  assumes "grid_levels ev cx center skew s levels legs = Inr legs1"
    and "list_all (maker_leg ev cx (gr_quote_size s) (gr_max_position s)) legs"
  shows "list_all (maker_leg ev cx (gr_quote_size s) (gr_max_position s)) legs1"
  using assms
proof (induction levels arbitrary: legs)
  case (Cons i levels)
  from Cons.prems(1) obtain l1 where l: "grid_level ev cx center skew s i legs = Inr l1"
    "grid_levels ev cx center skew s levels l1 = Inr legs1" by (auto simp: sum_bind_Inr)
  have "list_all (maker_leg ev cx (gr_quote_size s) (gr_max_position s)) l1"
    using l(1) Cons.prems(2)
    by (auto simp: grid_level_def Let_def sum_bind_Inr elim!: add_quote_maker)
  from Cons.IH [OF l(2) this] show ?case .
qed simp

text \<open>
  C0: What the guarded market makers quote rests at the venue. Every leg of every signal of the grid and
  of the imbalance strategy is a post-only order of the configured size that does not cross the top of
  the book it was computed from, prices held from an earlier tick included, and that is on a side the
  inventory limit leaves open.
\<close>

theorem quotes_rest_as_maker:
  "list_all (\<lambda>sg. list_all (maker_leg ev cx (gr_quote_size g) (gr_max_position g)) (sig_legs sg))
     (outcome (snd (grid_on_tick ev cx g))) \<and>
   list_all (\<lambda>sg. list_all (maker_leg ev cx (oa_quote_size a) (oa_max_position a)) (sig_legs sg))
     (outcome (snd (obi_alpha_on_tick ev cx a)))"
proof
  show "list_all (\<lambda>sg. list_all (maker_leg ev cx (gr_quote_size g) (gr_max_position g)) (sig_legs sg))
      (outcome (snd (grid_on_tick ev cx g)))"
    using grid_levels_maker [of ev cx _ _ "g\<lparr>gr_micro := _\<rparr>" _ "[]"] grid_levels_maker [of ev cx _ _ g _ "[]"]
    by (auto simp: grid_on_tick_def Let_def outcome_def make_signal_def split: sum.splits)
  have "list_all (\<lambda>sg. list_all (maker_leg ev cx (oa_quote_size a) (oa_max_position a)) (sig_legs sg))
      (snd (obi_quote ev cx prices (obi_observe ev o1 (a\<lparr>oa_micro := m\<rparr>))))" for prices o1 m
    by (auto simp: obi_quote_def obi_observe_def Let_def make_signal_def maker_leg_def quote_leg_def post_only_guard_def)
  then show "list_all (\<lambda>sg. list_all (maker_leg ev cx (oa_quote_size a) (oa_max_position a)) (sig_legs sg))
      (outcome (snd (obi_alpha_on_tick ev cx a)))"
    by (auto simp: obi_alpha_on_tick_def Let_def outcome_def case_prod_beta split: sum.split option.split)
qed

subsection \<open>Quotes are spaced\<close>

fun quote_times :: "('s, tick_event) handler \<Rightarrow> string \<Rightarrow> (tick_event \<times> strategy_context) list \<Rightarrow> 's \<Rightarrow> timestamp list" where
  "quote_times f iid [] x = []"
| "quote_times f iid ((ev, cx) # ticks) x =
     (if instrument_id (tk_instrument ev) = iid \<and> outcome (snd (f ev cx x)) \<noteq> [] then [cx_now cx] else []) @
     quote_times f iid ticks (fst (f ev cx x))"

text \<open>A handler whose quotes pass the time gate.\<close>

locale requote_gate =
  fixes f :: "('s, tick_event) handler"
    and last_quote :: "'s \<Rightarrow> string \<Rightarrow> timestamp"
    and interval :: "'s \<Rightarrow> int"
  assumes interval_kept: "interval (fst (f ev cx x)) = interval x"
    and gate: "0 < interval x \<Longrightarrow>
      last_quote (fst (f ev cx x)) iid = last_quote x iid \<and>
        (instrument_id (tk_instrument ev) = iid \<longrightarrow> outcome (snd (f ev cx x)) = []) \<or>
      instrument_id (tk_instrument ev) = iid \<and> last_quote x iid + interval x \<le> cx_now cx \<and>
        last_quote (fst (f ev cx x)) iid = cx_now cx"
begin

lemma spaced:
  assumes "0 < interval x"
  shows "sorted_wrt (\<lambda>s t. s + interval x \<le> t) (quote_times f iid ticks x) \<and>
    (\<forall>t \<in> set (quote_times f iid ticks x). last_quote x iid + interval x \<le> t)"
  using assms
proof (induction ticks arbitrary: x)
  case (Cons tick ticks)
  obtain ev cx where [simp]: "tick = (ev, cx)" by force
  let ?y = "fst (f ev cx x)"
  have "interval ?y = interval x" by (rule interval_kept)
  with Cons.IH [of ?y] Cons.prems
  have IH: "sorted_wrt (\<lambda>s t. s + interval x \<le> t) (quote_times f iid ticks ?y)"
    "\<forall>t \<in> set (quote_times f iid ticks ?y). last_quote ?y iid + interval x \<le> t" by simp_all
  from gate [OF Cons.prems, of ev cx iid] IH Cons.prems show ?case by fastforce
qed simp

end

lemma should_requote_gate:
  "should_requote n th last_ns prices iid p now \<Longrightarrow> 0 < n \<Longrightarrow>
   (case dget last_ns iid of None \<Rightarrow> 0 | Some t \<Rightarrow> t) + n \<le> now"
  by (auto simp: should_requote_def split: if_splits)

definition last_quote_of :: "(string, timestamp) dict \<Rightarrow> string \<Rightarrow> timestamp" where
  "last_quote_of d iid = (case dget d iid of None \<Rightarrow> 0 | Some t \<Rightarrow> t)"

interpretation grid_gate: requote_gate grid_on_tick "\<lambda>g. last_quote_of (gr_last_ns g)" gr_interval_ns
proof
  fix ev cx and x :: grid and iid
  show "gr_interval_ns (fst (grid_on_tick ev cx x)) = gr_interval_ns x"
    by (simp add: grid_on_tick_def Let_def split: sum.split)
  assume "0 < gr_interval_ns x"
  then show "last_quote_of (gr_last_ns (fst (grid_on_tick ev cx x))) iid = last_quote_of (gr_last_ns x) iid \<and>
      (instrument_id (tk_instrument ev) = iid \<longrightarrow> outcome (snd (grid_on_tick ev cx x)) = []) \<or>
    instrument_id (tk_instrument ev) = iid \<and> last_quote_of (gr_last_ns x) iid + gr_interval_ns x \<le> cx_now cx \<and>
      last_quote_of (gr_last_ns (fst (grid_on_tick ev cx x))) iid = cx_now cx"
    using should_requote_gate [of "gr_interval_ns x" "gr_threshold x" "gr_last_ns x" "gr_last_center x"
        "instrument_id (tk_instrument ev)" _ "cx_now cx"]
    by (auto simp: grid_on_tick_def Let_def outcome_def last_quote_of_def grid_should_requote_def split: sum.split)
qed

lemma two_sided_gate:
  fixes s :: "'a two_sided_scheme"
  shows "ts_interval_ns (fst (two_sided_quote why ev cx fv s)) = ts_interval_ns s"
    and "0 < ts_interval_ns s \<Longrightarrow>
      last_quote_of (ts_last_ns (fst (two_sided_quote why ev cx fv s))) iid = last_quote_of (ts_last_ns s) iid \<and>
        (instrument_id (tk_instrument ev) = iid \<longrightarrow> outcome (snd (two_sided_quote why ev cx fv s)) = []) \<or>
      instrument_id (tk_instrument ev) = iid \<and> last_quote_of (ts_last_ns s) iid + ts_interval_ns s \<le> cx_now cx \<and>
        last_quote_of (ts_last_ns (fst (two_sided_quote why ev cx fv s))) iid = cx_now cx"
  using should_requote_gate [of "ts_interval_ns s" "ts_threshold s" "ts_last_ns s" "ts_last_price s"
      "instrument_id (tk_instrument ev)" fv "cx_now cx"]
  by (auto simp: two_sided_quote_def Let_def outcome_def last_quote_of_def ts_should_requote_def split: sum.split)

interpretation mm_gate: requote_gate market_making_on_tick "\<lambda>s. last_quote_of (ts_last_ns s)" ts_interval_ns
  unfolding market_making_on_tick_def by unfold_locales (rule two_sided_gate; assumption?)+

interpretation micro_gate: requote_gate microprice_mm_on_tick "\<lambda>s. last_quote_of (ts_last_ns s)" ts_interval_ns
proof
  fix ev cx iid and x :: microprice_mm
  let ?m = "tick_microprice ev (mp_micro x)"
  show "ts_interval_ns (fst (microprice_mm_on_tick ev cx x)) = ts_interval_ns x"
    by (simp add: microprice_mm_on_tick_def Let_def two_sided_gate)
  assume "0 < ts_interval_ns x"
  then show "last_quote_of (ts_last_ns (fst (microprice_mm_on_tick ev cx x))) iid = last_quote_of (ts_last_ns x) iid \<and>
      (instrument_id (tk_instrument ev) = iid \<longrightarrow> outcome (snd (microprice_mm_on_tick ev cx x)) = []) \<or>
    instrument_id (tk_instrument ev) = iid \<and> last_quote_of (ts_last_ns x) iid + ts_interval_ns x \<le> cx_now cx \<and>
      last_quote_of (ts_last_ns (fst (microprice_mm_on_tick ev cx x))) iid = cx_now cx"
    using two_sided_gate(2) [of "x\<lparr>mp_micro := ?m\<rparr>"] by (simp add: microprice_mm_on_tick_def Let_def)
qed

text \<open>
  C0: Quotes are spaced. Whatever ticks of whatever instruments come, at whatever times, two signals of a
  market maker for one instrument are at least the configured interval apart.
\<close>

theorem quotes_are_spaced:
  assumes "0 < gr_interval_ns g" and "0 < ts_interval_ns s" and "0 < ts_interval_ns m"
  shows "sorted_wrt (\<lambda>t u. t + gr_interval_ns g \<le> u) (quote_times grid_on_tick iid ticks g) \<and>
    sorted_wrt (\<lambda>t u. t + ts_interval_ns s \<le> u) (quote_times market_making_on_tick iid ticks s) \<and>
    sorted_wrt (\<lambda>t u. t + ts_interval_ns m \<le> u) (quote_times microprice_mm_on_tick iid ticks m)"
  using grid_gate.spaced [OF assms(1)] mm_gate.spaced [OF assms(2)] micro_gate.spaced [OF assms(3)] by blast

subsection \<open>Sides that are withdrawn\<close>

fun example_ok :: "example \<Rightarrow> bool" where
  "example_ok (ExMarketMaking s) = (0 < ts_max_position s)"
| "example_ok (ExMicroprice s) = (0 < ts_max_position s)"
| "example_ok _ = True"

definition asks_something :: "py_error + signal_event list \<Rightarrow> bool" where
  "asks_something r \<longleftrightarrow> list_all (\<lambda>sg. sig_legs sg \<noteq> []) (outcome r)"

lemma asks_simps [simp]:
  "asks_something (Inl e)" "asks_something (Inr [])" "asks_something (Inr [make_signal ev cx (l # ls) why])"
  "asks_something (Inr (if legs = [] then [] else [make_signal ev cx legs why]))"
  by (auto simp: asks_something_def outcome_def make_signal_def)

lemma two_sided_asks:
  fixes s :: "'a two_sided_scheme"
  assumes "0 < ts_max_position s"
  shows "asks_something (snd (two_sided_quote why ev cx fv s))"
proof -
  have "dneg (ts_max_position s) < 0" using assms by (simp add: dneg_def rnd_neg_iff)
  then have "legs \<noteq> []" if "two_sided_legs ev cx fv s = Inr legs" for legs
    using that assms by (auto simp: two_sided_legs_def Let_def sum_bind_Inr split: if_splits)
  then show ?thesis
    by (auto simp: two_sided_quote_def Let_def asks_something_def outcome_def make_signal_def split: sum.splits)
qed

text \<open>
  C0: Withdrawing everything is never said. A signal is the whole state a strategy wants, and one
  without legs asks for everything to be cancelled; no example ever sends one. When the guards take
  both sides of the imbalance strategy it forgets its quotes, taking them for withdrawn, and sends
  nothing: the orders of the quotes stay where they are.
\<close>

theorem withdrawal_is_never_signalled:
  assumes "example_ok x"
    and "obi_alpha_on_tick ev cx a = (a1, Inr sgs)" and "oa_last_bid a1 = None" and "oa_last_ask a1 = None"
  shows "asks_something (snd (example_on_tick ev cx x)) \<and> sgs = []"
proof
  have "asks_something (snd (obi_alpha_on_tick ev cx o1))" for o1
    by (simp add: obi_alpha_on_tick_def Let_def obi_quote_def case_prod_beta del: if_split split: sum.split option.split)
  moreover have "asks_something (snd (grid_on_tick ev cx g))" for g
    by (simp add: grid_on_tick_def Let_def split: sum.split)
  moreover have "asks_something (snd (ping_pong_on_tick ev cx p))" for p
    by (simp add: ping_pong_on_tick_def Let_def split: sum.split option.split)
  moreover have "asks_something (snd (momentum_on_tick ev cx m))" for m
    by (simp add: momentum_on_tick_def Let_def split: sum.split option.split)
  ultimately show "asks_something (snd (example_on_tick ev cx x))"
    using assms(1)
    by (cases x) (simp_all add: example_on_tick_def market_making_on_tick_def microprice_mm_on_tick_def Let_def two_sided_asks)
  show "sgs = []"
    using assms(2-4)
    by (auto simp: obi_alpha_on_tick_def obi_quote_def Let_def split: sum.splits option.splits if_splits)
qed

subsection \<open>Instances\<close>

definition sample_context :: "timestamp \<Rightarrow> strategy_context" where
  "sample_context t = \<lparr>cx_strategy = ''mm'', cx_now = t, cx_portfolio = \<lambda>ins sid. None, cx_parameters = [], cx_uuid = \<lambda>i. i\<rparr>"

definition sample_mm :: "(string, timestamp) dict \<Rightarrow> (string, dec) dict \<Rightarrow> two_sided" where
  "sample_mm quoted prices = \<lparr>ts_quote_size = 1, ts_half_spread = 0, ts_max_position = 5, ts_skew_frac = 0,
     ts_interval_ns = 100, ts_threshold = 0, ts_last_ns = quoted, ts_last_price = prices\<rparr>"

lemma float_dec_0 [simp]: "float_dec 0 = 0"
  by (simp add: float_dec_def float_text_def)

lemma skew_ratio_0 [simp]: "skew_ratio 0 m = 0"
  by (simp add: skew_ratio_def dec_ops rnd_def)

lemma float_dec_100: "float_dec 100 = 100"
proof -
  have "dec_exp 100 = - 25" by (rule dec_exp_unique) (simp_all add: power_int_minus)
  then have d: "float_digits 100 1 = 100" by (simp add: float_digits_def)
  have "[1 ..< 18] = 1 # [2 ..< 18]" by (simp add: upt_rec)
  then have "find (\<lambda>n. float_of (float_digits 100 n) = 100) [1 ..< 18] = Some 1" using d by simp
  then show ?thesis using d by (simp add: float_dec_def float_text_def)
qed

lemma round_100: "round_price sample_listing 100 = Some 100"
  by (simp add: round_price_def dfloordiv_def sample_listing_def dec_ops trunc_def)

lemma sample_mid: "tick_mid sample_view_tick = 100"
  by (simp add: tick_mid_def sample_view_tick_def dec_ops)

lemma sample_quote:
  "market_making_on_tick sample_view_tick (sample_context t) (sample_mm quoted prices) =
     (if t - last_quote_of quoted (instrument_id sample_listing) < 100 then (sample_mm quoted prices, Inr [])
      else (sample_mm (dset (instrument_id sample_listing) t quoted) (dset (instrument_id sample_listing) 100 prices),
            Inr [make_signal sample_view_tick (sample_context t)
              [quote_leg (sample_context t) 0 BUY 100 1, quote_leg (sample_context t) 1 SELL 100 1] ''market-make'']))"
proof -
  have "two_sided_legs sample_view_tick (sample_context t) 100 (sample_mm quoted prices) =
      Inr [quote_leg (sample_context t) 0 BUY 100 1, quote_leg (sample_context t) 1 SELL 100 1]"
    using round_100
    by (simp add: two_sided_legs_def Let_def sample_view_tick_def sample_context_def inventory_of_def sample_mm_def
        option_err_def dec_ops)
  moreover have "tk_instrument sample_view_tick = sample_listing" by (simp add: sample_view_tick_def)
  ultimately show ?thesis
    by (simp add: market_making_on_tick_def sample_mid two_sided_quote_def Let_def ts_should_requote_def
        should_requote_def last_quote_of_def) (simp add: sample_mm_def sample_context_def)
qed

lemma sample_quote_times: "quote_times market_making_on_tick (instrument_id sample_listing)
     [(sample_view_tick, sample_context 100), (sample_view_tick, sample_context 150), (sample_view_tick, sample_context 250)]
     (sample_mm [] []) = [100, 250]"
  by (simp add: sample_quote last_quote_of_def outcome_def) (simp add: sample_context_def sample_view_tick_def)

definition sample_obi :: obi_alpha where
  "sample_obi = \<lparr>oa_quote_size = 1, oa_half_spread = 0, oa_max_position = 5, oa_skew_frac = 0, oa_obi_alpha = 0,
     oa_ofi_alpha = 0, oa_window = 10, oa_min_ticks = 100, oa_micro = None, oa_obi = None, oa_ofi = None,
     oa_last_bid = Some 105, oa_last_ask = Some 90\<rparr>"

lemma sample_crossed:
  "\<exists>a1 sgs. obi_alpha_on_tick sample_view_tick (sample_context 0) sample_obi = (a1, Inr sgs) \<and>
     oa_last_bid a1 = None \<and> oa_last_ask a1 = None"
proof -
  obtain o1 where o1: "ofi_init (oa_window sample_obi) = Inr o1" "of_events o1 = []" "of_prev o1 = None" "of_last o1 = None"
    by (simp add: ofi_init_def sample_obi_def)
  have micro: "tick_microprice sample_view_tick None = Some 100"
    by (simp add: tick_microprice_def microprice_update_def sample_view_tick_def)
  let ?s = "obi_observe sample_view_tick o1 (sample_obi\<lparr>oa_micro := Some 100\<rparr>)"
  have "oa_obi ?s = Some 0" "oa_ofi ?s \<noteq> None" "of_last (the (oa_ofi ?s)) = None"
    using o1 by (simp_all add: obi_observe_def obi_update_def ofi_update_def sample_view_tick_def sample_obi_def Let_def)
  then have fv: "obi_fair_value 100 ?s = 100"
    using float_dec_100 by (auto simp: obi_fair_value_def obi_observe_def sample_obi_def)
  have s: "oa_quote_size ?s = 1" "oa_half_spread ?s = 0" "oa_max_position ?s = 5" "oa_skew_frac ?s = 0"
    "oa_min_ticks ?s = 100" "oa_last_bid ?s = Some 105" "oa_last_ask ?s = Some 90"
    by (simp_all add: obi_observe_def sample_obi_def Let_def)
  have half: "round_half_up 100 = 100" by (simp add: round_half_up_def floor_eq_iff)
  have tick: "tk_instrument sample_view_tick = sample_listing" "i_tick_size sample_listing = 1"
    "inventory_of sample_listing (sample_context 0) = 0" "tk_bid_price sample_view_tick = 99" "tk_ask_price sample_view_tick = 101"
    by (simp_all add: sample_view_tick_def sample_listing_def sample_context_def inventory_of_def)
  have fresh: "oa_ofi sample_obi = None" "oa_micro sample_obi = None" by (simp_all add: sample_obi_def)
  have "obi_prices sample_view_tick (sample_context 0) 100 ?s = Inr (105, 90)"
    by (simp add: obi_prices_def Let_def fv s tick dec_ops round_to_tick_def half quantized_def held_price_def)
  moreover have "obi_alpha_on_tick sample_view_tick (sample_context 0) sample_obi =
      (case obi_prices sample_view_tick (sample_context 0) 100 ?s of
         Inl e \<Rightarrow> (?s, Inl e)
       | Inr prices \<Rightarrow> (case obi_quote sample_view_tick (sample_context 0) prices ?s of (s2, signals) \<Rightarrow> (s2, Inr signals)))"
    using o1(1) micro fresh by (simp add: obi_alpha_on_tick_def Let_def)
  moreover have "obi_quote sample_view_tick (sample_context 0) (105, 90) ?s =
      (?s\<lparr>oa_last_bid := None, oa_last_ask := None\<rparr>, [])"
    by (simp add: obi_quote_def Let_def post_only_guard_def tick)
  ultimately show ?thesis by simp
qed

theorem withdrawal_is_never_signalled_witness:
  "\<exists>a1. obi_alpha_on_tick sample_view_tick (sample_context 0) sample_obi = (a1, Inr []) \<and>
     oa_last_bid a1 = None \<and> asks_something (snd (example_on_tick sample_view_tick (sample_context 0) (ExMarketMaking (sample_mm [] []))))"
proof -
  obtain a1 sgs where a: "obi_alpha_on_tick sample_view_tick (sample_context 0) sample_obi = (a1, Inr sgs)"
    "oa_last_bid a1 = None" "oa_last_ask a1 = None" using sample_crossed by blast
  have "example_ok (ExMarketMaking (sample_mm [] []))" by (simp add: sample_mm_def)
  from withdrawal_is_never_signalled [OF this a] a show ?thesis by auto
qed

theorem quotes_are_spaced_witness:
  "quote_times market_making_on_tick (instrument_id sample_listing)
     [(sample_view_tick, sample_context 100), (sample_view_tick, sample_context 150), (sample_view_tick, sample_context 250)]
     (sample_mm [] []) = [100, 250] \<and>
   sorted_wrt (\<lambda>t u. t + 100 \<le> u) [100 :: int, 250]"
proof -
  define g :: grid where "g = \<lparr>gr_quote_size = 1, gr_n_levels = 1, gr_step_frac = 1, gr_max_position = 1, gr_skew_frac = 0,
    gr_use_microprice = False, gr_interval_ns = 1, gr_threshold = 0, gr_micro = None, gr_last_ns = [], gr_last_center = []\<rparr>"
  define m :: microprice_mm where "m = two_sided.extend (sample_mm [] []) \<lparr>mp_micro = None\<rparr>"
  have i: "0 < gr_interval_ns g" "0 < ts_interval_ns (sample_mm [] [])" "0 < ts_interval_ns m" "ts_interval_ns (sample_mm [] []) = 100"
    by (simp_all add: g_def m_def sample_mm_def two_sided.defs)
  from quotes_are_spaced [OF i(1-3), of "instrument_id sample_listing"
      "[(sample_view_tick, sample_context 100), (sample_view_tick, sample_context 150), (sample_view_tick, sample_context 250)]"]
  show ?thesis by (simp only: sample_quote_times i(4))
qed


end
