(* ===== verification/Spec2Isabelle.thy ===== *)
theory Spec2Isabelle
  imports Prelude Core_Types Orders Exec_Algos Router Event_Bus OMS_Reconcile OMS_Housekeeping
    Risk_Limits Position_Properties Depth_Book Backtest_Properties Venue_Sync_Properties User_Data_Properties
    Rate_Limiter Simulation_Twin Normalizer_Properties Feed_Sources Replay_Properties Backtest_Report
    Quoting_Properties
begin

text \<open>
  A verification library for the trading platform under \<open>src/src/trading/\<close>: an event-driven system in
  which strategies emit signals, a risk engine decides on them, an order management system (OMS)
  turns decisions into orders, a gateway executes them at a venue, and a position engine keeps the
  ledgers of the fills. The components talk over a bus of topics; every one of them is a state
  record and one function per handler, composed as the code composes its calls.

  Theories and what they model.
  \<^item> \<open>Prelude\<close>: insertion-ordered dictionaries as association lists (\<open>dget\<close>, \<open>dset\<close>, \<open>dmod\<close>, \<open>dpop\<close>),
    the exceptions as the datatype \<open>py_error\<close>; a raising operation returns \<open>py_error + 'a\<close>.
  \<^item> \<open>Decimals\<close>, \<open>Floats\<close>: Python's \<open>Decimal\<close> with its 28 digits (\<open>dadd\<close>, \<open>dsub\<close>, \<open>dmul\<close>, \<open>ddiv\<close> round
    half to even) and \<open>float\<close> as the rational number of the nearest double.
  \<^item> \<open>Core_Types\<close>: \<open>core/types.py\<close>, \<open>core/instruments.py\<close>, \<open>core/events.py\<close>, \<open>core/clock.py\<close>.
  \<^item> \<open>Event_Bus\<close>: \<open>event_bus/asyncio_bus.py\<close>; bounded queues, one per subscription.
  \<^item> \<open>Order_State_Machine\<close>, \<open>Orders\<close>, \<open>Exec_Algos\<close>, \<open>Router\<close>: \<open>oms/state_machine.py\<close>, \<open>oms/order.py\<close>,
    \<open>oms/execution_algos/\<close>, \<open>oms/router.py\<close>.
  \<^item> \<open>OMS_State\<close>, \<open>OMS_Engine\<close>: \<open>oms/engine.py\<close>, with \<open>OMS_Invariants\<close> (what every operation keeps),
    \<open>OMS_Reconcile\<close> (a signal's snapshot against what rests), \<open>OMS_Properties\<close> (lives of orders, exposure,
    kill switch) and \<open>OMS_Housekeeping\<close> (caches, sweeps, adoption of venue orders).
  \<^item> \<open>Risk_State\<close>, \<open>Risk_Rules\<close>, \<open>Risk_Engine\<close>: \<open>risk/\<close>, with \<open>Risk_Properties\<close> (what every decision
    satisfies, by rule induction over histories) and \<open>Risk_Limits\<close> (the guarantees).
  \<^item> \<open>Accounting\<close>, \<open>Position_Engine\<close>: \<open>position/\<close>, with \<open>Accounting_Laws\<close> (a ledger as an interface and
    its three instances) and \<open>Position_Properties\<close>.
  \<^item> \<open>Order_Book\<close>, \<open>Depth_Book\<close>: \<open>feed_handler/order_book.py\<close>, \<open>feed_handler/sequencer.py\<close> and
    \<open>order_gateways/binance/depth_book.py\<close>; the depth book refines the venue's book.
  \<^item> \<open>Venue_Sim\<close>, \<open>Backtest_Gateway\<close>: \<open>order_gateways/sim_config.py\<close> and \<open>backtest/order_gateway.py\<close>, with
    \<open>Backtest_Properties\<close> (the schedule as a priority queue).
  \<^item> This theory: the properties that span components (risk with the OMS, the position engine with
    risk, fills in the OMS and in the ledgers, the backtest venue with the OMS).

  Interfaces are locales: dictionaries, execution algorithms, ledgers and the event heap state
  their laws once; each is interpreted on the model's own definitions in the theory of its provider.

  Conventions. Machine integers do not occur: Python's integers are unbounded. An \<open>await\<close> inside a
  handler that yields control is a split of the handler into two operations (the snapshot of the
  depth book); a publication only puts into queues and does not yield. Random numbers, UUIDs and the
  time are parameters or fields of the state. Loops are structural or terminate by a measure; no
  fuel is used. Free texts that only people read are enumerations or format strings with arguments.
  Collections the code never bounds (orders, fill ids) are not bounded here either.

  Not modelled. Transport and process plumbing (HTTP and WebSocket clients, the Kafka bus, the
  dashboard, heartbeats, logging, runners, configuration files, plugin registration), the analytics
  and the example strategies (floating-point statistics on which no other component relies for
  correctness), and, so far, the Binance user-data translation, the sleeping simulation gateway, the
  feed engine and the replay loop of the backtest.
\<close>

subsection \<open>Withdrawing everything, through risk and the OMS\<close>

text \<open>
  A strategy that withdraws everything, by a signal without legs, gets a decision that is not
  approved; on it the OMS pulls the plain orders of the strategy and instrument but leaves every
  running execution algorithm in place and every child order as it is, so a sliced leg goes on
  being sent.
\<close>

theorem withdrawal_leaves_algos:
  assumes "sig_legs sg = []" and "decided r sg d"
  shows "\<not> rd_approved d \<and>
    om_algos (fst (on_risk_decision (EvDecision d) s)) = om_algos s \<and>
    (\<forall>i o1. get_order i s = Some o1 \<longrightarrow> o_parent_leg o1 \<noteq> None \<longrightarrow>
       get_order i (fst (on_risk_decision (EvDecision d) s)) = Some o1)"
proof -
  have "\<not> rd_approved d"
    using approved_legs_ok [OF assms(2)] decidedD [OF assms(2)] assms(1)
    by (auto simp: good_decision_def)
  moreover have "get_order i (s\<lparr>om_signals := x\<rparr>) = get_order i s" for i x
    by (simp add: get_order_def)
  ultimately show ?thesis
    by (auto simp: on_risk_decision_def cancel_resting_def fold_cancel_get Let_def cancel_effect_def
        split: option.splits)
qed

definition sample_slicing :: oms where
  "sample_slicing = sample_oms\<lparr>om_signals := [(1, sample_sig, 0)],
     om_algos := [(''b1'', Immediate (immediate_init 5 OT_LIMIT TIF_GTC (Some 100)))]\<rparr>"

theorem withdrawal_leaves_algos_witness:
  "\<exists>d. decided (sample_risk []) sample_sig d \<and>
     dkeys (om_algos (fst (on_risk_decision (EvDecision d) sample_slicing))) = [''b1'']"
proof -
  obtain d where d: "decided (sample_risk []) sample_sig d" using decided_good by blast
  have "sig_legs sample_sig = []" by (simp add: sample_sig_def)
  from withdrawal_leaves_algos [OF this d, of sample_slicing] d show ?thesis
    by (auto simp: sample_slicing_def dkeys_def)
qed

subsection \<open>Fills, positions and risk\<close>

text \<open>
  C19: Risk sees the ledger. After every history of the position engine, handling one more fill ends
  with a position update; once the risk engine has handled that update, the confirmed position its
  rules read for the strategy and instrument is the quantity of the ledger of all their fills,
  whatever the risk engine believed before.
\<close>

theorem risk_sees_the_ledger:
  "\<exists>u ok b. last (pe_sent (fold pos_do (ops @ [PosFill (EvFill f)]) (position_engine_init m src bus t)))
       = (POSITIONS, EvPosition u, ok) \<and>
     ledger_after m (fills_of ops @ [f]) (fill_key f) = Some b \<and>
     get_position (fl_strategy f) (fl_instrument f) (rk_state (risk_on_position_update (EvPosition u) r))
       = book_quantity b"
proof -
  let ?s = "fold pos_do ops (position_engine_init m src bus t)"
  obtain b where b: "dget (pe_books (pos_on_fill (EvFill f) ?s)) (fill_key f) = Some b"
    by (simp add: pos_on_fill_books)
  moreover have "dget (pe_books (pos_on_fill (EvFill f) ?s)) (fill_key f) =
      ledger_after m (fills_of ops @ [f]) (fill_key f)"
    using ledgers_after_fill [of f ops m src bus t] by simp
  moreover obtain u ok where "last (pe_sent (pos_on_fill (EvFill f) ?s)) = (POSITIONS, EvPosition u, ok)"
    "pu_strategy u = fl_strategy f" "pu_instrument u = fl_instrument f" "pu_quantity u = book_quantity b"
    using pos_on_fill_publishes [OF b] by blast
  ultimately show ?thesis
    using get_position_apply_update [of u "rk_now r" "rk_state r"]
    by (auto simp: risk_on_position_update_def)
qed

text \<open>
  C30: A fill delivered twice is counted once by the order and twice by the position: the OMS drops
  the second delivery, the position engine, which has no record of fill ids, applies it again.
\<close>

theorem duplicate_fill_moves_position_twice:
  assumes "books.exact_run [f, f] (make_book m)"
  shows "record_fill f (fst (record_fill f o1)) = (fst (record_fill f o1), False) \<and>
    (\<exists>b. dget (pe_books (fold pos_do [PosFill (EvFill f), PosFill (EvFill f)] (position_engine_init m src bus t)))
           (fill_key f) = Some b \<and> book_position b = 2 * signed_quantity f)"
proof -
  have "book_position (fold book_apply_fill [f, f] (make_book m)) = 2 * signed_quantity f"
    using books.run_position [OF _ assms] by simp
  moreover have "fl_fill_id f \<in> o_applied (fst (record_fill f o1))"
    by (simp add: record_fill_def Let_def)
  ultimately show ?thesis
    using books_after [of "[PosFill (EvFill f), PosFill (EvFill f)]" m src bus t "fill_key f"]
    by (simp add: ledger_after_def record_fill_def [of f "fst (record_fill f o1)"])
qed

theorem duplicate_fill_moves_position_twice_witness:
  "\<exists>b. dget (pe_books (fold pos_do [PosFill (EvFill (trade BUY 2 100)), PosFill (EvFill (trade BUY 2 100))]
      (position_engine_init M_WAVG ''p'' (sample_bus 10 1) 0))) (fill_key (trade BUY 2 100)) = Some b \<and>
    book_position b = 4"
proof -
  have "books.exact_run [trade BUY 2 100, trade BUY 2 100] (make_book M_WAVG)"
    by (simp add: trade_def wavg_init_def wavg_exact_def wavg_apply_fill_def signed_quantity_def dec_ops)
  from duplicate_fill_moves_position_twice [OF this] show ?thesis
    by (auto simp: trade_def signed_quantity_def)
qed


subsection \<open>The backtest venue and the OMS\<close>

lemma get_order_handle_ack:
  "get_order i s = Some o1 \<Longrightarrow> o_status o1 = PENDING_NEW \<Longrightarrow> re_order_id ev = i \<Longrightarrow>
    \<exists>o2. get_order i (handle_ack ev s) = Some o2 \<and> o_status o2 = ACKNOWLEDGED"
  by (auto simp: handle_ack_def try_transition_def transition_to_def validate_transition_def
      split: option.splits sum.splits)

lemma get_order_handle_reject_dropped:
  "get_order i s = Some o1 \<Longrightarrow> o_status o1 \<in> {ACKNOWLEDGED, PENDING_CANCEL, PARTIALLY_FILLED} \<Longrightarrow>
    re_order_id ev = i \<Longrightarrow> handle_reject ev s = s"
  by (auto simp: handle_reject_def try_transition_def transition_to_def validate_transition_def
      split: option.splits sum.splits)

text \<open>
  A market order on the backtest venue before any tick of its instrument has been seen is
  acknowledged and then rejected. The OMS takes the acknowledgement; from there the table has no way
  to REJECTED, so it drops the rejection and keeps the order open, though the venue has forgotten it.
\<close>

theorem market_order_without_data_stays_open:
  assumes "rq_type req = OT_MARKET" and "rq_price req = None"
    and "i_exchange (rq_instrument req) = sc_venue (bg_cfg g)" and "sc_reject_probability (bg_cfg g) \<le> 0"
    and "dget (bg_tops g) (instrument_id (rq_instrument req)) = None" and "bg_schedule g = []"
    and "get_order (rq_order_id req) s = Some o1" and "o_status o1 = PENDING_NEW"
  shows "\<exists>a r o2. map sd_event (bg_schedule (fst (bt_on_order_event (EvOrderRequest req) g))) = [EvAck a, EvRejected r] \<and>
    bg_resting (fst (bt_on_order_event (EvOrderRequest req) g)) = bg_resting g \<and>
    get_order (rq_order_id req) (fold on_order_event [EvAck a, EvRejected r] s) = Some o2 \<and>
    o_status o2 = ACKNOWLEDGED"
proof -
  let ?g = "fst (bt_on_order_event (EvOrderRequest req) g)"
  obtain a r where ar: "map sd_event (bg_schedule ?g) = [EvAck a, EvRejected r]" "bg_resting ?g = bg_resting g"
    "re_order_id a = rq_order_id req" "re_order_id r = rq_order_id req"
    using assms(1-6)
    by (auto simp: bt_on_order_event_def bt_handle_order_request_def Let_def crosses_now_def bg_uuid_def
        fill_market_def market_price_def schedule_ack_def schedule_reject_def schedule_event_def response_def)
  from get_order_handle_ack [OF assms(7,8) ar(3)] obtain o2 where
    o2: "get_order (rq_order_id req) (handle_ack a s) = Some o2" "o_status o2 = ACKNOWLEDGED" by blast
  have "handle_reject r (handle_ack a s) = handle_ack a s"
    using get_order_handle_reject_dropped [OF o2(1) _ ar(4)] o2(2) by simp
  with ar o2 show ?thesis by (auto simp: on_order_event_def)
qed

text \<open>An OMS that sent the order \<open>7\<close> and holds it in a given status.\<close>

definition sample_waiting :: "order_status \<Rightarrow> oms" where
  "sample_waiting st = sample_oms\<lparr>om_orders := [(7, sample_order st 0)]\<rparr>"

lemma get_sample_waiting [simp]: "get_order 7 (sample_waiting st) = Some (sample_order st 0)"
  by (simp add: sample_waiting_def get_order_def)

theorem market_order_without_data_stays_open_witness:
  "\<exists>e1 e2 o2. map sd_event (bg_schedule (fst (bt_on_order_event
        (EvOrderRequest (sample_request OT_MARKET None)) sample_gateway))) = [e1, e2] \<and>
     get_order 7 (fold on_order_event [e1, e2] (sample_waiting PENDING_NEW)) = Some o2 \<and>
     o_status o2 = ACKNOWLEDGED"
proof -
  have 1: "rq_type (sample_request OT_MARKET None) = OT_MARKET" "rq_price (sample_request OT_MARKET None) = None"
    by (simp_all add: sample_request_def)
  have 2: "i_exchange (rq_instrument (sample_request OT_MARKET None)) = sc_venue (bg_cfg sample_gateway)"
    "sc_reject_probability (bg_cfg sample_gateway) \<le> 0"
    "dget (bg_tops sample_gateway) (instrument_id (rq_instrument (sample_request OT_MARKET None))) = None"
    "bg_schedule sample_gateway = []"
    by (simp_all add: sample_request_def sample_gateway_def backtest_init_def default_sim_config_def sample_instrument_def)
  have 3: "get_order (rq_order_id (sample_request OT_MARKET None)) (sample_waiting PENDING_NEW) =
      Some (sample_order PENDING_NEW 0)" "o_status (sample_order PENDING_NEW 0) = PENDING_NEW"
    by (simp_all add: sample_request_def sample_order_def)
  from market_order_without_data_stays_open [OF 1 2 3] show ?thesis
    by (auto simp: sample_request_def)
qed

text \<open>
  A cancel of an order the backtest venue no longer has is answered with a rejection of the
  order. The OMS, whose order is waiting for its cancel, drops that answer, so the order stays in
  PENDING_CANCEL; nothing else is scheduled for it.
\<close>

theorem failed_cancel_stays_pending:
  assumes "dget (bg_resting g) (cr_order_id req) = None" and "bg_schedule g = []"
    and "get_order (cr_order_id req) s = Some o1" and "o_status o1 = PENDING_CANCEL"
  shows "\<exists>r. map sd_event (bg_schedule (fst (bt_on_order_event (EvCancelRequest req) g))) = [EvRejected r] \<and>
    get_order (cr_order_id req) (on_order_event (EvRejected r) s) = Some o1"
proof -
  obtain r where r: "map sd_event (bg_schedule (fst (bt_on_order_event (EvCancelRequest req) g))) = [EvRejected r]"
    "re_order_id r = cr_order_id req"
    using assms(1,2) by (auto simp: bt_on_order_event_def bt_handle_cancel_request_def schedule_event_def response_def Let_def)
  moreover have "handle_reject r s = s"
    using get_order_handle_reject_dropped [OF assms(3) _ r(2)] assms(4) by simp
  ultimately show ?thesis using assms(3) by (auto simp: on_order_event_def)
qed

definition sample_cancel :: cancel_request where
  "sample_cancel =
     \<lparr>ts_event = 1, ts_ingest = 1, source = ''oms'', cr_order_id = 7, cr_coid = ''mm-000000000007'',
      cr_instrument = sample_instrument\<rparr>"

theorem failed_cancel_stays_pending_witness:
  "\<exists>r. map sd_event (bg_schedule (fst (bt_on_order_event (EvCancelRequest sample_cancel) sample_gateway))) = [EvRejected r] \<and>
     get_order 7 (on_order_event (EvRejected r) (sample_waiting PENDING_CANCEL)) = Some (sample_order PENDING_CANCEL 0)"
proof -
  have 1: "dget (bg_resting sample_gateway) (cr_order_id sample_cancel) = None" "bg_schedule sample_gateway = []"
    by (simp_all add: sample_gateway_def backtest_init_def)
  have 2: "get_order (cr_order_id sample_cancel) (sample_waiting PENDING_CANCEL) = Some (sample_order PENDING_CANCEL 0)"
    "o_status (sample_order PENDING_CANCEL 0) = PENDING_CANCEL"
    by (simp_all add: sample_order_def sample_cancel_def)
  from failed_cancel_stays_pending [OF 1 2] show ?thesis by (simp add: sample_cancel_def)
qed

end
